(* ===== verification/Prelude.thy ===== *)
theory Prelude
  imports Main "HOL-Library.Word" "HOL-Library.AList" "HOL-Library.Char_ord"
    "HOL-Library.List_Lexorder" "HOL-Library.Multiset"
begin

text \<open>
  Shared vocabulary of the development: Go byte strings, error values, Go maps as association
  lists with distinct keys, signed 64-bit integers, and the collections of rewrite rules that the
  component theories extend.

  A Go \<open>string\<close> and a non-nil \<open>[]byte\<close> are both a list of bytes; a HOL \<open>char\<close> is one byte, so both
  are modelled by \<open>string\<close>.  Where the code distinguishes a nil slice, the model has an \<open>option\<close>.
\<close>

section \<open>Rewrite collections\<close>

named_theorems gomap_simps \<open>rules for Go maps\<close>
named_theorems world_simps \<open>frame rules: which parts of the world an operation leaves alone\<close>
named_theorems op_defs \<open>definitions of the operations of the components\<close>

section \<open>Bytes, errors, results\<close>

type_synonym bytes = string

text \<open>
  An error value.  \<open>ErrFmt f args\<close> is \<open>fmt.Errorf f args\<close> without a wrapped error (also an error
  made by the standard library), \<open>ErrWrap f args e\<close> is \<open>fmt.Errorf\<close> with a \<open>%w\<close> verb wrapping \<open>e\<close>,
  \<open>ErrSentinel n\<close> is a package-level error variable that is compared by identity.
\<close>

datatype fmt_arg = FStr string | FInt int | FStrs "string list"

datatype go_error =
    ErrFmt string "fmt_arg list"
  | ErrWrap string "fmt_arg list" go_error
  | ErrSentinel string

text \<open>\<open>errors.Is\<close>: walks the chain of wrapped errors.\<close>

fun errors_Is :: "go_error \<Rightarrow> go_error \<Rightarrow> bool" where
  "errors_Is (ErrFmt f args) t = (ErrFmt f args = t)"
| "errors_Is (ErrWrap f args e) t = (ErrWrap f args e = t \<or> errors_Is e t)"
| "errors_Is (ErrSentinel n) t = (ErrSentinel n = t)"

text \<open>A Go result \<open>(v, err)\<close> is a sum: \<open>Inl err\<close> or \<open>Inr v\<close>; a lone \<open>err\<close> is an \<open>option\<close>.\<close>

type_synonym 'a result = "go_error + 'a"

definition is_ok :: "'a result \<Rightarrow> bool" where
  "is_ok r = (case r of Inl _ \<Rightarrow> False | Inr _ \<Rightarrow> True)"

lemma is_ok_simps [simp]: "is_ok (Inr v)" "\<not> is_ok (Inl e)"
  by (simp_all add: is_ok_def)

lemma is_okE: "is_ok r \<Longrightarrow> (\<And>v. r = Inr v \<Longrightarrow> P) \<Longrightarrow> P"
  by (cases r) auto

text \<open>A check followed by another one passes exactly when both pass.\<close>

lemma check_seq_None: "(case x of None \<Rightarrow> y | Some e \<Rightarrow> Some e) = None \<longleftrightarrow> x = None \<and> y = None"
  by (cases x) simp_all

text \<open>\<open>map_result\<close> collects the results of a fallible function over a list, stopping at an error.\<close>

fun map_result :: "('a \<Rightarrow> 'b result) \<Rightarrow> 'a list \<Rightarrow> 'b list result" where
  "map_result f [] = Inr []"
| "map_result f (x # xs) =
     (case f x of Inl e \<Rightarrow> Inl e
      | Inr y \<Rightarrow> (case map_result f xs of Inl e \<Rightarrow> Inl e | Inr ys \<Rightarrow> Inr (y # ys)))"

lemma map_result_ok_iff: "is_ok (map_result f xs) \<longleftrightarrow> (\<forall>x\<in>set xs. is_ok (f x))"
  by (induction xs) (auto split: sum.splits)

lemma map_result_Inr_iff: "map_result f xs = Inr ys \<longleftrightarrow> map f xs = map Inr ys"
proof (induction xs arbitrary: ys)
  case Nil
  then show ?case by auto
next
  case (Cons x xs)
  show ?case by (cases ys) (auto simp: Cons.IH [symmetric] split: sum.splits)
qed

section \<open>Signed 64-bit integers\<close>

text \<open>Conversion to \<open>int64\<close> keeps the low 64 bits and reads them as two's complement.\<close>

definition int64 :: "int \<Rightarrow> int" where
  "int64 x = (x + 2 ^ 63) mod 2 ^ 64 - 2 ^ 63"

definition int32 :: "int \<Rightarrow> int" where
  "int32 x = (x + 2 ^ 31) mod 2 ^ 32 - 2 ^ 31"

lemma int64_id: "- (2 ^ 63) \<le> x \<Longrightarrow> x < 2 ^ 63 \<Longrightarrow> int64 x = x"
  by (simp add: int64_def)

lemma int64_range: "- (2 ^ 63) \<le> int64 x \<and> int64 x < 2 ^ 63"
proof -
  have "0 \<le> (x + 2 ^ 63) mod 2 ^ 64" "(x + 2 ^ 63) mod 2 ^ 64 < 2 ^ 64" by simp_all
  then show ?thesis by (simp add: int64_def)
qed

lemma int32_id: "- (2 ^ 31) \<le> x \<Longrightarrow> x < 2 ^ 31 \<Longrightarrow> int32 x = x"
  by (simp add: int32_def)

section \<open>Go maps\<close>

text \<open>
  A Go \<open>map[string]T\<close> is an association list without duplicate keys.  Its order stands for one of
  the iteration orders that Go may choose; \<open>gm_equiv\<close> relates lists that are the same Go map.
\<close>

type_synonym 'v gomap = "(string \<times> 'v) list"

definition gm_wf :: "'v gomap \<Rightarrow> bool" where
  "gm_wf m \<longleftrightarrow> distinct (map fst m)"

abbreviation gm_get :: "'v gomap \<Rightarrow> string \<Rightarrow> 'v option" where
  "gm_get m k \<equiv> map_of m k"

abbreviation gm_set :: "string \<Rightarrow> 'v \<Rightarrow> 'v gomap \<Rightarrow> 'v gomap" where
  "gm_set k v m \<equiv> AList.update k v m"

definition gm_equiv :: "'v gomap \<Rightarrow> 'v gomap \<Rightarrow> bool" where
  "gm_equiv m m' \<longleftrightarrow> gm_wf m \<and> gm_wf m' \<and> map_of m = map_of m'"

lemma gm_wf_Nil [gomap_simps, simp]: "gm_wf []"
  by (simp add: gm_wf_def)

lemma gm_wf_set [gomap_simps, intro]: "gm_wf m \<Longrightarrow> gm_wf (gm_set k v m)"
  by (simp add: gm_wf_def distinct_update)

lemma gm_get_set [gomap_simps]: "gm_get (gm_set k v m) x = (if x = k then Some v else gm_get m x)"
  by (simp add: update_conv')

lemma gm_keys_set [gomap_simps]: "fst ` set (gm_set k v m) = insert k (fst ` set m)"
  by (simp add: dom_update)

lemma gm_length_card: "gm_wf m \<Longrightarrow> length m = card (dom (map_of m))"
  by (metis dom_map_of_conv_image_fst distinct_card gm_wf_def length_map set_map)

lemma gm_equiv_length: "gm_equiv m m' \<Longrightarrow> length m = length m'"
  by (simp add: gm_equiv_def gm_length_card)

lemma gm_equiv_set_eq: "gm_equiv m m' \<Longrightarrow> set m = set m'"
proof -
  assume a: "gm_equiv m m'"
  have "(k, v) \<in> set m \<longleftrightarrow> (k, v) \<in> set m'" for k v
    using a map_of_eq_Some_iff [of m k v] map_of_eq_Some_iff [of m' k v]
    by (simp add: gm_equiv_def gm_wf_def)
  then show ?thesis by auto
qed

lemma gm_equiv_refl: "gm_wf m \<Longrightarrow> gm_equiv m m"
  by (simp add: gm_equiv_def)

lemma gm_equiv_sym: "gm_equiv m m' \<Longrightarrow> gm_equiv m' m"
  by (simp add: gm_equiv_def)

lemma gm_equiv_set: "gm_equiv m m' \<Longrightarrow> gm_equiv (gm_set k v m) (gm_set k v m')"
  by (simp add: gm_equiv_def gm_wf_set update_conv')

lemma gm_length_set:
  "length (gm_set k v m) = (if k \<in> fst ` set m then length m else Suc (length m))"
  by (induction m) auto

lemma gm_set_notin: "k \<notin> fst ` set m \<Longrightarrow> gm_set k v m = m @ [(k, v)]"
  by (induction m) auto

lemma gm_set_same: "gm_get m k = Some v \<Longrightarrow> gm_set k v m = m"
  by (induction m) auto

text \<open>Sorting the entries of a Go map by key gives one list per map.\<close>

lemma sorted_distinct_keys_unique:
  fixes xs ys :: "('a::linorder \<times> 'b) list"
  assumes "sorted (map fst xs)" "sorted (map fst ys)"
    and "distinct (map fst xs)" "distinct (map fst ys)" and "set xs = set ys"
  shows "xs = ys"
proof -
  have "map fst xs = map fst ys"
    by (rule sorted_distinct_set_unique) (use assms in auto)
  moreover have "inj_on fst (set xs \<union> set ys)"
    using assms(3,5) by (simp add: distinct_map)
  ultimately show ?thesis by (simp add: inj_on_map_eq_map)
qed

lemma distinct_keys_sort: "distinct (map fst (sort_key fst xs)) \<longleftrightarrow> distinct (map fst xs)"
  by (metis mset_eq_imp_distinct_iff mset_map mset_sort)

lemma gm_sort_unique:
  assumes "gm_equiv m m'"
  shows "sort_key fst m = sort_key fst m'"
  by (rule sorted_distinct_keys_unique)
    (use assms gm_equiv_set_eq [OF assms] in
      \<open>simp_all add: distinct_keys_sort gm_equiv_def gm_wf_def\<close>)

end
