(* ===== verification/Go_Encoding.thy ===== *)
theory Go_Encoding
  imports Prelude
begin

text \<open>
  The parts of Go's \<open>encoding/hex\<close>, \<open>encoding/base64\<close> (\<open>StdEncoding\<close>) and \<open>encoding/binary\<close> that the
  processor calls, on byte strings.  Decoders keep what the library returns on malformed input:
  the bytes decoded before the error, and the error.
\<close>

section \<open>encoding/hex\<close>

definition hex_digits :: string where
  "hex_digits = ''0123456789abcdef''"

definition hex_digit :: "nat \<Rightarrow> char" where
  "hex_digit n = hex_digits ! n"

definition hex_EncodeToString :: "bytes \<Rightarrow> string" where
  "hex_EncodeToString bs =
     concat (map (\<lambda>b. [hex_digit (of_char b div 16), hex_digit (of_char b mod 16)]) bs)"

text \<open>\<open>reverseHexTable\<close>: digits in either case.\<close>

definition hex_value :: "char \<Rightarrow> nat option" where
  "hex_value c = (let n = of_char c in
     if 48 \<le> n \<and> n \<le> 57 then Some (n - 48)
     else if 97 \<le> n \<and> n \<le> 102 then Some (n - 87)
     else if 65 \<le> n \<and> n \<le> 70 then Some (n - 55)
     else None)"

definition hex_ErrLength :: go_error where
  "hex_ErrLength = ErrSentinel ''encoding/hex: odd length hex string''"

definition hex_InvalidByte :: "char \<Rightarrow> go_error" where
  "hex_InvalidByte c = ErrFmt ''encoding/hex: invalid byte: %#U'' [FStr [c]]"

fun hex_DecodeString :: "string \<Rightarrow> bytes result" where
  "hex_DecodeString [] = Inr []"
| "hex_DecodeString [p] =
     Inl (case hex_value p of None \<Rightarrow> hex_InvalidByte p | Some _ \<Rightarrow> hex_ErrLength)"
| "hex_DecodeString (p # q # r) =
     (case hex_value p of None \<Rightarrow> Inl (hex_InvalidByte p)
      | Some a \<Rightarrow> (case hex_value q of None \<Rightarrow> Inl (hex_InvalidByte q)
         | Some b \<Rightarrow> (case hex_DecodeString r of Inl e \<Rightarrow> Inl e
              | Inr bs \<Rightarrow> Inr (char_of (16 * a + b) # bs))))"

lemma of_char_less_256 [simp]: "(of_char c :: nat) < 256"
  by simp

lemma hex_value_digit: "n < 16 \<Longrightarrow> hex_value (hex_digit n) = Some n"
proof -
  have "\<forall>n\<in>set [0..<16]. hex_value (hex_digit n) = Some n" by code_simp
  then show "n < 16 \<Longrightarrow> ?thesis" by simp
qed

lemma hex_roundtrip: "hex_DecodeString (hex_EncodeToString bs) = Inr bs"
proof (induction bs)
  case Nil
  then show ?case by (simp add: hex_EncodeToString_def)
next
  case (Cons b bs)
  have "of_char b div 16 < (16 :: nat)" using of_char_less_256 [of b] by linarith
  then show ?case using Cons
    by (simp add: hex_EncodeToString_def hex_value_digit mult.commute)
qed

lemma hex_inject: "hex_EncodeToString a = hex_EncodeToString b \<longleftrightarrow> a = b"
  by (metis hex_roundtrip sum.inject(2))

lemma hex_length: "length (hex_EncodeToString bs) = 2 * length bs"
  by (induction bs) (simp_all add: hex_EncodeToString_def)

section \<open>encoding/base64, StdEncoding\<close>

definition b64_alphabet :: string where
  "b64_alphabet = ''ABCDEFGHIJKLMNOPQRSTUVWXYZabcdefghijklmnopqrstuvwxyz0123456789+/''"

definition b64_digit :: "nat \<Rightarrow> char" where
  "b64_digit n = b64_alphabet ! n"

fun b64_EncodeToString :: "bytes \<Rightarrow> string" where
  "b64_EncodeToString [] = []"
| "b64_EncodeToString [a] = (let v = of_char a * 65536 in
     [b64_digit (v div 262144), b64_digit (v div 4096 mod 64), CHR ''='', CHR ''=''])"
| "b64_EncodeToString [a, b] = (let v = of_char a * 65536 + of_char b * 256 in
     [b64_digit (v div 262144), b64_digit (v div 4096 mod 64), b64_digit (v div 64 mod 64),
      CHR ''=''])"
| "b64_EncodeToString (a # b # c # r) =
     (let v = of_char a * 65536 + of_char b * 256 + of_char c in
     [b64_digit (v div 262144), b64_digit (v div 4096 mod 64), b64_digit (v div 64 mod 64),
      b64_digit (v mod 64)] @ b64_EncodeToString r)"

definition b64_value :: "char \<Rightarrow> nat option" where
  "b64_value c = (let n = of_char c in
     if 65 \<le> n \<and> n \<le> 90 then Some (n - 65)
     else if 97 \<le> n \<and> n \<le> 122 then Some (n - 71)
     else if 48 \<le> n \<and> n \<le> 57 then Some (n + 4)
     else if n = 43 then Some 62
     else if n = 47 then Some 63
     else None)"

text \<open>
  \<open>decodeQuantum\<close>: reads up to four digits.  \<open>QEnd\<close>: the input was used up; \<open>QErr\<close>: corrupt input,
  nothing written; \<open>QOk out r\<close>: wrote \<open>out\<close>, continue with \<open>r\<close>; \<open>QTrail out\<close>: wrote \<open>out\<close>, but there is
  input after the padding, which is an error too.
\<close>

datatype quantum = QEnd | QErr | QOk bytes string | QTrail bytes

definition is_newline :: "char \<Rightarrow> bool" where
  "is_newline c \<longleftrightarrow> c = CHR 0x0A \<or> c = CHR 0x0D"

text \<open>\<open>b64_bytes ds\<close> is the conversion of two, three or four sextets into one, two or three bytes.\<close>

definition b64_bytes :: "nat list \<Rightarrow> bytes" where
  "b64_bytes ds = (let v = foldl (\<lambda>a d. 64 * a + d) 0 (take 4 (ds @ [0, 0, 0, 0])) in
     take (length ds - 1) [char_of (v div 65536), char_of (v div 256), char_of v])"

definition b64_finish :: "nat list \<Rightarrow> string \<Rightarrow> quantum" where
  "b64_finish ds r =
     (if dropWhile is_newline r = [] then QOk (b64_bytes ds) [] else QTrail (b64_bytes ds))"

fun b64_quantum :: "nat list \<Rightarrow> string \<Rightarrow> quantum" where
  "b64_quantum ds [] = (if ds = [] then QEnd else QErr)"
| "b64_quantum ds (c # cs) =
     (case b64_value c of
        Some v \<Rightarrow> (if length ds = 3 then QOk (b64_bytes (ds @ [v])) cs else b64_quantum (ds @ [v]) cs)
      | None \<Rightarrow>
          if is_newline c then b64_quantum ds cs
          else if c \<noteq> CHR ''='' then QErr
          else if length ds < 2 then QErr
          else if length ds = 2 then
            (case dropWhile is_newline cs of [] \<Rightarrow> QErr
             | d # r \<Rightarrow> (if d \<noteq> CHR ''='' then QErr else b64_finish ds r))
          else b64_finish ds cs)"

lemma b64_finish_shorter: "b64_finish ds r = QOk out r' \<Longrightarrow> length r' \<le> length r"
  by (auto simp: b64_finish_def split: if_splits)

lemma b64_quantum_shorter: "b64_quantum ds s = QOk out r \<Longrightarrow> length r < length s"
proof (induction ds s rule: b64_quantum.induct)
  case (1 ds)
  then show ?case by (simp split: if_splits)
next
  case (2 ds c cs)
  have *: "length x \<le> length cs" if "dropWhile is_newline cs = d # x" for d x
    using length_dropWhile_le [of is_newline cs] that by simp
  from 2 show ?case
    by (auto split: option.splits if_splits list.splits dest!: b64_finish_shorter * intro: le_less_trans)
qed

definition b64_Corrupt :: go_error where
  "b64_Corrupt = ErrFmt ''illegal base64 data at input byte %d'' []"

text \<open>\<open>DecodeString\<close> returns the decoded prefix together with the error, if any.\<close>

function b64_DecodeString :: "string \<Rightarrow> bytes \<times> go_error option" where
  "b64_DecodeString s =
     (case b64_quantum [] s of
        QEnd \<Rightarrow> ([], None)
      | QErr \<Rightarrow> ([], Some b64_Corrupt)
      | QTrail out \<Rightarrow> (out, Some b64_Corrupt)
      | QOk out r \<Rightarrow> (let (bs, e) = b64_DecodeString r in (out @ bs, e)))"
  by pat_completeness auto
termination
  by (relation "measure length") (auto dest: b64_quantum_shorter)

declare b64_DecodeString.simps [simp del]

lemma b64_value_digit: "n < 64 \<Longrightarrow> b64_value (b64_digit n) = Some n"
proof -
  have m: "map b64_value b64_alphabet = map Some [0..<64]" by code_simp
  have l: "length b64_alphabet = 64" by code_simp
  assume n: "n < 64"
  then have "map b64_value b64_alphabet ! n = Some n" by (simp add: m)
  with n l show ?thesis by (simp add: b64_digit_def)
qed

lemma b64_value_pad [simp]: "b64_value CHR ''='' = None"
  by code_simp

lemma is_newline_pad [simp]: "\<not> is_newline CHR ''=''"
  by (simp add: is_newline_def)

lemma char_of_shift: "b < 256 \<Longrightarrow> char_of (256 * a + b :: nat) = (char_of b :: char)"
  by (metis char_of_mod_256 mod_mult_self2 mult.commute add.commute)

lemma of_char_pack:
  fixes a b c :: nat
  assumes "a < 256" "b < 256" "c < 256"
  shows "(a * 65536 + b * 256 + c) div 65536 = a"
    and "(a * 65536 + b * 256 + c) div 256 = 256 * a + b"
    and "a * 65536 + b * 256 + c = 256 * (256 * a + b) + c"
    and "(a * 65536 + b * 256 + c) div 262144 < 64"
    and "(a * 65536 + b * 256) div 262144 < 64"
    and "a * 65536 div 262144 < 64"
  using assms by simp_all

lemma packed_mod:
  fixes a b :: nat
  shows "(a * 65536 + b * 256) mod 64 = 0" "a * 65536 mod 64 = 0" "a * 65536 div 64 mod 64 = 0"
proof -
  have 1: "a * 65536 + b * 256 = 64 * (a * 1024 + b * 4)" by simp
  have 2: "a * 65536 = 64 * (64 * (a * 16))" by simp
  show "(a * 65536 + b * 256) mod 64 = 0" unfolding 1 by (rule mod_mult_self1_is_0)
  show "a * 65536 mod 64 = 0" unfolding 2 by (rule mod_mult_self1_is_0)
  show "a * 65536 div 64 mod 64 = 0"
    unfolding 2 by (simp only: nonzero_mult_div_cancel_left mod_mult_self1_is_0)
qed

lemma carry_bound: "b < 256 \<Longrightarrow> 256 * x + b + 1 \<le> (x + 1) * 256" for b x :: nat
  by simp

lemma sextets_join:
  fixes v :: nat
  shows "64 * (64 * (64 * (v div 262144) + v div 4096 mod 64) + v div 64 mod 64) + v mod 64 = v"
proof -
  have d: "v div 64 div 64 = v div 4096" "v div 4096 div 64 = v div 262144"
    by (simp_all flip: div_mult2_eq)
  have 1: "64 * (v div 262144) + v div 4096 mod 64 = v div 4096"
    using mult_div_mod_eq [of 64 "v div 4096"] by (simp only: d)
  have 2: "64 * (v div 4096) + v div 64 mod 64 = v div 64"
    using mult_div_mod_eq [of 64 "v div 64"] by (simp only: d)
  show ?thesis by (simp only: 1 2 mult_div_mod_eq)
qed

lemma foldl_sextets:
  "foldl (\<lambda>a d. 64 * a + d) 0 [v div 262144, v div 4096 mod 64, v div 64 mod 64, v mod 64] =
     (v :: nat)"
  unfolding foldl.simps mult_0_right add_0 by (rule sextets_join)

text \<open>The bytes of a packed word: one, two or three of them, by the number of sextets.\<close>

lemma b64_bytes_pack:
  fixes a b c :: char
  defines "v \<equiv> of_char a * 65536 + of_char b * 256 + of_char c :: nat"
  shows "b64_bytes [v div 262144, v div 4096 mod 64, v div 64 mod 64, v mod 64] = [a, b, c]"
    and "v mod 64 = 0 \<Longrightarrow> b64_bytes [v div 262144, v div 4096 mod 64, v div 64 mod 64] = [a, b]"
    and "v mod 64 = 0 \<Longrightarrow> v div 64 mod 64 = 0 \<Longrightarrow>
      b64_bytes [v div 262144, v div 4096 mod 64] = [a]"
proof -
  note v = of_char_pack(1,2,3)
    [OF of_char_less_256 of_char_less_256 of_char_less_256, of a b c, folded v_def]
  have e: "char_of (v div 65536) = a" "char_of (v div 256) = b" "char_of v = c"
    unfolding v(1,2) by (simp_all only: char_of_shift of_char_less_256 char_of_char)
      (simp only: v(3) char_of_shift of_char_less_256 char_of_char)
  note j = foldl_sextets [of v]
  show "b64_bytes [v div 262144, v div 4096 mod 64, v div 64 mod 64, v mod 64] = [a, b, c]"
    by (simp add: b64_bytes_def j e del: foldl.simps)
  show "b64_bytes [v div 262144, v div 4096 mod 64, v div 64 mod 64] = [a, b]" if "v mod 64 = 0"
    using j that by (simp add: b64_bytes_def e del: foldl.simps)
  show "b64_bytes [v div 262144, v div 4096 mod 64] = [a]"
    if "v mod 64 = 0" "v div 64 mod 64 = 0"
    using j that by (simp add: b64_bytes_def e del: foldl.simps)
qed

lemma b64_quantum_digits:
  assumes "x < 64" "y < 64" "z < 64" "w < 64"
  shows "b64_quantum [] (b64_digit x # b64_digit y # b64_digit z # b64_digit w # r) =
      QOk (b64_bytes [x, y, z, w]) r"
    and "b64_quantum [] [b64_digit x, b64_digit y, b64_digit z, CHR ''=''] =
      QOk (b64_bytes [x, y, z]) []"
    and "b64_quantum [] [b64_digit x, b64_digit y, CHR ''='', CHR ''=''] =
      QOk (b64_bytes [x, y]) []"
  using assms by (simp_all add: b64_value_digit b64_finish_def)

lemma b64_decode_Nil [simp]: "b64_DecodeString [] = ([], None)"
  by (simp add: b64_DecodeString.simps)

lemma b64_roundtrip: "b64_DecodeString (b64_EncodeToString bs) = (bs, None)"
proof (induction bs rule: b64_EncodeToString.induct)
  case 1
  then show ?case by simp
next
  case (2 a)
  let ?v = "of_char a * 65536 :: nat"
  have b: "?v div 262144 < 64" "?v div 4096 mod 64 < 64"
    by (rule of_char_pack(6) [of _ 0 0]) simp_all
  have "?v = of_char a * 65536 + of_char CHR 0x00 * 256 + of_char CHR 0x00" by simp
  then have "b64_bytes [?v div 262144, ?v div 4096 mod 64] = [a]"
    using packed_mod(2,3) b64_bytes_pack(3) [of a "CHR 0x00" "CHR 0x00"] by metis
  then show ?case
    unfolding b64_EncodeToString.simps Let_def b64_DecodeString.simps [of "_ # _"]
      b64_quantum_digits(3) [OF b b] by simp
next
  case (3 a b)
  let ?v = "of_char a * 65536 + of_char b * 256 :: nat"
  have l: "?v div 262144 < 64" "?v div 4096 mod 64 < 64" "?v div 64 mod 64 < 64"
    by (rule of_char_pack(5) [of _ _ 0]) simp_all
  have "?v = of_char a * 65536 + of_char b * 256 + of_char CHR 0x00" by simp
  then have "b64_bytes [?v div 262144, ?v div 4096 mod 64, ?v div 64 mod 64] = [a, b]"
    using packed_mod(1) b64_bytes_pack(2) [of a b "CHR 0x00"] by metis
  then show ?case
    unfolding b64_EncodeToString.simps Let_def b64_DecodeString.simps [of "_ # _"]
      b64_quantum_digits(2) [OF l l(1)] by simp
next
  case (4 a b c r)
  let ?v = "of_char a * 65536 + of_char b * 256 + of_char c :: nat"
  have l: "?v div 262144 < 64" "?v div 4096 mod 64 < 64" "?v div 64 mod 64 < 64" "?v mod 64 < 64"
    by (rule of_char_pack(4)) simp_all
  from 4 show ?case
    unfolding b64_EncodeToString.simps Let_def append_Cons append_Nil
      b64_DecodeString.simps [of "_ # _"] b64_quantum_digits(1) [OF l]
    by (simp add: b64_bytes_pack(1))
qed

section \<open>encoding/binary\<close>

text \<open>\<open>binary.BigEndian.Uint64\<close> of the first eight bytes.\<close>

definition be_Uint64 :: "bytes \<Rightarrow> nat" where
  "be_Uint64 bs = foldl (\<lambda>a b. 256 * a + of_char b) 0 (take 8 bs)"

lemma be_foldl_bound:
  "foldl (\<lambda>a b. 256 * a + (of_char b :: nat)) x bs < (x + 1) * 256 ^ length bs"
proof (induction bs arbitrary: x)
  case Nil
  then show ?case by simp
next
  case (Cons b bs)
  let ?y = "256 * x + (of_char b :: nat)"
  have "foldl (\<lambda>a b. 256 * a + of_char b) ?y bs < (?y + 1) * 256 ^ length bs" by (rule Cons.IH)
  also have "?y + 1 \<le> (x + 1) * 256"
    by (rule carry_bound) simp
  then have "(?y + 1) * 256 ^ length bs \<le> ((x + 1) * 256) * 256 ^ length bs"
    by (rule mult_le_mono1)
  finally show ?case by (simp only: foldl.simps list.size power_Suc mult.assoc add_Suc_right add_0_right)
qed

lemma be_Uint64_bound: "be_Uint64 bs < 2 ^ 64"
proof -
  have "be_Uint64 bs < 256 ^ length (take 8 bs)"
    using be_foldl_bound [of 0 "take 8 bs"] by (simp add: be_Uint64_def)
  also have "\<dots> \<le> (256 :: nat) ^ 8" by (rule power_increasing) simp_all
  finally show ?thesis by simp
qed

end
