(* ===== verification/Go_Float.thy ===== *)
theory Go_Float
  imports Prelude
begin

text \<open>
  Finite \<open>float64\<close> values, with the conversions the code uses: a decimal literal or an \<open>int64\<close> to the
  nearest \<open>float64\<close> (ties to even), a \<open>float64\<close> to \<open>int64\<close>, and the shortest decimal that reads back
  (\<open>strconv.FormatFloat\<close> with precision \<open>-1\<close>).  A value is \<open>(-1)^neg * man * 2^exp\<close>, kept canonical:
  \<open>man < 2^53\<close>, and \<open>2^52 \<le> man\<close> or \<open>exp = -1074\<close>.
\<close>

datatype f64 = F64 (f64_neg: bool) (f64_man: nat) (f64_exp: int)

definition f64_wf :: "f64 \<Rightarrow> bool" where
  "f64_wf x \<longleftrightarrow> f64_man x < 2 ^ 53 \<and> - 1074 \<le> f64_exp x \<and> f64_exp x \<le> 971
     \<and> (2 ^ 52 \<le> f64_man x \<or> f64_exp x = - 1074)"

section \<open>Rounding a ratio\<close>

fun bit_length :: "nat \<Rightarrow> nat" where
  "bit_length n = (if n = 0 then 0 else Suc (bit_length (n div 2)))"

declare bit_length.simps [simp del]

text \<open>\<open>div_even p q\<close> is \<open>p/q\<close> rounded to the nearest integer, ties to even.\<close>

definition div_even :: "nat \<Rightarrow> nat \<Rightarrow> nat" where
  "div_even p q = (let d = p div q; r = p mod q in
     if 2 * r < q \<or> 2 * r = q \<and> even d then d else Suc d)"

text \<open>\<open>scale p q e\<close> is the fraction \<open>(p/q) / 2^e\<close>.\<close>

definition scale :: "nat \<Rightarrow> nat \<Rightarrow> int \<Rightarrow> nat \<times> nat" where
  "scale p q e = (if e \<ge> 0 then (p, q * 2 ^ nat e) else (p * 2 ^ nat (- e), q))"

text \<open>The exponent of the last place of \<open>p/q\<close>, for \<open>p, q > 0\<close>.\<close>

definition ulp_exp :: "nat \<Rightarrow> nat \<Rightarrow> int" where
  "ulp_exp p q = (let l = int (bit_length p) - int (bit_length q); (a, b) = scale p q l;
     top = (if b \<le> a then l else l - 1) in max (- 1074) (top - 52))"

text \<open>\<open>None\<close> is an overflow to infinity, which \<open>ParseFloat\<close> reports as a range error.\<close>

definition f64_of_ratio :: "bool \<Rightarrow> nat \<Rightarrow> nat \<Rightarrow> f64 option" where
  "f64_of_ratio neg p q =
     (if p = 0 then Some (F64 neg 0 (- 1074))
      else (let e = ulp_exp p q; (a, b) = scale p q e; m = div_even a b;
                x = (if m = 2 ^ 53 then F64 neg (2 ^ 52) (e + 1) else F64 neg m e)
            in if f64_exp x \<le> 971 then Some x else None))"

text \<open>\<open>10^k\<close> scaling of a decimal literal with digits \<open>d\<close> and exponent \<open>k\<close>.\<close>

definition f64_of_decimal :: "bool \<Rightarrow> nat \<Rightarrow> int \<Rightarrow> f64 option" where
  "f64_of_decimal neg d k =
     (if k \<ge> 0 then f64_of_ratio neg (d * 10 ^ nat k) 1 else f64_of_ratio neg d (10 ^ nat (- k)))"

text \<open>\<open>float64(i)\<close> of an \<open>int64\<close>: every such value is in range.\<close>

definition f64_of_int :: "int \<Rightarrow> f64 option" where
  "f64_of_int i = f64_of_ratio (i < 0) (nat \<bar>i\<bar>) 1"

section \<open>Values and comparison\<close>

text \<open>\<open>f64_units x\<close> is the value in units of \<open>2^(-1074)\<close>, an integer: comparing values is comparing units.\<close>

definition f64_units :: "f64 \<Rightarrow> int" where
  "f64_units x = (if f64_neg x then - 1 else 1) * (int (f64_man x) * 2 ^ nat (f64_exp x + 1074))"

text \<open>\<open>int64(x)\<close>: the conversion truncates; what it does out of range is left to the platform in Go,
  and is the wrap-around of \<open>int64\<close> here.\<close>

definition int64_of_f64 :: "f64 \<Rightarrow> int" where
  "int64_of_f64 x = (let a = (if f64_exp x \<ge> 0 then f64_man x * 2 ^ nat (f64_exp x)
       else f64_man x div 2 ^ nat (- f64_exp x))
     in int64 (if f64_neg x then - int a else int a))"

section \<open>Shortest decimal\<close>

fun nat_digits :: "nat \<Rightarrow> nat list" where
  "nat_digits n = (if n < 10 then [n] else nat_digits (n div 10) @ [n mod 10])"

declare nat_digits.simps [simp del]

definition digit_char :: "nat \<Rightarrow> char" where
  "digit_char d = char_of (48 + d)"

definition nat_string :: "nat \<Rightarrow> string" where
  "nat_string n = map digit_char (nat_digits n)"

lemma of_char_digit: "d < 10 \<Longrightarrow> (of_char (digit_char d) :: nat) = 48 + d"
  by (simp add: digit_char_def of_char_of)

lemma nat_digits_bound: "d \<in> set (nat_digits n) \<Longrightarrow> d < 10"
proof (induction n rule: nat_digits.induct)
  case (1 n)
  then show ?case by (subst (asm) (2) nat_digits.simps) (auto split: if_splits)
qed

text \<open>\<open>fmt.Sprintf("%d", i)\<close>.\<close>

definition int_string :: "int \<Rightarrow> string" where
  "int_string i = (if i < 0 then CHR ''-'' # nat_string (nat (- i)) else nat_string (nat i))"

text \<open>The value of \<open>x\<close> without its sign as a fraction.\<close>

definition f64_ratio :: "f64 \<Rightarrow> nat \<times> nat" where
  "f64_ratio x = (if f64_exp x \<ge> 0 then (f64_man x * 2 ^ nat (f64_exp x), 1)
     else (f64_man x, 2 ^ nat (- f64_exp x)))"

text \<open>\<open>pow10_frac p q k\<close> is \<open>(p/q) * 10^k\<close>.\<close>

definition pow10_frac :: "nat \<Rightarrow> nat \<Rightarrow> int \<Rightarrow> nat \<times> nat" where
  "pow10_frac p q k = (if k \<ge> 0 then (p * 10 ^ nat k, q) else (p, q * 10 ^ nat (- k)))"

text \<open>The least \<open>e\<close> with \<open>p/q < 10^e\<close>, searched from an estimate that is never too high.\<close>

fun dec_exp_up :: "nat \<Rightarrow> nat \<Rightarrow> nat \<Rightarrow> int \<Rightarrow> int" where
  "dec_exp_up 0 p q e = e"
| "dec_exp_up (Suc n) p q e =
     (let (a, b) = pow10_frac p q (- e) in if a < b then e else dec_exp_up n p q (e + 1))"

definition dec_exp :: "nat \<Rightarrow> nat \<Rightarrow> int" where
  "dec_exp p q = (let l = int (bit_length p) - int (bit_length q) - 1 in
     dec_exp_up 5 p q (l * 30103 div 100000 - 1))"

text \<open>
  \<open>k\<close>-digit candidates for \<open>x = p/q < 10^e\<close>: the integers next to \<open>x * 10^(k-e)\<close> that read back as \<open>x\<close>,
  the nearer one first (the even one when they are equally near).
\<close>

definition reads_back :: "f64 \<Rightarrow> nat \<Rightarrow> int \<Rightarrow> bool" where
  "reads_back x c k = (f64_of_decimal (f64_neg x) c k = Some x)"

definition digit_candidate :: "f64 \<Rightarrow> nat \<Rightarrow> nat \<Rightarrow> int \<Rightarrow> nat \<Rightarrow> nat option" where
  "digit_candidate x p q e k = (let (a, b) = pow10_frac p q (int k - e);
      lo = a div b; near = div_even a b; far = (if near = lo then Suc lo else lo); s = e - int k
    in if reads_back x near s then Some near else if reads_back x far s then Some far else None)"

fun shortest_from :: "nat \<Rightarrow> f64 \<Rightarrow> nat \<Rightarrow> nat \<Rightarrow> int \<Rightarrow> nat \<Rightarrow> (nat \<times> int) option" where
  "shortest_from 0 x p q e k = None"
| "shortest_from (Suc n) x p q e k = (case digit_candidate x p q e k of
     Some c \<Rightarrow> Some (c, e - int k) | None \<Rightarrow> shortest_from n x p q e (Suc k))"

text \<open>
  \<open>f64_shortest x\<close> gives digits \<open>c\<close> and exponent \<open>s\<close> with \<open>x = c * 10^s\<close> after rounding.  Seventeen
  digits always read back; should the search ever fail, the exact decimal expansion is used.
\<close>

definition f64_shortest :: "f64 \<Rightarrow> nat \<times> int" where
  "f64_shortest x = (let (p, q) = f64_ratio x in
     if f64_man x = 0 then (0, 0)
     else (case shortest_from 17 x p q (dec_exp p q) 1 of
        Some r \<Rightarrow> r
      | None \<Rightarrow> (if f64_exp x \<ge> 0 then (p, 0) else (p * 5 ^ nat (- f64_exp x), f64_exp x))))"

section \<open>Text\<close>

fun strip_zeros :: "nat list \<Rightarrow> nat list" where
  "strip_zeros ds = (if ds \<noteq> [] \<and> last ds = 0 then strip_zeros (butlast ds) else ds)"

declare strip_zeros.simps [simp del]

definition digits_text :: "nat list \<Rightarrow> string" where
  "digits_text ds = map digit_char ds"

text \<open>\<open>%f\<close> with digits \<open>ds\<close> and decimal point after \<open>dp\<close> of them; \<open>%e\<close> with a two-digit exponent.\<close>

definition fmt_f :: "nat list \<Rightarrow> int \<Rightarrow> string" where
  "fmt_f ds dp =
     (if dp \<le> 0 then ''0.'' @ replicate (nat (- dp)) (CHR ''0'') @ digits_text ds
      else if int (length ds) \<le> dp then
        digits_text ds @ replicate (nat dp - length ds) (CHR ''0'')
      else digits_text (take (nat dp) ds) @ ''.'' @ digits_text (drop (nat dp) ds))"

definition fmt_e :: "nat list \<Rightarrow> int \<Rightarrow> string" where
  "fmt_e ds dp = (let x = dp - 1; a = nat \<bar>x\<bar> in
     digits_text (take 1 ds) @ (if length ds > 1 then ''.'' @ digits_text (drop 1 ds) else [])
     @ ''e'' @ (if x < 0 then ''-'' else ''+'')
     @ (if a < 10 \<and> \<not> x < 0 then CHR ''0'' # nat_string a else nat_string a))"

text \<open>The \<open>float64\<close> constant \<open>1e-6\<close>; \<open>1e21\<close> is exact.\<close>

definition f64_micro :: f64 where
  "f64_micro = F64 False 4722366482869645 (- 72)"

lemma f64_micro_rounds: "f64_of_decimal False 1 (- 6) = Some f64_micro"
  by (simp add: f64_of_decimal_def f64_of_ratio_def ulp_exp_def scale_def div_even_def bit_length.simps f64_micro_def)

definition ratio_less :: "nat \<times> nat \<Rightarrow> nat \<times> nat \<Rightarrow> bool" where
  "ratio_less a b \<longleftrightarrow> fst a * snd b < fst b * snd a"

text \<open>
  How \<open>encoding/json\<close> writes a \<open>float64\<close>: \<open>%f\<close>, except \<open>%e\<close> below the \<open>float64\<close> \<open>1e-6\<close> and from \<open>1e21\<close>
  on, with \<open>e-09\<close> shortened to \<open>e-9\<close>.
\<close>

definition f64_json :: "f64 \<Rightarrow> string" where
  "f64_json x = (let (c, s) = f64_shortest x; all = nat_digits c; ds = strip_zeros all;
      dp = int (length all) + s;
      body = (if f64_man x = 0 then ''0''
        else if ratio_less (f64_ratio x) (f64_ratio f64_micro) \<or> \<not> ratio_less (f64_ratio x) (10 ^ 21, 1)
        then fmt_e ds dp else fmt_f ds dp)
    in if f64_neg x then CHR ''-'' # body else body)"

section \<open>Integers are exact\<close>

lemma bit_length_bounds: "0 < n \<Longrightarrow> 2 ^ (bit_length n - 1) \<le> n \<and> n < 2 ^ bit_length n"
proof (induction n rule: bit_length.induct)
  case (1 n)
  show ?case
  proof (cases "n div 2 = 0")
    case True
    with 1(2) have "n = 1" by simp
    then show ?thesis by (simp add: bit_length.simps)
  next
    case False
    then have d: "0 < n div 2" by simp
    then obtain k where k: "bit_length (n div 2) = Suc k" by (subst (asm) bit_length.simps) (simp add: bit_length.simps)
    have "bit_length n = Suc (Suc k)" using 1(2) k by (subst bit_length.simps) simp
    moreover have "2 ^ k \<le> n div 2 \<and> n div 2 < 2 ^ Suc k" using 1(1) [OF _ d] 1(2) k by simp
    ultimately show ?thesis by auto
  qed
qed

lemma bit_length_le: "0 < n \<Longrightarrow> n < 2 ^ k \<Longrightarrow> bit_length n \<le> k"
proof -
  assume "0 < n" "n < 2 ^ k"
  with bit_length_bounds [of n] have "(2 :: nat) ^ (bit_length n - 1) < 2 ^ k" by linarith
  then have "bit_length n - 1 < k" by (simp add: power_strict_increasing_iff)
  then show ?thesis by simp
qed

text \<open>The \<open>float64\<close> of an integer below \<open>2^53\<close> has exactly that value.\<close>

lemma f64_of_ratio_exact:
  assumes "0 < p" and "p < 2 ^ 53"
  obtains x where "f64_of_ratio neg p 1 = Some x"
    and "f64_units x = (if neg then - 1 else 1) * (int p * 2 ^ 1074)"
    and "\<exists>k. x = F64 neg (p * 2 ^ k) (- int k)"
proof -
  define l where "l = bit_length p - 1"
  have b: "2 ^ l \<le> p" using bit_length_bounds [OF assms(1)] by (simp add: l_def)
  have L: "bit_length p = Suc l" using bit_length_bounds [OF assms(1)] assms(1) by (cases "bit_length p") (auto simp: l_def)
  have l: "l \<le> 52" using bit_length_le [OF assms] L by simp
  have one: "bit_length (Suc 0) = Suc 0" by (simp add: bit_length.simps)
  have e: "ulp_exp p 1 = int l - 52"
    using b l by (simp add: ulp_exp_def L one scale_def Let_def)
  have s: "scale p 1 (int l - 52) = (p * 2 ^ (52 - l), 1)"
  proof (cases "l = 52")
    case True
    then show ?thesis by (simp add: scale_def)
  next
    case False
    then have "\<not> 0 \<le> int l - 52" "nat (- (int l - 52)) = 52 - l" using l by linarith+
    then show ?thesis unfolding scale_def by (simp only: if_False)
  qed
  have "p < 2 ^ Suc l" using bit_length_bounds [OF assms(1)] L by simp
  then have "p * 2 ^ (52 - l) < 2 ^ Suc l * 2 ^ (52 - l)" by simp
  also have "\<dots> = 2 ^ 53" using l by (simp flip: power_add)
  finally have m: "p * 2 ^ (52 - l) < 2 ^ 53" .
  define x where "x = F64 neg (p * 2 ^ (52 - l)) (int l - 52)"
  have "f64_of_ratio neg p 1 = Some x"
    using assms(1) l m by (simp add: f64_of_ratio_def e s div_even_def Let_def x_def del: One_nat_def)
  moreover have "f64_units x = (if neg then - 1 else 1) * (int p * 2 ^ 1074)"
  proof -
    have "52 - l + nat (int l - 52 + 1074) = 1074" using l by linarith
    then have "(2 :: int) ^ (52 - l) * 2 ^ nat (int l - 52 + 1074) = 2 ^ 1074"
      by (simp only: power_add [symmetric])
    then show ?thesis
      by (simp only: f64_units_def x_def f64.sel of_nat_mult of_nat_power of_nat_numeral mult.assoc)
  qed
  moreover have "x = F64 neg (p * 2 ^ (52 - l)) (- int (52 - l))" using l by (simp add: x_def)
  ultimately show ?thesis using that by blast
qed

text \<open>Converting it back to an \<open>int64\<close> gives the integer.\<close>

lemma int64_of_f64_exact: "int p < 2 ^ 63 \<Longrightarrow> int64_of_f64 (F64 neg (p * 2 ^ k) (- int k)) = (if neg then - int p else int p)"
  by (cases "k = 0") (simp_all add: int64_of_f64_def int64_def)

lemma f64_of_int_exact:
  assumes "\<bar>i\<bar> < 2 ^ 53"
  obtains x where "f64_of_int i = Some x" and "f64_units x = i * 2 ^ 1074"
proof (cases "i = 0")
  case True
  then show ?thesis using that [of "F64 False 0 (- 1074)"] by (simp add: f64_of_int_def f64_of_ratio_def f64_units_def)
next
  case False
  have "nat \<bar>i\<bar> < nat (2 ^ 53)" using assms by (simp only: nat_less_eq_zless abs_ge_zero)
  then have "0 < nat \<bar>i\<bar>" "nat \<bar>i\<bar> < 2 ^ 53" using False by simp_all
  from f64_of_ratio_exact [OF this, of "i < 0"] obtain x where
    "f64_of_ratio (i < 0) (nat \<bar>i\<bar>) 1 = Some x"
    "f64_units x = (if i < 0 then - 1 else 1) * (int (nat \<bar>i\<bar>) * 2 ^ 1074)" by blast
  then show ?thesis using that [of x] by (auto simp: f64_of_int_def split: if_splits)
qed

end
