(* ===== verification/Go_Json.thy ===== *)
theory Go_Json
  imports Go_Encoding Go_Float
begin

text \<open>
  Go's \<open>encoding/json\<close> on \<open>interface{}\<close> values, as the processor uses it: \<open>Unmarshal\<close> first checks the
  whole input against the grammar (with the nesting limit of 10000) and then converts it, \<open>Marshal\<close>
  writes maps with sorted keys and escapes strings for HTML.  Strings are byte strings; invalid UTF-8
  is replaced as the library replaces it.
\<close>

section \<open>UTF-8 (unicode/utf8)\<close>

definition rune_error :: nat where
  "rune_error = 0xFFFD"

definition cont :: "nat \<Rightarrow> nat \<Rightarrow> nat \<Rightarrow> bool" where
  "cont lo hi b \<longleftrightarrow> lo \<le> b \<and> b \<le> hi"

text \<open>\<open>DecodeRune\<close>: the rune and its width; \<open>(RuneError, 1)\<close> for an invalid first sequence.\<close>

definition decode_rune :: "nat list \<Rightarrow> nat \<times> nat" where
  "decode_rune s = (case s of
      [] \<Rightarrow> (rune_error, 0)
    | b0 # r \<Rightarrow>
        if b0 < 0x80 then (b0, 1)
        else if cont 0xC2 0xDF b0 then
          (case r of b1 # _ \<Rightarrow>
             if cont 0x80 0xBF b1 then (64 * (b0 - 0xC0) + (b1 - 0x80), 2) else (rune_error, 1)
           | _ \<Rightarrow> (rune_error, 1))
        else if cont 0xE0 0xEF b0 then
          (case r of b1 # b2 # _ \<Rightarrow>
             if cont (if b0 = 0xE0 then 0xA0 else 0x80) (if b0 = 0xED then 0x9F else 0xBF) b1
                \<and> cont 0x80 0xBF b2
             then (4096 * (b0 - 0xE0) + 64 * (b1 - 0x80) + (b2 - 0x80), 3) else (rune_error, 1)
           | _ \<Rightarrow> (rune_error, 1))
        else if cont 0xF0 0xF4 b0 then
          (case r of b1 # b2 # b3 # _ \<Rightarrow>
             if cont (if b0 = 0xF0 then 0x90 else 0x80) (if b0 = 0xF4 then 0x8F else 0xBF) b1
                \<and> cont 0x80 0xBF b2 \<and> cont 0x80 0xBF b3
             then (262144 * (b0 - 0xF0) + 4096 * (b1 - 0x80) + 64 * (b2 - 0x80) + (b3 - 0x80), 4)
             else (rune_error, 1)
           | _ \<Rightarrow> (rune_error, 1))
        else (rune_error, 1))"

definition encode_rune :: "nat \<Rightarrow> bytes" where
  "encode_rune n = (let r = (if 0xD800 \<le> n \<and> n \<le> 0xDFFF \<or> 0x10FFFF < n then rune_error else n) in
     map char_of
       (if r < 0x80 then [r]
        else if r < 0x800 then [0xC0 + r div 64, 0x80 + r mod 64]
        else if r < 0x10000 then [0xE0 + r div 4096, 0x80 + r div 64 mod 64, 0x80 + r mod 64]
        else [0xF0 + r div 262144, 0x80 + r div 4096 mod 64, 0x80 + r div 64 mod 64, 0x80 + r mod 64]))"

abbreviation codes :: "bytes \<Rightarrow> nat list" where
  "codes s \<equiv> map of_char s"

section \<open>Values\<close>

text \<open>\<open>'n\<close> is the type of numbers: literals in the syntax tree, \<open>f64\<close> in a value.\<close>

datatype 'n json =
    JNull
  | JBool bool
  | JNum 'n
  | JStr string
  | JArr "'n json list"
  | JObj "(string \<times> 'n json) list"

text \<open>A literal \<open>(neg, d, k)\<close> is \<open>\<plusminus> d * 10^k\<close>.\<close>

type_synonym literal = "bool \<times> nat \<times> int"
type_synonym jvalue = "f64 json"

section \<open>Lexical syntax\<close>

abbreviation dquote :: char where "dquote \<equiv> CHR 0x22"
abbreviation bslash :: char where "bslash \<equiv> CHR 0x5C"

definition is_ws :: "char \<Rightarrow> bool" where
  "is_ws c \<longleftrightarrow> c = CHR '' '' \<or> c = CHR 0x09 \<or> c = CHR 0x0A \<or> c = CHR 0x0D"

abbreviation skip_ws :: "string \<Rightarrow> string" where
  "skip_ws s \<equiv> dropWhile is_ws s"

definition is_digit :: "char \<Rightarrow> bool" where
  "is_digit c \<longleftrightarrow> (let n = of_char c :: nat in 48 \<le> n \<and> n \<le> 57)"

definition digits_value :: "string \<Rightarrow> nat" where
  "digits_value s = foldl (\<lambda>a c. 10 * a + (of_char c - 48)) 0 s"

text \<open>Decimal texts read back.\<close>

lemma digits_value_snoc: "digits_value (s @ [c]) = 10 * digits_value s + (of_char c - 48)"
  by (simp add: digits_value_def)

lemma digits_value_nat_string: "digits_value (nat_string n) = n"
proof (induction n rule: nat_digits.induct)
  case (1 n)
  show ?case
  proof (cases "n < 10")
    case True
    then show ?thesis by (simp add: nat_string_def nat_digits.simps digits_value_def of_char_digit)
  next
    case False
    then have "nat_string n = nat_string (n div 10) @ [digit_char (n mod 10)]"
      by (simp add: nat_string_def nat_digits.simps [of n])
    then show ?thesis using 1 False by (simp add: digits_value_snoc of_char_digit)
  qed
qed

lemma nat_string_hd: "nat_string n \<noteq> [] \<and> hd (nat_string n) \<noteq> CHR ''-''"
proof -
  have "nat_digits n \<noteq> []" by (subst nat_digits.simps) simp
  then have "hd (nat_string n) = digit_char (hd (nat_digits n))" "hd (nat_digits n) < 10"
    using nat_digits_bound [of "hd (nat_digits n)" n] by (simp_all add: nat_string_def hd_map)
  then have "(of_char (hd (nat_string n)) :: nat) \<noteq> of_char CHR ''-''" by (simp add: of_char_digit)
  with \<open>nat_digits n \<noteq> []\<close> show ?thesis by (auto simp: nat_string_def)
qed

text \<open>The optional fraction and exponent of a number.\<close>

definition lex_frac :: "string \<Rightarrow> (string \<times> string) option" where
  "lex_frac s = (case s of
      [] \<Rightarrow> Some ([], [])
    | c # r \<Rightarrow> if c \<noteq> CHR ''.'' then Some ([], s)
        else if takeWhile is_digit r = [] then None
        else Some (takeWhile is_digit r, dropWhile is_digit r))"

definition lex_exp :: "string \<Rightarrow> (int \<times> string) option" where
  "lex_exp s = (case s of
      [] \<Rightarrow> Some (0, [])
    | c # r \<Rightarrow> if c \<noteq> CHR ''e'' \<and> c \<noteq> CHR ''E'' then Some (0, s)
        else (let (sg, t) = (case r of
                [] \<Rightarrow> (1, [])
              | d # t \<Rightarrow> if d = CHR ''-'' then (- 1, t) else if d = CHR ''+'' then (1, t) else (1, r))
          in if takeWhile is_digit t = [] then None
             else Some (sg * int (digits_value (takeWhile is_digit t)), dropWhile is_digit t)))"

definition lex_int :: "string \<Rightarrow> (string \<times> string) option" where
  "lex_int s = (case s of
      [] \<Rightarrow> None
    | c # r \<Rightarrow> if c = CHR ''0'' then Some ([c], r)
        else if is_digit c then Some (takeWhile is_digit s, dropWhile is_digit s) else None)"

definition lex_number :: "string \<Rightarrow> (literal \<times> string) option" where
  "lex_number s = (let (neg, s1) = (case s of
         [] \<Rightarrow> (False, []) | c # r \<Rightarrow> if c = CHR ''-'' then (True, r) else (False, s)) in
     case lex_int s1 of None \<Rightarrow> None
     | Some (ds, s2) \<Rightarrow> (case lex_frac s2 of None \<Rightarrow> None
        | Some (fs, s3) \<Rightarrow> (case lex_exp s3 of None \<Rightarrow> None
           | Some (e, s4) \<Rightarrow> Some ((neg, digits_value (ds @ fs), e - int (length fs)), s4))))"

text \<open>A string body up to its closing quote: the raw text (escapes kept) and the rest.\<close>

definition prepend :: "string \<Rightarrow> (string \<times> 'b) option \<Rightarrow> (string \<times> 'b) option" where
  "prepend p x = map_option (\<lambda>(a, r). (p @ a, r)) x"

definition escape_chars :: string where
  "escape_chars = [CHR ''b'', CHR ''f'', CHR ''n'', CHR ''r'', CHR ''t'', bslash, CHR ''/'', dquote]"

fun scan_string :: "string \<Rightarrow> (string \<times> string) option" where
  "scan_string [] = None"
| "scan_string (c # cs) =
     (if c = dquote then Some ([], cs)
      else if c = bslash then
        (case cs of [] \<Rightarrow> None
         | d # ds \<Rightarrow>
            if d \<in> set escape_chars then prepend [c, d] (scan_string ds)
            else if d = CHR ''u'' then
              (case ds of w # x # y # z # r \<Rightarrow>
                 if list_all (\<lambda>h. hex_value h \<noteq> None) [w, x, y, z]
                 then prepend [c, d, w, x, y, z] (scan_string r) else None
               | _ \<Rightarrow> None)
            else None)
      else if (of_char c :: nat) < 32 then None
      else prepend [c] (scan_string cs))"

text \<open>\<open>unquote\<close>: escapes are replaced, lone surrogates and invalid UTF-8 become U+FFFD.\<close>

definition hex4 :: "string \<Rightarrow> nat" where
  "hex4 s = foldl (\<lambda>a c. 16 * a + (case hex_value c of Some v \<Rightarrow> v | None \<Rightarrow> 0)) 0 (take 4 s)"

definition second_surrogate :: "string \<Rightarrow> nat option" where
  "second_surrogate r = (case r of
      a # b # w # x # y # z # _ \<Rightarrow>
        if a = bslash \<and> b = CHR ''u'' \<and> list_all (\<lambda>h. hex_value h \<noteq> None) [w, x, y, z]
           \<and> 0xDC00 \<le> hex4 [w, x, y, z] \<and> hex4 [w, x, y, z] \<le> 0xDFFF
        then Some (hex4 [w, x, y, z]) else None
    | _ \<Rightarrow> None)"

definition unescape :: "char \<Rightarrow> char" where
  "unescape d = (if d = CHR ''b'' then CHR 0x08 else if d = CHR ''f'' then CHR 0x0C
     else if d = CHR ''n'' then CHR 0x0A else if d = CHR ''r'' then CHR 0x0D
     else if d = CHR ''t'' then CHR 0x09 else d)"

function unquote :: "string \<Rightarrow> string" where
  "unquote [] = []"
| "unquote (c # cs) =
     (if c = bslash then
        (case cs of [] \<Rightarrow> []
         | d # ds \<Rightarrow>
            if d = CHR ''u'' then
              (let r1 = hex4 ds; r = drop 4 ds in
               if 0xD800 \<le> r1 \<and> r1 \<le> 0xDFFF then
                 (case second_surrogate r of
                    Some r2 \<Rightarrow>
                      if r1 \<le> 0xDBFF
                      then encode_rune (0x10000 + 0x400 * (r1 - 0xD800) + (r2 - 0xDC00))
                             @ unquote (drop 6 r)
                      else encode_rune rune_error @ unquote r
                  | None \<Rightarrow> encode_rune rune_error @ unquote r)
               else encode_rune r1 @ unquote r)
            else unescape d # unquote ds)
      else if (of_char c :: nat) < 0x80 then c # unquote cs
      else (let (r, n) = decode_rune (codes (c # cs)) in
            encode_rune r @ unquote (drop (n - 1) cs)))"
  by pat_completeness auto
termination
  by (relation "measure length") auto

section \<open>The grammar\<close>

lemma skip_ws_length: "skip_ws s = c # r \<Longrightarrow> length r < length s"
  by (metis Suc_le_eq length_Cons length_dropWhile_le)

lemma scan_string_shorter: "scan_string s = Some (raw, r) \<Longrightarrow> length r < length s"
proof (induction s arbitrary: raw r rule: scan_string.induct)
  case 1
  then show ?case by simp
next
  case (2 c cs)
  then show ?case
    by (fastforce simp: prepend_def split: if_splits list.splits)
qed

definition max_depth :: nat where
  "max_depth = 10000"

text \<open>\<open>keyword w v s\<close>: the value \<open>v\<close> and the rest of \<open>s\<close> after the word \<open>w\<close>.\<close>

definition keyword :: "string \<Rightarrow> 'a \<Rightarrow> string \<Rightarrow> ('a \<times> string) option" where
  "keyword w v s = (if take (length w) s = w then Some (v, drop (length w) s) else None)"

text \<open>
  The parser.  \<open>d\<close> is the nesting still allowed.  The test on lengths in \<open>parse_elems\<close> and
  \<open>parse_members\<close> never fails (\<open>parse_shorter\<close> below); it makes the termination evident.
\<close>

function parse_value :: "nat \<Rightarrow> string \<Rightarrow> (literal json \<times> string) option"
  and parse_elems :: "nat \<Rightarrow> string \<Rightarrow> (literal json list \<times> string) option"
  and parse_members :: "nat \<Rightarrow> string \<Rightarrow> ((string \<times> literal json) list \<times> string) option"
where
  "parse_value d s = (case skip_ws s of
      [] \<Rightarrow> None
    | c # cs \<Rightarrow>
        if c = CHR ''{'' then
          (if d = 0 then None
           else (case skip_ws cs of [] \<Rightarrow> None
             | e # es \<Rightarrow> if e = CHR ''}'' then Some (JObj [], es)
                 else map_option (\<lambda>(ms, r). (JObj ms, r)) (parse_members (d - 1) cs)))
        else if c = CHR ''['' then
          (if d = 0 then None
           else (case skip_ws cs of [] \<Rightarrow> None
             | e # es \<Rightarrow> if e = CHR '']'' then Some (JArr [], es)
                 else map_option (\<lambda>(vs, r). (JArr vs, r)) (parse_elems (d - 1) cs)))
        else if c = dquote then
          map_option (\<lambda>(raw, r). (JStr (unquote raw), r)) (scan_string cs)
        else if c = CHR ''t'' then keyword ''true'' (JBool True) (c # cs)
        else if c = CHR ''f'' then keyword ''false'' (JBool False) (c # cs)
        else if c = CHR ''n'' then keyword ''null'' JNull (c # cs)
        else map_option (\<lambda>(n, r). (JNum n, r)) (lex_number (c # cs)))"
| "parse_elems d s = (case parse_value d s of
      None \<Rightarrow> None
    | Some (v, r) \<Rightarrow>
        if length r < length s then
          (case skip_ws r of [] \<Rightarrow> None
           | c # cs \<Rightarrow> if c = CHR '']'' then Some ([v], cs)
               else if c = CHR '','' then map_option (\<lambda>(vs, t). (v # vs, t)) (parse_elems d cs)
               else None)
        else None)"
| "parse_members d s = (case skip_ws s of
      [] \<Rightarrow> None
    | q # s1 \<Rightarrow> if q \<noteq> dquote then None else
        (case scan_string s1 of None \<Rightarrow> None
         | Some (raw, s2) \<Rightarrow> (case skip_ws s2 of [] \<Rightarrow> None
            | c # s3 \<Rightarrow> if c \<noteq> CHR '':'' then None else
                (case parse_value d s3 of None \<Rightarrow> None
                 | Some (v, r) \<Rightarrow>
                     if length r < length s then
                       (case skip_ws r of [] \<Rightarrow> None
                        | e # es \<Rightarrow> if e = CHR ''}'' then Some ([(unquote raw, v)], es)
                            else if e = CHR '','' then
                              map_option (\<lambda>(ms, t). ((unquote raw, v) # ms, t)) (parse_members d es)
                            else None)
                     else None))))"
  by pat_completeness auto
termination
proof (relation "measure (\<lambda>x. case x of Inl (d, s) \<Rightarrow> 2 * length s
    | Inr (Inl (d, s)) \<Rightarrow> 2 * length s + 1 | Inr (Inr (d, s)) \<Rightarrow> 2 * length s + 1)", goal_cases)
  case 1
  then show ?case by simp
qed (auto dest!: skip_ws_length scan_string_shorter)

declare parse_value.simps [simp del] parse_elems.simps [simp del] parse_members.simps [simp del]

text \<open>Every successful parse uses up at least one byte, so the length tests above always succeed.\<close>

lemma lex_int_shorter: "lex_int s = Some (ds, r) \<Longrightarrow> length r < length s"
  by (auto simp: lex_int_def length_dropWhile_le less_Suc_eq_le split: list.splits if_splits)

lemma lex_frac_le: "lex_frac s = Some (ds, r) \<Longrightarrow> length r \<le> length s"
  by (auto simp: lex_frac_def length_dropWhile_le le_SucI split: list.splits if_splits)

lemma lex_exp_le: "lex_exp s = Some (e, r) \<Longrightarrow> length r \<le> length s"
  by (auto simp: lex_exp_def Let_def intro: le_trans [OF length_dropWhile_le]
      split: list.splits if_splits)

lemma lex_number_shorter: "lex_number s = Some (n, r) \<Longrightarrow> length r < length s"
proof -
  assume a: "lex_number s = Some (n, r)"
  define s1 where "s1 = snd (case s of
    [] \<Rightarrow> (False, []) | c # t \<Rightarrow> if c = CHR ''-'' then (True, t) else (False, s))"
  have "length s1 \<le> length s" by (auto simp: s1_def split: list.splits)
  moreover obtain ds s2 fs s3 e where "lex_int s1 = Some (ds, s2)" "lex_frac s2 = Some (fs, s3)"
    "lex_exp s3 = Some (e, r)"
    using a by (auto simp: lex_number_def s1_def Let_def split: prod.splits option.splits)
  ultimately show ?thesis
    using lex_int_shorter lex_frac_le lex_exp_le by fastforce
qed

lemma keyword_le: "keyword (x # w) v (c # cs) = Some (y, r) \<Longrightarrow> length r \<le> length cs"
  by (auto simp: keyword_def split: if_splits)

lemma parse_value_cases:
  assumes "parse_value d s = Some (v, r)" and "skip_ws s = c # cs"
  shows "length r \<le> length cs
    \<or> (\<exists>e es ms. c = CHR ''{'' \<and> d \<noteq> 0 \<and> skip_ws cs = e # es \<and> e \<noteq> CHR ''}''
          \<and> parse_members (d - 1) cs = Some (ms, r))
    \<or> (\<exists>e es vs. c = CHR ''['' \<and> d \<noteq> 0 \<and> skip_ws cs = e # es \<and> e \<noteq> CHR '']''
          \<and> parse_elems (d - 1) cs = Some (vs, r))"
proof -
  show ?thesis
    using assms(1) unfolding parse_value.simps [of d s] assms(2) list.case
    by (auto split: if_splits list.splits
        dest!: keyword_le skip_ws_length scan_string_shorter lex_number_shorter)
qed

lemma parse_elems_cases:
  assumes "parse_elems d s = Some (vs, r)"
  obtains v t c cs where "parse_value d s = Some (v, t)" "length t < length s" "skip_ws t = c # cs"
    "r = cs \<or> c = CHR '','' \<and> (\<exists>ws. parse_elems d cs = Some (ws, r))"
  using assms unfolding parse_elems.simps [of d s]
  by (auto split: option.splits if_splits list.splits)

lemma parse_members_cases:
  assumes "parse_members d s = Some (ms, r)"
  obtains q s1 raw s2 c s3 v t e es where "skip_ws s = q # s1" "q = dquote" "scan_string s1 = Some (raw, s2)"
    "skip_ws s2 = c # s3" "c = CHR '':''" "parse_value d s3 = Some (v, t)" "length t < length s" "skip_ws t = e # es"
    "r = es \<or> e = CHR '','' \<and> (\<exists>ns. parse_members d es = Some (ns, r))"
  using assms unfolding parse_members.simps [of d s]
  by (auto split: option.splits if_splits list.splits)

lemma parse_shorter:
  "parse_value d s = Some (v, r) \<Longrightarrow> length r < length s"
  "parse_elems d s = Some (vs, r) \<Longrightarrow> length r < length s"
  "parse_members d s = Some (ms, r) \<Longrightarrow> length r < length s"
proof (induction d s and d s and d s arbitrary: v r and vs r and ms r
    rule: parse_value_parse_elems_parse_members.induct)
  case (1 d s)
  show ?case
  proof (cases "skip_ws s")
    case Nil
    then show ?thesis using 1(3) by (simp only: parse_value.simps list.case option.distinct)
  next
    case (Cons c cs)
    have l: "length cs < length s" using skip_ws_length [OF Cons] .
    from parse_value_cases [OF 1(3) Cons] have "length r \<le> length cs"
      using 1(1,2) [OF Cons] by (elim disjE exE conjE) (auto dest: less_imp_le)
    with l show ?thesis by simp
  qed
next
  case (2 d s)
  from 2(3) obtain v t c cs where p: "parse_value d s = Some (v, t)" "length t < length s"
    "skip_ws t = c # cs" "r = cs \<or> c = CHR '','' \<and> (\<exists>ws. parse_elems d cs = Some (ws, r))"
    by (rule parse_elems_cases)
  have "length cs < length s" using skip_ws_length [OF p(3)] p(2) by simp
  moreover have "parse_elems d cs = Some (ws, r) \<Longrightarrow> c = CHR '','' \<Longrightarrow> length r < length cs" for ws
    using 2(2) p by simp
  ultimately show ?case using p(4) by fastforce
next
  case (3 d s)
  from 3(3) obtain q s1 raw s2 c s3 v t e es where p: "skip_ws s = q # s1" "q = dquote"
    "scan_string s1 = Some (raw, s2)" "skip_ws s2 = c # s3" "c = CHR '':''" "parse_value d s3 = Some (v, t)"
    "length t < length s" "skip_ws t = e # es"
    "r = es \<or> e = CHR '','' \<and> (\<exists>ns. parse_members d es = Some (ns, r))"
    by (rule parse_members_cases)
  have "length es < length s" using skip_ws_length [OF p(8)] p(7) by simp
  moreover have "parse_members d es = Some (ns, r) \<Longrightarrow> e = CHR '','' \<Longrightarrow> length r < length es" for ns
    using p(2,5)
    by (intro 3(2) [OF p(1) _ p(3) refl p(4) _ p(6) refl p(7) p(8)]) simp_all
  ultimately show ?case using p(9) by fastforce
qed

section \<open>Unmarshal\<close>

definition json_syntax_error :: go_error where
  "json_syntax_error = ErrFmt ''json: syntax error'' []"

definition json_type_error :: go_error where
  "json_type_error = ErrFmt ''json: cannot unmarshal'' []"

text \<open>\<open>checkValid\<close>: one value, with nothing but white space around it.\<close>

definition json_parse :: "bytes \<Rightarrow> literal json result" where
  "json_parse s = (case parse_value max_depth s of
      None \<Rightarrow> Inl json_syntax_error
    | Some (v, r) \<Rightarrow> if skip_ws r = [] then Inr v else Inl json_syntax_error)"

text \<open>
  Conversion to a value.  A number out of range is an error; when an object repeats a key, the last
  value wins.
\<close>

lemma map_result_cong [fundef_cong]:
  "xs = ys \<Longrightarrow> (\<And>x. x \<in> set ys \<Longrightarrow> f x = g x) \<Longrightarrow> map_result f xs = map_result g ys"
proof -
  assume "xs = ys" and f: "\<And>x. x \<in> set ys \<Longrightarrow> f x = g x"
  from f have "map_result f ys = map_result g ys" by (induction ys) (simp_all split: sum.split)
  with \<open>xs = ys\<close> show ?thesis by simp
qed

definition gm_of_list :: "(string \<times> 'v) list \<Rightarrow> 'v gomap" where
  "gm_of_list kvs = fold (\<lambda>(k, v). gm_set k v) kvs []"

fun json_value :: "literal json \<Rightarrow> jvalue result" where
  "json_value JNull = Inr JNull"
| "json_value (JBool b) = Inr (JBool b)"
| "json_value (JNum n) = (case n of (neg, d, k) \<Rightarrow>
     (case f64_of_decimal neg d k of None \<Rightarrow> Inl json_type_error | Some x \<Rightarrow> Inr (JNum x)))"
| "json_value (JStr s) = Inr (JStr s)"
| "json_value (JArr vs) =
     (case map_result json_value vs of Inl e \<Rightarrow> Inl e | Inr xs \<Rightarrow> Inr (JArr xs))"
| "json_value (JObj ms) =
     (case map_result (\<lambda>(k, v). case json_value v of Inl e \<Rightarrow> Inl e | Inr x \<Rightarrow> Inr (k, x)) ms of
        Inl e \<Rightarrow> Inl e | Inr xs \<Rightarrow> Inr (JObj (gm_of_list xs)))"

text \<open>\<open>Unmarshal\<close> into an \<open>interface{}\<close>.\<close>

definition json_Unmarshal :: "bytes \<Rightarrow> jvalue result" where
  "json_Unmarshal s = (case json_parse s of Inl e \<Rightarrow> Inl e | Inr t \<Rightarrow> json_value t)"

text \<open>
  \<open>Unmarshal\<close> into a \<open>map[string]interface{}\<close>: \<open>null\<close> leaves the map nil, which reads like an empty map;
  any other value that is not an object is a type error.
\<close>

definition json_Unmarshal_map :: "bytes \<Rightarrow> jvalue gomap result" where
  "json_Unmarshal_map s = (case json_Unmarshal s of
      Inl e \<Rightarrow> Inl e
    | Inr (JObj m) \<Rightarrow> Inr m
    | Inr JNull \<Rightarrow> Inr []
    | Inr _ \<Rightarrow> Inl json_type_error)"

lemma gm_of_list_wf [gomap_simps, simp]: "gm_wf (gm_of_list kvs)"
proof -
  have "gm_wf m \<Longrightarrow> gm_wf (fold (\<lambda>(k, v). gm_set k v) kvs m)" for m :: "'a gomap"
    by (induction kvs arbitrary: m) (auto intro: gm_wf_set)
  then show ?thesis by (simp add: gm_of_list_def)
qed

lemma json_Unmarshal_map_wf: "json_Unmarshal_map s = Inr m \<Longrightarrow> gm_wf m"
proof -
  have "json_value t = Inr (JObj m) \<Longrightarrow> gm_wf m" for t m
    by (cases t rule: json_value.cases) (auto split: sum.splits option.splits prod.splits)
  then show "json_Unmarshal_map s = Inr m \<Longrightarrow> gm_wf m"
    by (auto simp: json_Unmarshal_map_def json_Unmarshal_def split: sum.splits json.splits)
qed

section \<open>Marshal\<close>

definition hexlow :: "nat \<Rightarrow> char" where
  "hexlow n = hex_digit (n mod 16)"

text \<open>Bytes below 0x80 that are written as they are (\<open>htmlSafeSet\<close>).\<close>

definition html_safe :: "char \<Rightarrow> bool" where
  "html_safe c \<longleftrightarrow> 32 \<le> (of_char c :: nat) \<and> (of_char c :: nat) < 128
     \<and> c \<notin> {dquote, bslash, CHR ''<'', CHR ''>'', CHR ''&''}"

definition escape_byte :: "char \<Rightarrow> string" where
  "escape_byte c =
     (if c = dquote \<or> c = bslash then [bslash, c]
      else if c = CHR 0x08 then [bslash, CHR ''b''] else if c = CHR 0x0C then [bslash, CHR ''f'']
      else if c = CHR 0x0A then [bslash, CHR ''n''] else if c = CHR 0x0D then [bslash, CHR ''r'']
      else if c = CHR 0x09 then [bslash, CHR ''t'']
      else [bslash, CHR ''u'', CHR ''0'', CHR ''0'', hexlow (of_char c div 16), hexlow (of_char c)])"

function quote_body :: "string \<Rightarrow> string" where
  "quote_body [] = []"
| "quote_body (c # cs) =
     (if (of_char c :: nat) < 0x80
      then (if html_safe c then [c] else escape_byte c) @ quote_body cs
      else (let (r, n) = decode_rune (codes (c # cs)) in
        if r = rune_error \<and> n = 1 then bslash # ''ufffd'' @ quote_body cs
        else if r = 0x2028 \<or> r = 0x2029
          then bslash # ''u202'' @ hexlow r # quote_body (drop (n - 1) cs)
        else take n (c # cs) @ quote_body (drop (n - 1) cs)))"
  by pat_completeness auto
termination
  by (relation "measure length") auto

definition json_quote :: "string \<Rightarrow> string" where
  "json_quote s = dquote # quote_body s @ [dquote]"

fun join_with :: "string \<Rightarrow> string list \<Rightarrow> string" where
  "join_with sep [] = []"
| "join_with sep [x] = x"
| "join_with sep (x # y # zs) = x @ sep @ join_with sep (y # zs)"

definition json_object_text :: "(string \<times> string) list \<Rightarrow> string" where
  "json_object_text kts =
     ''{'' @ join_with '','' (map (\<lambda>(k, t). json_quote k @ '':'' @ t) kts) @ ''}''"

text \<open>\<open>Marshal\<close> of a value: maps are written in the order of their keys.\<close>

fun json_text :: "jvalue \<Rightarrow> string" where
  "json_text JNull = ''null''"
| "json_text (JBool b) = (if b then ''true'' else ''false'')"
| "json_text (JNum x) = f64_json x"
| "json_text (JStr s) = json_quote s"
| "json_text (JArr vs) = ''['' @ join_with '','' (map json_text vs) @ '']''"
| "json_text (JObj m) = json_object_text (sort_key fst (map (\<lambda>(k, v). (k, json_text v)) m))"

definition json_Marshal_map :: "jvalue gomap \<Rightarrow> bytes result" where
  "json_Marshal_map m = Inr (json_text (JObj m))"

lemma map_of_map_snd: "map_of (map (\<lambda>(k, v). (k, f v)) m) k = map_option f (map_of m k)"
  by (induction m) auto

lemma gm_equiv_map:
  assumes "gm_equiv m m'"
  shows "gm_equiv (map (\<lambda>(k, v). (k, f v)) m) (map (\<lambda>(k, v). (k, f v)) m')"
  using assms by (simp add: gm_equiv_def gm_wf_def map_of_map_snd fun_eq_iff) (simp add: comp_def case_prod_unfold)

text \<open>The text of a map does not depend on the order Go iterates over it.\<close>

lemma json_Marshal_map_equiv: "gm_equiv m m' \<Longrightarrow> json_Marshal_map m = json_Marshal_map m'"
  by (simp add: json_Marshal_map_def gm_sort_unique [OF gm_equiv_map])

lemma json_Marshal_map_nonempty: "json_Marshal_map m = Inr b \<Longrightarrow> 2 \<le> length b"
  by (auto simp: json_Marshal_map_def json_object_text_def)

end
