(* ===== verification/Config.thy ===== *)
theory Config
  imports Go_Json
begin

text \<open>
  \<open>internal/config/config.go\<close>: the join and processor configuration, the \<open>Duration\<close> type with its JSON
  form, and \<open>ValidateJoinConfig\<close>.  A \<open>time.Duration\<close> is an \<open>int64\<close> number of nanoseconds, kept as an \<open>int\<close>
  in that range.  \<open>EgressPolicy\<close> is a string type in Go, and any string can be loaded from a file.
\<close>

section \<open>time.ParseDuration\<close>

type_synonym duration = int

definition ns_second :: int where
  "ns_second = 1000000000"

text \<open>\<open>unitMap\<close>; the two spellings of micro are U+00B5 and U+03BC in UTF-8.\<close>

definition duration_unit :: "string \<Rightarrow> nat option" where
  "duration_unit u =
     (if u = ''ns'' then Some 1
      else if u = ''us'' \<or> u = [CHR 0xC2, CHR 0xB5, CHR ''s''] \<or> u = [CHR 0xCE, CHR 0xBC, CHR ''s'']
        then Some 1000
      else if u = ''ms'' then Some 1000000
      else if u = ''s'' then Some 1000000000
      else if u = ''m'' then Some 60000000000
      else if u = ''h'' then Some 3600000000000
      else None)"

fun leading_int :: "nat \<Rightarrow> string \<Rightarrow> (nat \<times> string) option" where
  "leading_int x [] = Some (x, [])"
| "leading_int x (c # cs) =
     (if \<not> is_digit c then Some (x, c # cs)
      else if 2 ^ 63 div 10 < x then None
      else (let y = 10 * x + (of_char c - 48) in if 2 ^ 63 < y then None else leading_int y cs))"

text \<open>Digits after the point, as \<open>x\<close> over \<open>10^n\<close>; digits that would overflow are dropped.\<close>

fun leading_fraction :: "nat \<Rightarrow> nat \<Rightarrow> bool \<Rightarrow> string \<Rightarrow> nat \<times> nat \<times> string" where
  "leading_fraction x n ov [] = (x, n, [])"
| "leading_fraction x n ov (c # cs) =
     (if \<not> is_digit c then (x, n, c # cs)
      else if ov \<or> (2 ^ 63 - 1) div 10 < x then leading_fraction x n True cs
      else (let y = 10 * x + (of_char c - 48) in
        if 2 ^ 63 < y then leading_fraction x n True cs else leading_fraction y (Suc n) False cs))"

text \<open>\<open>uint64(float64(f) * (float64(unit) / scale))\<close> in \<open>float64\<close> arithmetic.\<close>

definition frac_nanos :: "nat \<Rightarrow> nat \<Rightarrow> nat \<Rightarrow> nat" where
  "frac_nanos f unit n =
     (case (f64_of_ratio False f 1, f64_of_ratio False unit (10 ^ n)) of
        (Some x, Some y) \<Rightarrow> (let (a, b) = f64_ratio x; (c, d) = f64_ratio y in
          (case f64_of_ratio False (a * c) (b * d) of
             Some z \<Rightarrow> (let (p, q) = f64_ratio z in p div q) | None \<Rightarrow> 0))
      | _ \<Rightarrow> 0)"

definition duration_error :: "string \<Rightarrow> go_error" where
  "duration_error s = ErrFmt ''time: invalid duration'' [FStr s]"

definition unit_char :: "char \<Rightarrow> bool" where
  "unit_char c \<longleftrightarrow> c \<noteq> CHR ''.'' \<and> \<not> is_digit c"

text \<open>One \<open>number unit\<close> group: its nanoseconds and the rest.\<close>

definition duration_group :: "string \<Rightarrow> (nat \<times> string) option" where
  "duration_group s = (case s of [] \<Rightarrow> None | c # _ \<Rightarrow>
     if c \<noteq> CHR ''.'' \<and> \<not> is_digit c then None
     else (case leading_int 0 s of None \<Rightarrow> None
       | Some (v, s1) \<Rightarrow>
          (let pre = length s1 \<noteq> length s;
               (f, n, s2, post) = (case s1 of [] \<Rightarrow> (0, 0, [], False)
                 | d # r \<Rightarrow> if d = CHR ''.''
                     then (let (f, n, t) = leading_fraction 0 0 False r in (f, n, t, length t \<noteq> length r))
                     else (0, 0, s1, False));
               u = takeWhile unit_char s2; s3 = dropWhile unit_char s2
           in if \<not> pre \<and> \<not> post \<or> u = [] then None
              else (case duration_unit u of None \<Rightarrow> None
                | Some unit \<Rightarrow>
                    if 2 ^ 63 div unit < v then None
                    else (let w = v * unit + (if f > 0 then frac_nanos f unit n else 0) in
                      if 2 ^ 63 < w then None else Some (w, s3))))))"

text \<open>The loop over the groups; it stops because each group uses up input.\<close>

function duration_groups :: "nat \<Rightarrow> string \<Rightarrow> nat option" where
  "duration_groups d s =
     (if s = [] then Some d
      else (case duration_group s of None \<Rightarrow> None
        | Some (w, r) \<Rightarrow>
            if \<not> length r < length s \<or> 2 ^ 63 < d + w then None else duration_groups (d + w) r))"
  by pat_completeness auto
termination
  by (relation "measure (\<lambda>(d, s). length s)") auto

declare duration_groups.simps [simp del]

definition time_ParseDuration :: "string \<Rightarrow> duration result" where
  "time_ParseDuration orig =
     (let (neg, s) = (case orig of [] \<Rightarrow> (False, [])
        | c # r \<Rightarrow> if c = CHR ''-'' then (True, r) else if c = CHR ''+'' then (False, r)
            else (False, orig))
      in if s = ''0'' then Inr 0
         else if s = [] then Inl (duration_error orig)
         else (case duration_groups 0 s of None \<Rightarrow> Inl (duration_error orig)
           | Some d \<Rightarrow> if neg then Inr (- int d)
               else if 2 ^ 63 - 1 < d then Inl (duration_error orig) else Inr (int d)))"

section \<open>Configuration types\<close>

text \<open>A \<open>uuid.UUID\<close> is an array of 16 bytes.\<close>

type_synonym uuid = bytes

definition uuid_Nil :: uuid where
  "uuid_Nil = replicate 16 (CHR 0x00)"

definition EgressInner :: string where "EgressInner = ''inner''"
definition EgressPartial :: string where "EgressPartial = ''partial''"

record key_def =
  kdField :: string
  kdFields :: "string list"

record projection_field =
  pfOutput :: string
  pfStream :: string
  pfField :: string

record join_config =
  ConfigID :: uuid
  cfgName :: string
  StreamIDs :: "string list"
  cfgKey :: key_def
  cfgTTL :: duration
  Projection :: "projection_field list"
  Egress :: string
  PostJoinDelay :: duration

text \<open>The elements of \<open>JoinConfigs\<close> are pointers; \<open>None\<close> is nil.\<close>

record processor_config =
  KafkaBrokers :: "string list"
  InputTopic :: string
  EgressTopic :: string
  ConfigPath :: string
  JoinConfig :: "join_config option"
  ConfigPaths :: "string list"
  JoinConfigs :: "join_config option list"
  ScyllaHosts :: "string list"
  ScyllaKeyspace :: string
  RedisAddr :: string
  RedisBloomKey :: string
  CorrectionsTopic :: string

definition MultiConfig :: "processor_config \<Rightarrow> bool" where
  "MultiConfig c \<longleftrightarrow> 0 < length (JoinConfigs c)"

definition join_N :: "join_config \<Rightarrow> int" where
  "join_N c = int (length (StreamIDs c))"

text \<open>
  \<open>(d *Duration) UnmarshalJSON(b)\<close>: the new value of \<open>*d\<close>, whose old value is \<open>old\<close>.  \<open>duration_value\<close> is the
  method after its call of \<open>Unmarshal\<close>, whose result it takes.
\<close>

definition duration_value :: "duration \<Rightarrow> jvalue result \<Rightarrow> duration result" where
  "duration_value old r = (case r of
      Inl e \<Rightarrow> Inl e
    | Inr (JNum x) \<Rightarrow> Inr (int64_of_f64 x)
    | Inr (JStr s) \<Rightarrow> (case time_ParseDuration s of Inl e \<Rightarrow> Inl e | Inr t \<Rightarrow> Inr t)
    | Inr _ \<Rightarrow> Inr old)"

definition Duration_UnmarshalJSON :: "duration \<Rightarrow> bytes \<Rightarrow> duration result" where
  "Duration_UnmarshalJSON old b = duration_value old (json_Unmarshal b)"

section \<open>Validation\<close>

fun check_projection :: "join_config \<Rightarrow> nat \<Rightarrow> projection_field list \<Rightarrow> go_error option" where
  "check_projection c i [] = None"
| "check_projection c i (p # ps) =
     (if pfStream p = [] then
        Some (ErrFmt ''join config %q: projection[%d] has empty stream'' [FStr (cfgName c), FInt (int i)])
      else if pfStream p \<notin> set (StreamIDs c) then
        Some (ErrFmt ''join config %q: projection[%d] stream %q is not in stream_ids %v''
          [FStr (cfgName c), FInt (int i), FStr (pfStream p), FStrs (StreamIDs c)])
      else check_projection c (Suc i) ps)"

fun check_key_fields :: "join_config \<Rightarrow> nat \<Rightarrow> string list \<Rightarrow> go_error option" where
  "check_key_fields c i [] = None"
| "check_key_fields c i (f # fs) =
     (if f = [] then
        Some (ErrFmt ''join config %q: key.fields[%d] must be non-empty'' [FStr (cfgName c), FInt (int i)])
      else check_key_fields c (Suc i) fs)"

definition ValidateJoinConfig :: "join_config option \<Rightarrow> go_error option" where
  "ValidateJoinConfig oc = (case oc of
      None \<Rightarrow> Some (ErrFmt ''join config is nil'' [])
    | Some c \<Rightarrow>
        if length (StreamIDs c) = 0 then
          Some (ErrFmt ''join config %q: stream_ids must be non-empty'' [FStr (cfgName c)])
        else (case check_projection c 0 (Projection c) of Some e \<Rightarrow> Some e
          | None \<Rightarrow>
             if kdField (cfgKey c) = [] \<and> length (kdFields (cfgKey c)) = 0 then
               Some (ErrFmt ''join config %q: key must have field or fields'' [FStr (cfgName c)])
             else (case check_key_fields c 0 (kdFields (cfgKey c)) of Some e \<Rightarrow> Some e
               | None \<Rightarrow>
                  if Egress c = EgressPartial \<and> cfgTTL c \<le> 0 then
                    Some (ErrFmt ''join config %q: egress partial requires ttl > 0'' [FStr (cfgName c)])
                  else None)))"

text \<open>What a configuration that passes promises to the rest of the program.\<close>

definition valid_join_config :: "join_config \<Rightarrow> bool" where
  "valid_join_config c \<longleftrightarrow>
     StreamIDs c \<noteq> []
     \<and> list_all (\<lambda>p. pfStream p \<noteq> [] \<and> pfStream p \<in> set (StreamIDs c)) (Projection c)
     \<and> (kdField (cfgKey c) \<noteq> [] \<or> kdFields (cfgKey c) \<noteq> [])
     \<and> [] \<notin> set (kdFields (cfgKey c))
     \<and> (Egress c = EgressPartial \<longrightarrow> 0 < cfgTTL c)"

lemma check_projection_None:
  "check_projection c i ps = None \<longleftrightarrow>
     list_all (\<lambda>p. pfStream p \<noteq> [] \<and> pfStream p \<in> set (StreamIDs c)) ps"
  by (induction ps arbitrary: i) auto

lemma check_key_fields_None: "check_key_fields c i fs = None \<longleftrightarrow> [] \<notin> set fs"
  by (induction fs arbitrary: i) auto

text \<open>The index in a projection error is that of the first offending field.\<close>

lemma check_projection_first:
  assumes "check_projection c i ps = Some e"
  obtains k where "k < length ps"
    and "\<forall>j<k. pfStream (ps ! j) \<noteq> [] \<and> pfStream (ps ! j) \<in> set (StreamIDs c)"
    and "pfStream (ps ! k) = [] \<or> pfStream (ps ! k) \<notin> set (StreamIDs c)"
    and "e = ErrFmt ''join config %q: projection[%d] has empty stream''
               [FStr (cfgName c), FInt (int (i + k))]
      \<or> e = ErrFmt ''join config %q: projection[%d] stream %q is not in stream_ids %v''
               [FStr (cfgName c), FInt (int (i + k)), FStr (pfStream (ps ! k)), FStrs (StreamIDs c)]"
  using assms
proof (induction ps arbitrary: i thesis)
  case Nil
  then show ?case by simp
next
  case (Cons p ps)
  show ?case
  proof (cases "pfStream p = [] \<or> pfStream p \<notin> set (StreamIDs c)")
    case True
    then show ?thesis using Cons.prems by (intro Cons.prems(1) [of 0]) (auto split: if_splits)
  next
    case False
    then have "check_projection c (Suc i) ps = Some e" using Cons.prems(2) by simp
    then show ?thesis
    proof (rule Cons.IH [rotated])
      fix k
      assume k: "k < length ps"
        "\<forall>j<k. pfStream (ps ! j) \<noteq> [] \<and> pfStream (ps ! j) \<in> set (StreamIDs c)"
        "pfStream (ps ! k) = [] \<or> pfStream (ps ! k) \<notin> set (StreamIDs c)"
        "e = ErrFmt ''join config %q: projection[%d] has empty stream''
               [FStr (cfgName c), FInt (int (Suc i + k))]
         \<or> e = ErrFmt ''join config %q: projection[%d] stream %q is not in stream_ids %v''
               [FStr (cfgName c), FInt (int (Suc i + k)), FStr (pfStream (ps ! k)), FStrs (StreamIDs c)]"
      have "\<forall>j<Suc k. pfStream ((p # ps) ! j) \<noteq> [] \<and> pfStream ((p # ps) ! j) \<in> set (StreamIDs c)"
        using k(2) False by (auto simp: nth_Cons split: nat.splits)
      with k show ?thesis by (intro Cons.prems(1) [of "Suc k"]) simp_all
    qed
  qed
qed

lemma ValidateJoinConfig_None:
  "ValidateJoinConfig oc = None \<longleftrightarrow> (\<exists>c. oc = Some c \<and> valid_join_config c)"
proof (cases oc)
  case None
  then show ?thesis by (simp add: ValidateJoinConfig_def)
next
  case (Some c)
  have "ValidateJoinConfig (Some c) = None \<longleftrightarrow> valid_join_config c"
    unfolding ValidateJoinConfig_def valid_join_config_def option.case
    by (simp only: if_split_eq1 check_seq_None check_projection_None check_key_fields_None
        length_0_conv option.distinct) (auto simp: not_le)
  with Some show ?thesis by simp
qed

end
