(* ===== verification/Projection.thy ===== *)
theory Projection
  imports Config
begin

text \<open>
  \<open>internal/projection/project.go\<close>: the output document of a join.  Go iterates over the participants
  in an unspecified order; the lemmas show that a successful result does not depend on it, and what
  each output field holds.
\<close>

text \<open>The first loop of \<open>Apply\<close>: decodes every payload, stopping at the first that is not an object.\<close>

fun decode_streams :: "jvalue gomap gomap \<Rightarrow> bytes gomap \<Rightarrow> jvalue gomap gomap result" where
  "decode_streams streamDecoded [] = Inr streamDecoded"
| "decode_streams streamDecoded ((streamID, raw) # rest) =
     (case json_Unmarshal_map raw of
        Inl err \<Rightarrow> Inl err
      | Inr m \<Rightarrow> decode_streams (gm_set streamID m streamDecoded) rest)"

text \<open>The second loop: fields whose stream or source field is missing are skipped.\<close>

fun project_fields ::
  "jvalue gomap gomap \<Rightarrow> jvalue gomap \<Rightarrow> projection_field list \<Rightarrow> jvalue gomap"
where
  "project_fields streamDecoded out [] = out"
| "project_fields streamDecoded out (p # ps) =
     (case gm_get streamDecoded (pfStream p) of
        None \<Rightarrow> project_fields streamDecoded out ps
      | Some streamData \<Rightarrow>
          (case gm_get streamData (pfField p) of
             Some v \<Rightarrow> project_fields streamDecoded (gm_set (pfOutput p) v out) ps
           | None \<Rightarrow> project_fields streamDecoded out ps))"

definition projection_Apply :: "bytes gomap \<Rightarrow> projection_field list \<Rightarrow> bytes result" where
  "projection_Apply participantData proj =
     (case decode_streams [] participantData of
        Inl err \<Rightarrow> Inl err
      | Inr streamDecoded \<Rightarrow> json_Marshal_map (project_fields streamDecoded [] proj))"

section \<open>Decoding\<close>

definition decodes :: "bytes \<Rightarrow> bool" where
  "decodes raw \<longleftrightarrow> is_ok (json_Unmarshal_map raw)"

lemma decode_streams_ok_iff:
  "is_ok (decode_streams acc data) \<longleftrightarrow> (\<forall>raw\<in>snd ` set data. decodes raw)"
  by (induction acc data rule: decode_streams.induct) (auto simp: decodes_def split: sum.splits)

lemma decode_streams_get:
  assumes "decode_streams acc data = Inr dec" and "gm_wf data"
  shows "gm_get dec s = (case gm_get data s of
      Some raw \<Rightarrow> (case json_Unmarshal_map raw of Inr m \<Rightarrow> Some m | Inl _ \<Rightarrow> None)
    | None \<Rightarrow> gm_get acc s)"
  using assms
proof (induction acc data arbitrary: dec rule: decode_streams.induct)
  case (1 acc)
  then show ?case by simp
next
  case (2 acc k raw rest)
  from "2.prems"(1) obtain m where m: "json_Unmarshal_map raw = Inr m"
    and d: "decode_streams (gm_set k m acc) rest = Inr dec"
    by (auto split: sum.splits)
  from "2.prems"(2) have "gm_wf rest" "gm_get rest k = None"
    by (auto simp: gm_wf_def map_of_eq_None_iff)
  with "2.IH" [OF m d] m show ?case by (auto simp: gm_get_set split: option.splits)
qed

text \<open>The decoded object of each stream that has arrived, as a function of the payloads.\<close>

definition decoded :: "(string \<rightharpoonup> bytes) \<Rightarrow> string \<rightharpoonup> jvalue gomap" where
  "decoded data s = (case data s of None \<Rightarrow> None
     | Some raw \<Rightarrow> (case json_Unmarshal_map raw of Inr m \<Rightarrow> Some m | Inl _ \<Rightarrow> None))"

lemma decode_streams_decoded:
  assumes "decode_streams [] data = Inr dec" and "gm_wf data"
  shows "gm_get dec = decoded (gm_get data)"
  using decode_streams_get [OF assms] by (auto simp: decoded_def fun_eq_iff split: option.splits)

section \<open>The output document\<close>

text \<open>The value a projection field selects, if its source is there.\<close>

definition field_value :: "(string \<rightharpoonup> jvalue gomap) \<Rightarrow> projection_field \<Rightarrow> jvalue option" where
  "field_value dec p = (case dec (pfStream p) of None \<Rightarrow> None | Some m \<Rightarrow> gm_get m (pfField p))"

text \<open>
  The document of a join, as a function: when several fields write one output, the last one whose
  source is there wins.
\<close>

fun output_of :: "(string \<rightharpoonup> jvalue gomap) \<Rightarrow> projection_field list \<Rightarrow> string \<rightharpoonup> jvalue" where
  "output_of dec [] = Map.empty"
| "output_of dec (p # ps) = (case field_value dec p of
     None \<Rightarrow> output_of dec ps | Some v \<Rightarrow> [pfOutput p \<mapsto> v] ++ output_of dec ps)"

lemma project_fields_get:
  "gm_get (project_fields dec out ps) = gm_get out ++ output_of (gm_get dec) ps"
proof (induction dec out ps rule: project_fields.induct)
  case (1 dec out)
  then show ?case by simp
next
  case (2 dec out p ps)
  have u: "gm_get (gm_set k v out) ++ m = gm_get out ++ ([k \<mapsto> v] ++ m)" for k v m
    by (simp add: update_conv' map_add_upd_left fun_eq_iff map_add_def split: option.split)
  show ?case
  proof (cases "field_value (gm_get dec) p")
    case None
    with 2 show ?thesis by (auto simp: field_value_def split: option.splits)
  next
    case (Some v)
    then obtain m where "gm_get dec (pfStream p) = Some m" "gm_get m (pfField p) = Some v"
      by (auto simp: field_value_def split: option.splits)
    with Some 2(3) show ?thesis by (simp only: project_fields.simps output_of.simps option.case u)
  qed
qed

lemma project_fields_wf: "gm_wf out \<Longrightarrow> gm_wf (project_fields dec out ps)"
  by (induction dec out ps rule: project_fields.induct) (auto intro: gm_wf_set split: option.splits)

lemma output_of_source:
  "output_of dec ps k = Some v \<Longrightarrow> \<exists>p\<in>set ps. pfOutput p = k \<and> field_value dec p = Some v"
  by (induction ps) (auto simp: map_add_def split: option.splits if_splits)

lemma output_of_dom: "dom (output_of dec ps) = {pfOutput p |p. p \<in> set ps \<and> field_value dec p \<noteq> None}"
  by (induction ps) (auto split: option.splits)

text \<open>\<open>doc m\<close> is the text of a document given as a function, whatever list represents it.\<close>

lemma projection_Apply_document:
  assumes "gm_wf data" and "\<forall>raw\<in>snd ` set data. decodes raw"
  obtains out where "projection_Apply data proj = json_Marshal_map out" and "gm_wf out"
    and "gm_get out = output_of (decoded (gm_get data)) proj"
proof -
  from assms(2) obtain dec where d: "decode_streams [] data = Inr dec"
    using decode_streams_ok_iff [of "[]" data] by (auto elim: is_okE)
  show ?thesis
    by (rule that [of "project_fields dec [] proj"])
      (simp_all add: projection_Apply_def d project_fields_wf project_fields_get
        decode_streams_decoded [OF d assms(1)])
qed

lemma projection_Apply_ok_iff:
  "is_ok (projection_Apply data proj) \<longleftrightarrow> (\<forall>raw\<in>snd ` set data. decodes raw)"
  by (cases "decode_streams [] data")
    (use decode_streams_ok_iff [of "[]" data] in
      \<open>auto simp: projection_Apply_def json_Marshal_map_def\<close>)

text \<open>Independence of the iteration order.\<close>

lemma projection_Apply_equiv:
  assumes "gm_equiv data data'" and "is_ok (projection_Apply data proj)"
  shows "projection_Apply data' proj = projection_Apply data proj"
proof -
  from assms have w: "gm_wf data" "gm_wf data'" and s: "set data' = set data"
    and d: "\<forall>raw\<in>snd ` set data. decodes raw"
    using gm_equiv_set_eq projection_Apply_ok_iff by (auto simp: gm_equiv_def)
  obtain out where o: "projection_Apply data proj = json_Marshal_map out" "gm_wf out"
    "gm_get out = output_of (decoded (gm_get data)) proj"
    by (rule projection_Apply_document [OF w(1) d])
  obtain out' where o': "projection_Apply data' proj = json_Marshal_map out'" "gm_wf out'"
    "gm_get out' = output_of (decoded (gm_get data')) proj"
    by (rule projection_Apply_document [OF w(2)]) (use d s in auto)
  have "gm_equiv out' out" using o o' assms(1) by (simp add: gm_equiv_def)
  with json_Marshal_map_equiv o o' show ?thesis by metis
qed

lemma projection_Apply_nonempty: "projection_Apply data proj = Inr b \<Longrightarrow> 2 \<le> length b"
  by (auto simp: projection_Apply_def dest: json_Marshal_map_nonempty split: sum.splits)

end
