(* ===== verification/Go_Sha256.thy ===== *)
theory Go_Sha256
  imports Go_Encoding
begin

unbundle bit_operations_syntax

text \<open>
  \<open>crypto/sha256.Sum256\<close>: the SHA-256 digest of a byte string.  The processor only relies on it being
  a function into 32-byte strings, which is what is proved here.
\<close>

section \<open>Rounds\<close>

type_synonym u32 = "32 word"

text \<open>
  The constants of the algorithm are digits of roots of the first primes: \<open>root_digits k p\<close> holds
  the first 32 bits behind the binary point of the \<open>k\<close>-th root of \<open>p\<close>, found bit by bit.
\<close>

definition int_root :: "nat \<Rightarrow> nat \<Rightarrow> nat" where
  "int_root k n = fold (\<lambda>i r. if (r + 2 ^ i) ^ k \<le> n then r + 2 ^ i else r) (rev [0..<40]) 0"

definition root_digits :: "nat \<Rightarrow> nat \<Rightarrow> u32" where
  "root_digits k p = word_of_nat (int_root k (p * 2 ^ (32 * k)))"

definition sha_primes :: "nat list" where
  "sha_primes = filter (\<lambda>p. \<forall>d\<in>set [2..<p]. p mod d \<noteq> 0) [2..<312]"

text \<open>One digest state: the eight chaining words.\<close>

record sha_state =
  dig_a :: u32  dig_b :: u32  dig_c :: u32  dig_d :: u32
  dig_e :: u32  dig_f :: u32  dig_g :: u32  dig_h :: u32

definition sha_K :: "u32 list" where
  "sha_K = map (root_digits 3) sha_primes"

definition sha_init :: sha_state where
  "sha_init = \<lparr>dig_a = root_digits 2 2, dig_b = root_digits 2 3, dig_c = root_digits 2 5,
    dig_d = root_digits 2 7, dig_e = root_digits 2 11, dig_f = root_digits 2 13,
    dig_g = root_digits 2 17, dig_h = root_digits 2 19\<rparr>"

definition rot_right :: "nat \<Rightarrow> u32 \<Rightarrow> u32" where
  "rot_right n w = drop_bit n w OR push_bit (32 - n) w"

definition sha_round :: "sha_state \<Rightarrow> u32 \<times> u32 \<Rightarrow> sha_state" where
  "sha_round s kw = (let
     mix1 = rot_right 6 (dig_e s) XOR rot_right 11 (dig_e s) XOR rot_right 25 (dig_e s);
     pick = (dig_e s AND dig_f s) XOR (NOT (dig_e s) AND dig_g s);
     t1 = dig_h s + mix1 + pick + fst kw + snd kw;
     mix0 = rot_right 2 (dig_a s) XOR rot_right 13 (dig_a s) XOR rot_right 22 (dig_a s);
     majority = (dig_a s AND dig_b s) XOR (dig_a s AND dig_c s) XOR (dig_b s AND dig_c s)
   in \<lparr>dig_a = t1 + (mix0 + majority), dig_b = dig_a s, dig_c = dig_b s, dig_d = dig_c s,
       dig_e = dig_d s + t1, dig_f = dig_e s, dig_g = dig_f s, dig_h = dig_g s\<rparr>)"

text \<open>The message schedule: \<open>n\<close> more words after the sixteen of the block.\<close>

fun sha_extend :: "nat \<Rightarrow> u32 list \<Rightarrow> u32 list" where
  "sha_extend 0 ws = ws"
| "sha_extend (Suc n) ws = (let
     t = length ws; v1 = ws ! (t - 2); v2 = ws ! (t - 15);
     u1 = rot_right 17 v1 XOR rot_right 19 v1 XOR drop_bit 10 v1;
     u2 = rot_right 7 v2 XOR rot_right 18 v2 XOR drop_bit 3 v2
   in sha_extend n (ws @ [u1 + ws ! (t - 7) + u2 + ws ! (t - 16)]))"

definition sha_add :: "sha_state \<Rightarrow> sha_state \<Rightarrow> sha_state" where
  "sha_add x y = \<lparr>dig_a = dig_a x + dig_a y, dig_b = dig_b x + dig_b y, dig_c = dig_c x + dig_c y, dig_d = dig_d x + dig_d y,
     dig_e = dig_e x + dig_e y, dig_f = dig_f x + dig_f y, dig_g = dig_g x + dig_g y, dig_h = dig_h x + dig_h y\<rparr>"

definition sha_block :: "sha_state \<Rightarrow> u32 list \<Rightarrow> sha_state" where
  "sha_block s ws = sha_add s (foldl sha_round s (zip sha_K (sha_extend 48 ws)))"

section \<open>Padding and output\<close>

fun be_words :: "bytes \<Rightarrow> u32 list" where
  "be_words (a # b # c # d # r) =
     word_of_nat (((of_char a * 256 + of_char b) * 256 + of_char c) * 256 + of_char d) # be_words r"
| "be_words _ = []"

text \<open>\<open>be_bytes n v\<close> is the \<open>n\<close>-byte big-endian form of \<open>v\<close>.\<close>

fun be_bytes :: "nat \<Rightarrow> nat \<Rightarrow> bytes" where
  "be_bytes 0 v = []"
| "be_bytes (Suc n) v = be_bytes n (v div 256) @ [char_of v]"

definition sha_pad :: "bytes \<Rightarrow> bytes" where
  "sha_pad m = m @ CHR 0x80 # replicate ((119 - length m mod 64) mod 64) (CHR 0x00)
     @ be_bytes 8 (8 * length m)"

function sha_blocks :: "sha_state \<Rightarrow> u32 list \<Rightarrow> sha_state" where
  "sha_blocks s ws =
     (if length ws < 16 then s else sha_blocks (sha_block s (take 16 ws)) (drop 16 ws))"
  by pat_completeness auto
termination
  by (relation "measure (\<lambda>(s, ws). length ws)") auto

declare sha_blocks.simps [simp del]

definition sha_words :: "sha_state \<Rightarrow> u32 list" where
  "sha_words s = [dig_a s, dig_b s, dig_c s, dig_d s, dig_e s, dig_f s, dig_g s, dig_h s]"

definition sha256_Sum256 :: "bytes \<Rightarrow> bytes" where
  "sha256_Sum256 m =
     concat (map (\<lambda>w. be_bytes 4 (unat w)) (sha_words (sha_blocks sha_init (be_words (sha_pad m)))))"

lemma be_bytes_length [simp]: "length (be_bytes n v) = n"
  by (induction n arbitrary: v) auto

text \<open>The digest has 32 bytes; the padded message is a whole number of 64-byte blocks.\<close>

lemma sha256_length [simp]: "length (sha256_Sum256 m) = 32"
  by (simp add: sha256_Sum256_def sha_words_def)

lemma sha_pad_blocks: "length (sha_pad m) mod 64 = 0"
proof -
  have *: "(n + ((119 - n mod 64) mod 64 + 9)) mod 64 = 0" for n :: nat
  proof -
    define r where "r = n mod 64"
    have "r < 64" by (simp add: r_def)
    then have p: "(119 - r) mod 64 = (if r \<le> 55 then 55 - r else 119 - r)"
      by (simp add: mod_if)
    have "(n + ((119 - r) mod 64 + 9)) mod 64 = (r + ((119 - r) mod 64 + 9)) mod 64"
      unfolding r_def by (rule mod_add_left_eq [symmetric])
    also have "r + ((119 - r) mod 64 + 9) = (if r \<le> 55 then 64 else 128)"
      unfolding p using \<open>r < 64\<close> by simp
    finally show ?thesis by (simp add: r_def split: if_splits)
  qed
  show ?thesis using * [of "length m"] by (simp add: sha_pad_def add.commute [of 9])
qed

end
