(* ===== verification/Keys.thy ===== *)
theory Keys
  imports Go_Sha256 Go_Json
begin

text \<open>
  \<open>internal/keys/hash.go\<close>: the join key of an event.  A key is a raw string (the single field, or the
  JSON text of the key fields) together with its SHA-256 hash.  The lemmas show that the key of an
  event depends only on the key fields, in whatever order they are listed or iterated.
\<close>

definition HashRaw :: "string \<Rightarrow> bytes" where
  "HashRaw raw = sha256_Sum256 raw"

definition serializeComposite :: "jvalue gomap \<Rightarrow> string" where
  "serializeComposite m =
     (if length m = 0 then ''''
      else (let names = sort (map fst m);
                out = fold (\<lambda>k out. gm_set k (case gm_get m k of Some v \<Rightarrow> v | None \<Rightarrow> JNull) out) names []
            in case json_Marshal_map out of Inl _ \<Rightarrow> '''' | Inr b \<Rightarrow> b))"

text \<open>The result is the pair \<open>(hash, raw)\<close>.\<close>

definition CompositeKey :: "string \<Rightarrow> jvalue gomap \<Rightarrow> bytes \<times> string" where
  "CompositeKey single composite =
     (if single \<noteq> '''' then (HashRaw single, single)
      else (let raw = serializeComposite composite in (HashRaw raw, raw)))"

definition KeyFromFields :: "string list \<Rightarrow> jvalue gomap \<Rightarrow> bytes \<times> string" where
  "KeyFromFields fs vals =
     CompositeKey ''''
       (fold (\<lambda>f m. case gm_get vals f of Some v \<Rightarrow> gm_set f v m | None \<Rightarrow> m) fs [])"

text \<open>
  \<open>hash[:8]\<close> reaches up to the capacity of the slice: \<open>spare\<close> are the bytes of its array beyond its length.  With
  a capacity below eight it panics, which is \<open>None\<close> here.  The remainder is taken on \<open>uint64\<close> and converted
  to \<open>int32\<close>.
\<close>

definition HashToPartition :: "bytes \<Rightarrow> bytes \<Rightarrow> int \<Rightarrow> int option" where
  "HashToPartition hash spare numPartitions =
     (if numPartitions \<le> 0 then Some 0
      else if length (hash @ spare) < 8 then None
      else Some (int32 (int (be_Uint64 (take 8 (hash @ spare))) mod numPartitions)))"

section \<open>Hashes\<close>

lemma HashRaw_length [simp]: "length (HashRaw raw) = 32"
  by (simp add: HashRaw_def)

lemma CompositeKey_hash: "fst (CompositeKey s m) = HashRaw (snd (CompositeKey s m))"
  by (simp add: CompositeKey_def Let_def)

lemma CompositeKey_single: "s \<noteq> '''' \<Longrightarrow> CompositeKey s m = (HashRaw s, s)"
  by (simp add: CompositeKey_def)

section \<open>Composite keys\<close>

text \<open>Copying a map entry by entry gives the same map, in the order of the copy.\<close>

lemma copy_map_wf:
  "gm_wf m \<Longrightarrow> gm_wf (fold (\<lambda>f m. case g f of Some v \<Rightarrow> gm_set f v m | None \<Rightarrow> m) fs m)"
  by (induction fs arbitrary: m) (auto intro: gm_wf_set split: option.splits)

lemma copy_map_get:
  "gm_get (fold (\<lambda>f m. case g f of Some v \<Rightarrow> gm_set f v m | None \<Rightarrow> m) fs m) k =
     (if k \<in> set fs \<and> g k \<noteq> None then g k else gm_get m k)"
  by (induction fs arbitrary: m) (auto simp: gm_get_set split: option.splits)

lemma copy_total: "fold (\<lambda>k out. gm_set k (h k) out) fs m =
    fold (\<lambda>f m. case Some (h f) of Some v \<Rightarrow> gm_set f v m | None \<Rightarrow> m) fs m"
  by simp

lemma serializeComposite_text:
  assumes "gm_wf m" "m \<noteq> []"
  shows "serializeComposite m = json_text (JObj m)"
proof -
  let ?h = "\<lambda>k. case gm_get m k of Some v \<Rightarrow> v | None \<Rightarrow> JNull"
  let ?out = "fold (\<lambda>k out. gm_set k (?h k) out) (sort (map fst m)) []"
  have "gm_wf ?out" unfolding copy_total by (rule copy_map_wf) simp
  moreover have "gm_get ?out k = gm_get m k" for k
    unfolding copy_total copy_map_get
    using map_of_eq_None_iff [of m k] by (cases "gm_get m k") auto
  ultimately have "gm_equiv ?out m" using assms(1) by (simp add: gm_equiv_def fun_eq_iff)
  from json_Marshal_map_equiv [OF this] have "json_text (JObj ?out) = json_text (JObj m)"
    by (simp add: json_Marshal_map_def)
  with assms(2) show ?thesis by (simp add: serializeComposite_def json_Marshal_map_def del: json_text.simps)
qed

lemma serializeComposite_equiv: "gm_equiv m m' \<Longrightarrow> serializeComposite m = serializeComposite m'"
proof -
  assume e: "gm_equiv m m'"
  then have w: "gm_wf m" "gm_wf m'" by (simp_all add: gm_equiv_def)
  show ?thesis
  proof (cases "m = []")
    case True
    then have "m' = []" using gm_equiv_length [OF e] by simp
    with True show ?thesis by simp
  next
    case False
    then have "m' \<noteq> []" using gm_equiv_length [OF e] by auto
    with False w json_Marshal_map_equiv [OF e] show ?thesis
      by (simp add: serializeComposite_text json_Marshal_map_def del: json_text.simps)
  qed
qed

text \<open>The key of an event depends on the set of key fields and on their values, nothing else.\<close>

lemma KeyFromFields_cong:
  assumes "set fs = set fs'" and "\<And>f. f \<in> set fs \<Longrightarrow> gm_get m f = gm_get m' f"
  shows "KeyFromFields fs m = KeyFromFields fs' m'"
proof -
  let ?c = "\<lambda>fs m. fold (\<lambda>f c. case gm_get m f of Some v \<Rightarrow> gm_set f v c | None \<Rightarrow> c) fs []"
  have "gm_equiv (?c fs m) (?c fs' m')"
    using assms by (auto simp: gm_equiv_def copy_map_wf copy_map_get fun_eq_iff)
  then show ?thesis
    by (simp add: KeyFromFields_def CompositeKey_def serializeComposite_equiv)
qed

text \<open>An event with none of the key fields has the empty raw key.\<close>

lemma KeyFromFields_missing:
  assumes "\<And>f. f \<in> set fs \<Longrightarrow> gm_get m f = None"
  shows "KeyFromFields fs m = (HashRaw '''', '''')"
proof -
  have id: "fold (\<lambda>f c. c) gs c = c" for gs :: "string list" and c :: "jvalue gomap"
    by (induction gs) simp_all
  have "KeyFromFields fs m = KeyFromFields fs []"
    by (rule KeyFromFields_cong) (simp_all add: assms)
  also have "KeyFromFields fs [] = (HashRaw '''', '''')"
    by (simp add: KeyFromFields_def CompositeKey_def serializeComposite_def id)
  finally show ?thesis .
qed

section \<open>Partitions\<close>

text \<open>A hash of eight bytes or more has a partition in range, whatever lies beyond it.\<close>

lemma HashToPartition_range:
  assumes "0 < n" "n \<le> 2 ^ 31" "8 \<le> length h"
  shows "\<exists>p. HashToPartition h spare n = Some p \<and> 0 \<le> p \<and> p < n \<and> HashToPartition h [] n = Some p"
proof -
  have r: "0 \<le> int (be_Uint64 (take 8 h)) mod n" "int (be_Uint64 (take 8 h)) mod n < n" using assms(1) by simp_all
  then have "int32 (int (be_Uint64 (take 8 h)) mod n) = int (be_Uint64 (take 8 h)) mod n"
    using assms(2) by (intro int32_id) linarith+
  with r assms show ?thesis by (simp add: HashToPartition_def)
qed

end
