(* ===== verification/World.thy ===== *)
theory World
  imports Config Keys
begin

text \<open>
  The state the processor runs in, and the services it calls.  The code of the services (the gocql
  session, the Redis client, the franz-go client, the uuid package) is not part of the repository:
  their operations are the fields of the record \<open>ext\<close>, arguments of every definition that calls them,
  and their states are the type variables \<open>'c\<close> (ScyllaDB), \<open>'r\<close> (Redis) and \<open>'k\<close> (Kafka).  What the code
  relies on is stated in the locales \<open>scylla\<close>, \<open>redis_server\<close> and \<open>kafka_broker\<close>.
\<close>

section \<open>Time, metrics, log\<close>

text \<open>A \<open>time.Time\<close> is its nanoseconds since the Unix epoch.\<close>

type_synonym time = int

definition time_Unix :: "time \<Rightarrow> int" where
  "time_Unix t = t div ns_second"

definition time_UnixNano :: "time \<Rightarrow> int" where
  "time_UnixNano t = int64 t"

text \<open>\<open>t.Sub(u)\<close> saturates at the ends of \<open>Duration\<close>.\<close>

definition time_Sub :: "time \<Rightarrow> time \<Rightarrow> duration" where
  "time_Sub t u = max (- (2 ^ 63)) (min (2 ^ 63 - 1) (t - u))"

text \<open>
  A line written by a logger.  The arguments of a log call are alternating keys and values;
  \<open>KSprint v\<close> stands for the text \<open>fmt.Sprintf("%v", v)\<close>, and \<open>KList\<close> is a slice passed as one value.
\<close>

datatype keyval =
    KStr string | KInt int | KErr go_error | KBytes "bytes option" | KDuration int
  | KSprint keyval | KList "keyval list"

datatype log_line =
    LogText time string string "(keyval \<times> keyval) list"
  | LogJSON "(keyval \<times> keyval) list"

text \<open>One call on a metric of \<open>internal/metrics/metrics.go\<close>: an \<open>Inc\<close> of a counter or an \<open>Observe\<close> of a
  histogram (the observed duration in nanoseconds), with the label values in the order declared.\<close>

datatype metric_name =
    JoinSuccessTotal | JoinLatencySeconds | StateAgeSeconds | EventsProcessedTotal
  | HandleErrorsTotal | CommitErrorsTotal | EgressFailuresTotal

datatype metric_call = Inc metric_name "string list" | Observe metric_name "string list" int

section \<open>Values of the services\<close>

text \<open>CQL values, and statements with their bound arguments; a table is (keyspace, name).\<close>

type_synonym table = "string \<times> string"

datatype cql_value = CText string | CBlob bytes | CUuid uuid | CBool bool

datatype cql_assign =
    SetCol string cql_value
  | SetBlobAt string string bytes
  | SetTimeAt string string time

datatype cql =
    CqlUpdate table "cql_assign list" "(string \<times> cql_value) list"
  | CqlDelete table "(string \<times> cql_value) list"
  | CqlSelect "string list" table "(string \<times> cql_value) list"

datatype cell = CNull | CVal cql_value | CBlobMap "bytes gomap" | CTimeMap "time gomap"

text \<open>Kafka records as franz-go gives them; a nil key or value is \<open>None\<close>.\<close>

record kgo_record =
  krTopic :: string
  krPartition :: int
  krOffset :: int
  krKey :: "bytes option"
  krValue :: "bytes option"
  krHeaders :: "(string \<times> bytes) list"

text \<open>What one \<open>PollFetches\<close> returns: fetch errors, and the records by partition.\<close>

record fetches =
  fErrors :: "go_error option list"
  fPartitions :: "kgo_record list list"

datatype kgo_opt =
    SeedBrokers "string list" | ConsumerGroup string | ConsumeTopics string
  | DisableAutoCommit | BlockRebalanceOnPoll

section \<open>The operations of the services\<close>

text \<open>
  What the code sets of a \<open>gocql.ClusterConfig\<close>; where it does not set the consistency to \<open>LocalQuorum\<close>, the
  consistency is that of \<open>gocql.NewCluster\<close>.
\<close>

record cluster_config =
  clHosts :: "string list"
  clKeyspace :: string
  clLocalQuorum :: bool
  clTimeout :: duration
  clProtoVersion :: int
  clDisableInitialHostLookup :: bool

text \<open>
  \<open>cql_create_session\<close> opens a session of a cluster configuration; the text statements of
  \<open>cql_exec_text\<close>, and \<open>cql_close\<close>, name the session by its keyspace, as no two of one keyspace are open at a
  time.  \<open>tz_offset\<close> is the local offset from UTC in seconds.
\<close>

record ('c, 'r, 'k) ext =
  cql_exec :: "cql \<Rightarrow> 'c \<Rightarrow> go_error option \<times> 'c"
  cql_scan :: "cql \<Rightarrow> 'c \<Rightarrow> cell list result \<times> 'c"
  bf_exists :: "string \<Rightarrow> string \<Rightarrow> 'r \<Rightarrow> bool result \<times> 'r"
  bf_add :: "string \<Rightarrow> string \<Rightarrow> 'r \<Rightarrow> go_error option \<times> 'r"
  bf_reserve :: "string \<Rightarrow> f64 \<Rightarrow> nat \<Rightarrow> 'r \<Rightarrow> go_error option \<times> 'r"
  set_add :: "string \<Rightarrow> string \<Rightarrow> 'r \<Rightarrow> go_error option \<times> 'r"
  set_rem :: "string \<Rightarrow> string \<Rightarrow> 'r \<Rightarrow> go_error option \<times> 'r"
  set_ismember :: "string \<Rightarrow> string \<Rightarrow> 'r \<Rightarrow> bool result \<times> 'r"
  z_add :: "string \<Rightarrow> f64 \<Rightarrow> string \<Rightarrow> 'r \<Rightarrow> go_error option \<times> 'r"
  z_rem :: "string \<Rightarrow> string \<Rightarrow> 'r \<Rightarrow> go_error option \<times> 'r"
  z_range_by_score :: "string \<Rightarrow> string \<Rightarrow> string \<Rightarrow> int \<Rightarrow> 'r \<Rightarrow> string list result \<times> 'r"
  kgo_produce :: "string \<Rightarrow> bytes option \<Rightarrow> bytes \<Rightarrow> 'k \<Rightarrow> go_error option \<times> 'k"
  kgo_commit :: "kgo_record \<Rightarrow> 'k \<Rightarrow> go_error option \<times> 'k"
  kgo_poll :: "'k \<Rightarrow> fetches \<times> 'k"
  kgo_allow_rebalance :: "'k \<Rightarrow> 'k"
  uuid_Parse :: "string \<Rightarrow> uuid result"
  uuid_FromBytes :: "bytes \<Rightarrow> uuid result"
  cql_create_session :: "cluster_config \<Rightarrow> 'c \<Rightarrow> go_error option \<times> 'c"
  cql_exec_text :: "string \<Rightarrow> string \<Rightarrow> 'c \<Rightarrow> go_error option \<times> 'c"
  cql_close :: "string \<Rightarrow> 'c \<Rightarrow> 'c"
  cql_ping :: "'c \<Rightarrow> go_error option \<times> 'c"
  redis_ping :: "'r \<Rightarrow> go_error option \<times> 'r"
  kgo_ping :: "'k \<Rightarrow> go_error option \<times> 'k"
  kgo_new_client :: "kgo_opt list \<Rightarrow> 'k \<Rightarrow> go_error option \<times> 'k"
  kgo_close :: "'k \<Rightarrow> 'k"
  redis_close :: "'r \<Rightarrow> 'r"
  os_ReadFile :: "string \<Rightarrow> bytes result"
  tz_offset :: "time \<Rightarrow> int"

section \<open>The world\<close>

text \<open>One item of the delay queue's in-memory list (\<open>delay.pending\<close>).\<close>

record pending =
  pdKeyHash :: bytes
  pdJoined :: bytes
  pdMsgKey :: "bytes option"
  pdPublishAt :: time

text \<open>
  \<open>wClock\<close> gives the successive readings of the clock and \<open>wCancel\<close> whether the context is cancelled at
  a reading; \<open>wTick\<close> counts the readings.  \<open>wPending\<close> holds the memory of the delay queues, by the
  identity of the queue object.  Metric and log calls are recorded newest first.
\<close>

record ('c, 'r, 'k) world =
  wCql :: 'c
  wRedis :: 'r
  wKafka :: 'k
  wClock :: "nat \<Rightarrow> time"
  wCancel :: "nat \<Rightarrow> bool"
  wTick :: nat
  wPending :: "nat \<Rightarrow> pending list"
  wMetrics :: "metric_call list"
  wLog :: "log_line list"

definition time_Now :: "('c, 'r, 'k) world \<Rightarrow> time \<times> ('c, 'r, 'k) world" where
  "time_Now w = (wClock w (wTick w), w\<lparr>wTick := Suc (wTick w)\<rparr>)"

definition ctx_Canceled :: go_error where
  "ctx_Canceled = ErrSentinel ''context canceled''"

text \<open>\<open>ctx.Err()\<close>, or which branch a \<open>select\<close> on \<open>ctx.Done()\<close> takes.\<close>

definition ctx_Err :: "('c, 'r, 'k) world \<Rightarrow> go_error option \<times> ('c, 'r, 'k) world" where
  "ctx_Err w = (if wCancel w (wTick w) then Some ctx_Canceled else None, w\<lparr>wTick := Suc (wTick w)\<rparr>)"

definition metric :: "metric_call \<Rightarrow> ('c, 'r, 'k) world \<Rightarrow> ('c, 'r, 'k) world" where
  "metric m w = w\<lparr>wMetrics := m # wMetrics w\<rparr>"

text \<open>Calls on one service change that service's state only.\<close>

definition on_cql :: "('c \<Rightarrow> 'a \<times> 'c) \<Rightarrow> ('c, 'r, 'k) world \<Rightarrow> 'a \<times> ('c, 'r, 'k) world" where
  "on_cql f w = (let (a, c) = f (wCql w) in (a, w\<lparr>wCql := c\<rparr>))"

definition on_redis :: "('r \<Rightarrow> 'a \<times> 'r) \<Rightarrow> ('c, 'r, 'k) world \<Rightarrow> 'a \<times> ('c, 'r, 'k) world" where
  "on_redis f w = (let (a, r) = f (wRedis w) in (a, w\<lparr>wRedis := r\<rparr>))"

definition on_kafka :: "('k \<Rightarrow> 'a \<times> 'k) \<Rightarrow> ('c, 'r, 'k) world \<Rightarrow> 'a \<times> ('c, 'r, 'k) world" where
  "on_kafka f w = (let (a, k) = f (wKafka w) in (a, w\<lparr>wKafka := k\<rparr>))"

lemma on_cql_simps [world_simps]:
  "fst (on_cql f w) = fst (f (wCql w))"
  "snd (on_cql f w) = w\<lparr>wCql := snd (f (wCql w))\<rparr>"
  by (simp_all add: on_cql_def split: prod.split)

lemma on_redis_simps [world_simps]:
  "fst (on_redis f w) = fst (f (wRedis w))"
  "snd (on_redis f w) = w\<lparr>wRedis := snd (f (wRedis w))\<rparr>"
  by (simp_all add: on_redis_def split: prod.split)

lemma on_kafka_simps [world_simps]:
  "fst (on_kafka f w) = fst (f (wKafka w))"
  "snd (on_kafka f w) = w\<lparr>wKafka := snd (f (wKafka w))\<rparr>"
  by (simp_all add: on_kafka_def split: prod.split)

lemma metric_simps [world_simps, simp]:
  "wCql (metric m w) = wCql w" "wRedis (metric m w) = wRedis w" "wKafka (metric m w) = wKafka w"
  "wClock (metric m w) = wClock w" "wCancel (metric m w) = wCancel w" "wTick (metric m w) = wTick w"
  "wPending (metric m w) = wPending w" "wMetrics (metric m w) = m # wMetrics w"
  "wLog (metric m w) = wLog w"
  by (simp_all add: metric_def)

text \<open>Frames: which fields of the world may have changed.\<close>

definition redis_only :: "('c, 'r, 'k) world \<Rightarrow> ('c, 'r, 'k) world \<Rightarrow> bool" where
  "redis_only w w' \<longleftrightarrow> wCql w' = wCql w \<and> wKafka w' = wKafka w \<and> wClock w' = wClock w
     \<and> wCancel w' = wCancel w \<and> wTick w' = wTick w \<and> wPending w' = wPending w
     \<and> wMetrics w' = wMetrics w \<and> wLog w' = wLog w"

definition kafka_only :: "('c, 'r, 'k) world \<Rightarrow> ('c, 'r, 'k) world \<Rightarrow> bool" where
  "kafka_only w w' \<longleftrightarrow> wCql w' = wCql w \<and> wRedis w' = wRedis w \<and> wClock w' = wClock w
     \<and> wCancel w' = wCancel w \<and> wTick w' = wTick w \<and> wPending w' = wPending w
     \<and> wMetrics w' = wMetrics w \<and> wLog w' = wLog w"

text \<open>\<open>services_same w w'\<close>: no service has changed, and the clock is the same.\<close>

definition services_same :: "('c, 'r, 'k) world \<Rightarrow> ('c, 'r, 'k) world \<Rightarrow> bool" where
  "services_same w w' \<longleftrightarrow> wCql w' = wCql w \<and> wRedis w' = wRedis w \<and> wKafka w' = wKafka w
     \<and> wClock w' = wClock w \<and> wCancel w' = wCancel w \<and> wPending w' = wPending w"

lemma redis_only_on_redis: "on_redis f w = (a, w') \<Longrightarrow> redis_only w w'"
  by (auto simp: on_redis_def redis_only_def split: prod.splits)

lemma kafka_only_on_kafka: "on_kafka f w = (a, w') \<Longrightarrow> kafka_only w w'"
  by (auto simp: on_kafka_def kafka_only_def split: prod.splits)

lemma services_same_refl [simp]: "services_same w w"
  by (simp add: services_same_def)

lemma services_same_trans: "services_same u v \<Longrightarrow> services_same v w \<Longrightarrow> services_same u w"
  by (simp add: services_same_def)

section \<open>What the services promise\<close>

subsection \<open>ScyllaDB\<close>

text \<open>A row as a function of its columns, with maps as functions of their keys.\<close>

datatype vcell = VNull | VVal cql_value | VBlobs "string \<rightharpoonup> bytes" | VTimes "string \<rightharpoonup> time"

type_synonym row = "string \<Rightarrow> vcell"
type_synonym cql_db = "table \<Rightarrow> cql_value list \<Rightarrow> row option"

definition v_blobs :: "vcell \<Rightarrow> string \<rightharpoonup> bytes" where
  "v_blobs v = (case v of VBlobs m \<Rightarrow> m | _ \<Rightarrow> Map.empty)"

definition v_times :: "vcell \<Rightarrow> string \<rightharpoonup> time" where
  "v_times v = (case v of VTimes m \<Rightarrow> m | _ \<Rightarrow> Map.empty)"

definition v_text :: "vcell \<Rightarrow> string" where
  "v_text v = (case v of VVal (CText s) \<Rightarrow> s | _ \<Rightarrow> [])"

text \<open>A CQL timestamp counts milliseconds; the driver drops the rest.\<close>

definition cql_millis :: "time \<Rightarrow> time" where
  "cql_millis t = t div 1000000 * 1000000"

fun assign_row :: "cql_assign \<Rightarrow> row \<Rightarrow> row" where
  "assign_row (SetCol c v) r = r(c := VVal v)"
| "assign_row (SetBlobAt c k v) r = r(c := VBlobs ((v_blobs (r c))(k \<mapsto> v)))"
| "assign_row (SetTimeAt c k t) r = r(c := VTimes ((v_times (r c))(k \<mapsto> cql_millis t)))"

text \<open>
  \<open>UPDATE\<close> is an upsert: a missing row is created.  Assigning \<open>m[k] = v\<close> sets that entry of the map
  column and leaves the others.  \<open>DELETE\<close> removes the row.
\<close>

definition cql_effect :: "cql \<Rightarrow> cql_db \<Rightarrow> cql_db" where
  "cql_effect q db = (case q of
      CqlUpdate t sets wh \<Rightarrow>
        db(t := (db t)(map snd wh \<mapsto>
          fold assign_row sets (case db t (map snd wh) of Some r \<Rightarrow> r | None \<Rightarrow> (\<lambda>_. VNull))))
    | CqlDelete t wh \<Rightarrow> db(t := (db t)(map snd wh := None))
    | CqlSelect cols t wh \<Rightarrow> db)"

text \<open>A cell read by the driver shows a cell of the row; the order of a map is the driver's.\<close>

definition cell_shows :: "cell \<Rightarrow> vcell \<Rightarrow> bool" where
  "cell_shows c v = (case v of
      VNull \<Rightarrow> c = CNull
    | VVal x \<Rightarrow> c = CVal x
    | VBlobs m \<Rightarrow> (\<exists>kvs. c = CBlobMap kvs \<and> gm_wf kvs \<and> map_of kvs = m)
    | VTimes m \<Rightarrow> (\<exists>kvs. c = CTimeMap kvs \<and> gm_wf kvs \<and> map_of kvs = m))"

definition row_cell :: "(string \<times> cql_value) list \<Rightarrow> row \<Rightarrow> string \<Rightarrow> vcell" where
  "row_cell wh r c = (case map_of wh c of Some v \<Rightarrow> VVal v | None \<Rightarrow> r c)"

definition gocql_ErrNotFound :: go_error where
  "gocql_ErrNotFound = ErrSentinel ''not found''"

text \<open>
  A statement that succeeds has its effect; one that fails (a timeout, say) may or may not have had
  it.  Rows expire between calls by their time to live; no call is described across an expiry.
\<close>

locale scylla =
  fixes X :: "('c, 'r, 'k) ext"
    and rows :: "'c \<Rightarrow> cql_db"
  assumes exec_ok: "cql_exec X q c = (None, c') \<Longrightarrow> rows c' = cql_effect q (rows c)"
    and exec_err: "cql_exec X q c = (Some e, c') \<Longrightarrow>
      rows c' = rows c \<or> rows c' = cql_effect q (rows c)"
    and scan_frame: "cql_scan X q c = (res, c') \<Longrightarrow> rows c' = rows c"
    and scan_ok: "cql_scan X (CqlSelect cols t wh) c = (Inr cells, c') \<Longrightarrow>
      \<exists>r. rows c t (map snd wh) = Some r \<and> list_all2 cell_shows cells (map (row_cell wh r) cols)"
    and scan_not_found: "cql_scan X (CqlSelect cols t wh) c = (Inl e, c') \<Longrightarrow>
      errors_Is e gocql_ErrNotFound \<Longrightarrow> rows c t (map snd wh) = None"

subsection \<open>Redis\<close>

datatype redis_value =
    RNone
  | RBloom "string set"
  | RSet "string set"
  | RZSet "string \<rightharpoonup> f64"

definition r_bloom :: "redis_value \<Rightarrow> string set" where
  "r_bloom v = (case v of RBloom s \<Rightarrow> s | _ \<Rightarrow> {})"

definition r_set :: "redis_value \<Rightarrow> string set" where
  "r_set v = (case v of RSet s \<Rightarrow> s | _ \<Rightarrow> {})"

definition r_zset :: "redis_value \<Rightarrow> string \<rightharpoonup> f64" where
  "r_zset v = (case v of RZSet m \<Rightarrow> m | _ \<Rightarrow> Map.empty)"

text \<open>Scores up to an integer bound written in decimal, which the server reads as a double.\<close>

definition score_le :: "f64 \<Rightarrow> int \<Rightarrow> bool" where
  "score_le x n \<longleftrightarrow> (case f64_of_int n of Some y \<Rightarrow> f64_units x \<le> f64_units y | None \<Rightarrow> n > 0)"

text \<open>
  An operation that succeeds has its effect on the value at its key and leaves the other keys; one
  that fails may or may not have had it.  \<open>RBloom S\<close> is a Bloom filter that answers yes for \<open>S\<close>: adding an
  item makes it answer yes for that item, perhaps for others too, and never takes an answer back.
\<close>

locale redis_server =
  fixes X :: "('c, 'r, 'k) ext"
    and db :: "'r \<Rightarrow> string \<Rightarrow> redis_value"
  assumes bf_exists_frame: "bf_exists X key item r = (br, r') \<Longrightarrow> db r' = db r"
    and bf_exists_ok: "bf_exists X key item r = (Inr b, r') \<Longrightarrow> b = (item \<in> r_bloom (db r key))"
    and bf_add_ok: "bf_add X key item r = (None, r') \<Longrightarrow>
      \<exists>S. insert item (r_bloom (db r key)) \<subseteq> S \<and> db r' = (db r)(key := RBloom S)"
    and bf_add_err: "bf_add X key item r = (Some e, r') \<Longrightarrow>
      db r' = db r \<or> (\<exists>S. r_bloom (db r key) \<subseteq> S \<and> db r' = (db r)(key := RBloom S))"
    and set_add_ok: "set_add X key m r = (None, r') \<Longrightarrow>
      db r' = (db r)(key := RSet (insert m (r_set (db r key))))"
    and set_add_err: "set_add X key m r = (Some e, r') \<Longrightarrow>
      db r' = db r \<or> db r' = (db r)(key := RSet (insert m (r_set (db r key))))"
    and set_rem_ok: "set_rem X key m r = (None, r') \<Longrightarrow>
      db r' = (db r)(key := RSet (r_set (db r key) - {m}))"
    and set_rem_err: "set_rem X key m r = (Some e, r') \<Longrightarrow>
      db r' = db r \<or> db r' = (db r)(key := RSet (r_set (db r key) - {m}))"
    and set_ismember_frame: "set_ismember X key m r = (br, r') \<Longrightarrow> db r' = db r"
    and set_ismember_ok: "set_ismember X key m r = (Inr b, r') \<Longrightarrow> b = (m \<in> r_set (db r key))"
    and z_add_ok: "z_add X key s m r = (None, r') \<Longrightarrow>
      db r' = (db r)(key := RZSet ((r_zset (db r key))(m \<mapsto> s)))"
    and z_add_err: "z_add X key s m r = (Some e, r') \<Longrightarrow>
      db r' = db r \<or> db r' = (db r)(key := RZSet ((r_zset (db r key))(m \<mapsto> s)))"
    and z_rem_ok: "z_rem X key m r = (None, r') \<Longrightarrow>
      db r' = (db r)(key := RZSet ((r_zset (db r key))(m := None)))"
    and z_rem_err: "z_rem X key m r = (Some e, r') \<Longrightarrow>
      db r' = db r \<or> db r' = (db r)(key := RZSet ((r_zset (db r key))(m := None)))"
    and z_range_frame: "z_range_by_score X key lo up n r = (res, r') \<Longrightarrow> db r' = db r"
    and z_range_ok: "z_range_by_score X key ''-inf'' (int_string hi) n r = (Inr ms, r') \<Longrightarrow>
      0 < n \<Longrightarrow> distinct ms \<and> int (length ms) \<le> n
        \<and> (\<forall>m\<in>set ms. \<exists>s. r_zset (db r key) m = Some s \<and> score_le s hi)
        \<and> (int (length ms) < n \<longrightarrow>
             (\<forall>m s. r_zset (db r key) m = Some s \<and> score_le s hi \<longrightarrow> m \<in> set ms))"

subsection \<open>Kafka\<close>

text \<open>\<open>sent\<close> is the sequence of messages acknowledged or accepted by the broker.\<close>

locale kafka_broker =
  fixes X :: "('c, 'r, 'k) ext"
    and sent :: "'k \<Rightarrow> (string \<times> bytes option \<times> bytes) list"
  assumes produce_ok: "kgo_produce X topic key v k = (None, k') \<Longrightarrow> sent k' = sent k @ [(topic, key, v)]"
    and produce_err: "kgo_produce X topic key v k = (Some e, k') \<Longrightarrow>
      sent k' = sent k \<or> sent k' = sent k @ [(topic, key, v)]"

end
