(* ===== verification/Store.thy ===== *)
theory Store
  imports World
begin

text \<open>
  \<open>internal/store/scylla.go\<close>: the join state of a key, kept as one row of \<open>join_state\<close> (one join
  configuration) or of \<open>join_state_v2\<close> (several, the row key then starts with the configuration).
  \<open>state_store\<close> is the Go interface \<open>StateStore\<close>, a record of its methods; the locale \<open>state_store_laws\<close>
  is its contract, which both implementations meet.
\<close>

section \<open>Types\<close>

record join_state =
  JoinKeyHash :: bytes
  JoinKeyRaw :: string
  jsConfigID :: uuid
  ParticipantData :: "bytes gomap"
  ArrivalTimestamps :: "time gomap"
  IsCompleted :: bool

record store_config =
  stHosts :: "string list"
  stKeyspace :: string
  stTimeout :: duration

record store =
  stCfg :: store_config

record 'w state_store =
  ssGetState :: "bytes \<Rightarrow> 'w \<Rightarrow> join_state option result \<times> 'w"
  ssUpsertParticipant ::
    "bytes \<Rightarrow> string \<Rightarrow> uuid \<Rightarrow> string \<Rightarrow> bytes \<Rightarrow> 'w \<Rightarrow> join_state option result \<times> 'w"
  ssUpsertParticipantOnly ::
    "bytes \<Rightarrow> string \<Rightarrow> uuid \<Rightarrow> string \<Rightarrow> bytes \<Rightarrow> 'w \<Rightarrow> go_error option \<times> 'w"
  ssDeleteState :: "bytes \<Rightarrow> 'w \<Rightarrow> go_error option \<times> 'w"

text \<open>The defaults \<open>New\<close> and \<open>EnsureKeyspaceAndTable\<close> fill in before they connect.\<close>

definition store_defaults :: "store_config \<Rightarrow> store_config" where
  "store_defaults cfg =
     (let cfg1 = (if stKeyspace cfg = '''' then cfg\<lparr>stKeyspace := ''omni_joiner''\<rparr> else cfg)
      in if stTimeout cfg1 = 0 then cfg1\<lparr>stTimeout := 5 * ns_second\<rparr> else cfg1)"

section \<open>Reading a row\<close>

text \<open>\<open>Scan\<close> into a typed variable: a null leaves the zero value, and a nil map becomes an empty one.\<close>

definition scan_blob :: "cell \<Rightarrow> bytes" where
  "scan_blob c = (case c of CVal (CBlob b) \<Rightarrow> b | _ \<Rightarrow> [])"

definition scan_text :: "cell \<Rightarrow> string" where
  "scan_text c = (case c of CVal (CText s) \<Rightarrow> s | _ \<Rightarrow> [])"

definition scan_uuid :: "cell \<Rightarrow> uuid" where
  "scan_uuid c = (case c of CVal (CUuid u) \<Rightarrow> u | _ \<Rightarrow> uuid_Nil)"

definition scan_bool :: "cell \<Rightarrow> bool" where
  "scan_bool c = (case c of CVal (CBool b) \<Rightarrow> b | _ \<Rightarrow> False)"

definition scan_blob_map :: "cell \<Rightarrow> bytes gomap" where
  "scan_blob_map c = (case c of CBlobMap m \<Rightarrow> m | _ \<Rightarrow> [])"

definition scan_time_map :: "cell \<Rightarrow> time gomap" where
  "scan_time_map c = (case c of CTimeMap m \<Rightarrow> m | _ \<Rightarrow> [])"

definition state_columns :: "string list" where
  "state_columns = [''join_key_hash'', ''join_key_raw'', ''config_id'', ''participant_data'',
     ''arrival_timestamps'', ''is_completed'']"

definition scan_columns_error :: go_error where
  "scan_columns_error = ErrFmt ''gocql: not enough columns to scan into'' []"

section \<open>Store: the table join_state\<close>

definition Store_GetState ::
  "('c, 'r, 'k) ext \<Rightarrow> store \<Rightarrow> bytes \<Rightarrow> ('c, 'r, 'k) world \<Rightarrow> join_state option result \<times> ('c, 'r, 'k) world"
where
  "Store_GetState X s joinKeyHash w =
     (let (r, w1) = on_cql (cql_scan X (CqlSelect state_columns (stKeyspace (stCfg s), ''join_state'')
            [(''join_key_hash'', CBlob joinKeyHash)])) w
      in case r of
           Inl err \<Rightarrow> if errors_Is err gocql_ErrNotFound then (Inr None, w1)
             else (Inl (ErrWrap ''get state: %w'' [] err), w1)
         | Inr [hash, raw, gid, partData, arrivalTS, completed] \<Rightarrow>
             (Inr (Some \<lparr>JoinKeyHash = scan_blob hash, JoinKeyRaw = scan_text raw,
                jsConfigID = (case uuid_FromBytes X (scan_uuid gid) of Inr u \<Rightarrow> u | Inl _ \<Rightarrow> uuid_Nil),
                ParticipantData = scan_blob_map partData,
                ArrivalTimestamps = scan_time_map arrivalTS,
                IsCompleted = scan_bool completed\<rparr>), w1)
         | Inr _ \<Rightarrow> (Inl (ErrWrap ''get state: %w'' [] scan_columns_error), w1))"

definition upsert_statement :: "store \<Rightarrow> bytes \<Rightarrow> string \<Rightarrow> uuid \<Rightarrow> string \<Rightarrow> bytes \<Rightarrow> time \<Rightarrow> cql" where
  "upsert_statement s joinKeyHash joinKeyRaw configID streamID payload now =
     CqlUpdate (stKeyspace (stCfg s), ''join_state'')
       [SetCol ''join_key_raw'' (CText joinKeyRaw), SetCol ''config_id'' (CUuid configID),
        SetBlobAt ''participant_data'' streamID payload, SetTimeAt ''arrival_timestamps'' streamID now]
       [(''join_key_hash'', CBlob joinKeyHash)]"

definition Store_UpsertParticipant ::
  "('c, 'r, 'k) ext \<Rightarrow> store \<Rightarrow> bytes \<Rightarrow> string \<Rightarrow> uuid \<Rightarrow> string \<Rightarrow> bytes \<Rightarrow>
   ('c, 'r, 'k) world \<Rightarrow> join_state option result \<times> ('c, 'r, 'k) world"
where
  "Store_UpsertParticipant X s joinKeyHash joinKeyRaw configID streamID payload w =
     (let (now, w1) = time_Now w;
          (err, w2) = on_cql (cql_exec X
            (upsert_statement s joinKeyHash joinKeyRaw configID streamID payload now)) w1
      in case err of
           Some e \<Rightarrow> (Inl (ErrWrap ''upsert participant: %w'' [] e), w2)
         | None \<Rightarrow> Store_GetState X s joinKeyHash w2)"

definition Store_UpsertParticipantOnly ::
  "('c, 'r, 'k) ext \<Rightarrow> store \<Rightarrow> bytes \<Rightarrow> string \<Rightarrow> uuid \<Rightarrow> string \<Rightarrow> bytes \<Rightarrow>
   ('c, 'r, 'k) world \<Rightarrow> go_error option \<times> ('c, 'r, 'k) world"
where
  "Store_UpsertParticipantOnly X s joinKeyHash joinKeyRaw configID streamID payload w =
     (let (now, w1) = time_Now w
      in on_cql (cql_exec X
           (upsert_statement s joinKeyHash joinKeyRaw configID streamID payload now)) w1)"

definition Store_DeleteState ::
  "('c, 'r, 'k) ext \<Rightarrow> store \<Rightarrow> bytes \<Rightarrow> ('c, 'r, 'k) world \<Rightarrow> go_error option \<times> ('c, 'r, 'k) world"
where
  "Store_DeleteState X s joinKeyHash w =
     on_cql (cql_exec X (CqlDelete (stKeyspace (stCfg s), ''join_state'')
       [(''join_key_hash'', CBlob joinKeyHash)])) w"

section \<open>Store: the table join_state_v2\<close>

definition v2_key :: "uuid \<Rightarrow> bytes \<Rightarrow> (string \<times> cql_value) list" where
  "v2_key configID joinKeyHash = [(''config_id'', CUuid configID), (''join_key_hash'', CBlob joinKeyHash)]"

definition Store_GetStateV2 ::
  "('c, 'r, 'k) ext \<Rightarrow> store \<Rightarrow> uuid \<Rightarrow> bytes \<Rightarrow> ('c, 'r, 'k) world \<Rightarrow>
   join_state option result \<times> ('c, 'r, 'k) world"
where
  "Store_GetStateV2 X s configID joinKeyHash w =
     (let (r, w1) = on_cql (cql_scan X (CqlSelect state_columns
            (stKeyspace (stCfg s), ''join_state_v2'') (v2_key configID joinKeyHash))) w
      in case r of
           Inl err \<Rightarrow> if errors_Is err gocql_ErrNotFound then (Inr None, w1)
             else (Inl (ErrWrap ''get state v2: %w'' [] err), w1)
         | Inr [hash, raw, gid, partData, arrivalTS, completed] \<Rightarrow>
             (Inr (Some \<lparr>JoinKeyHash = scan_blob hash, JoinKeyRaw = scan_text raw,
                jsConfigID = configID,
                ParticipantData = scan_blob_map partData,
                ArrivalTimestamps = scan_time_map arrivalTS,
                IsCompleted = scan_bool completed\<rparr>), w1)
         | Inr _ \<Rightarrow> (Inl (ErrWrap ''get state v2: %w'' [] scan_columns_error), w1))"

definition upsert_statement_v2 :: "store \<Rightarrow> bytes \<Rightarrow> string \<Rightarrow> uuid \<Rightarrow> string \<Rightarrow> bytes \<Rightarrow> time \<Rightarrow> cql" where
  "upsert_statement_v2 s joinKeyHash joinKeyRaw configID streamID payload now =
     CqlUpdate (stKeyspace (stCfg s), ''join_state_v2'')
       [SetCol ''join_key_raw'' (CText joinKeyRaw),
        SetBlobAt ''participant_data'' streamID payload, SetTimeAt ''arrival_timestamps'' streamID now]
       (v2_key configID joinKeyHash)"

definition Store_UpsertParticipantV2 ::
  "('c, 'r, 'k) ext \<Rightarrow> store \<Rightarrow> bytes \<Rightarrow> string \<Rightarrow> uuid \<Rightarrow> string \<Rightarrow> bytes \<Rightarrow>
   ('c, 'r, 'k) world \<Rightarrow> join_state option result \<times> ('c, 'r, 'k) world"
where
  "Store_UpsertParticipantV2 X s joinKeyHash joinKeyRaw configID streamID payload w =
     (let (now, w1) = time_Now w;
          (err, w2) = on_cql (cql_exec X
            (upsert_statement_v2 s joinKeyHash joinKeyRaw configID streamID payload now)) w1
      in case err of
           Some e \<Rightarrow> (Inl (ErrWrap ''upsert participant v2: %w'' [] e), w2)
         | None \<Rightarrow> Store_GetStateV2 X s configID joinKeyHash w2)"

definition Store_UpsertParticipantOnlyV2 ::
  "('c, 'r, 'k) ext \<Rightarrow> store \<Rightarrow> bytes \<Rightarrow> string \<Rightarrow> uuid \<Rightarrow> string \<Rightarrow> bytes \<Rightarrow>
   ('c, 'r, 'k) world \<Rightarrow> go_error option \<times> ('c, 'r, 'k) world"
where
  "Store_UpsertParticipantOnlyV2 X s joinKeyHash joinKeyRaw configID streamID payload w =
     (let (now, w1) = time_Now w
      in on_cql (cql_exec X
           (upsert_statement_v2 s joinKeyHash joinKeyRaw configID streamID payload now)) w1)"

definition Store_DeleteStateV2 ::
  "('c, 'r, 'k) ext \<Rightarrow> store \<Rightarrow> uuid \<Rightarrow> bytes \<Rightarrow> ('c, 'r, 'k) world \<Rightarrow>
   go_error option \<times> ('c, 'r, 'k) world"
where
  "Store_DeleteStateV2 X s configID joinKeyHash w =
     on_cql (cql_exec X (CqlDelete (stKeyspace (stCfg s), ''join_state_v2'')
       (v2_key configID joinKeyHash))) w"

section \<open>ScopedStore, and the two implementations of StateStore\<close>

record scoped_store =
  scStore :: store
  scConfigID :: uuid

definition NewScopedStore :: "store \<Rightarrow> uuid \<Rightarrow> scoped_store" where
  "NewScopedStore s configID = \<lparr>scStore = s, scConfigID = configID\<rparr>"

definition store_iface :: "('c, 'r, 'k) ext \<Rightarrow> store \<Rightarrow> ('c, 'r, 'k) world state_store" where
  "store_iface X s = \<lparr>ssGetState = Store_GetState X s,
     ssUpsertParticipant = Store_UpsertParticipant X s,
     ssUpsertParticipantOnly = Store_UpsertParticipantOnly X s,
     ssDeleteState = Store_DeleteState X s\<rparr>"

text \<open>The scoped store passes its own configuration, whatever the caller passed.\<close>

definition scoped_iface :: "('c, 'r, 'k) ext \<Rightarrow> scoped_store \<Rightarrow> ('c, 'r, 'k) world state_store" where
  "scoped_iface X s = \<lparr>
     ssGetState = (\<lambda>joinKeyHash. Store_GetStateV2 X (scStore s) (scConfigID s) joinKeyHash),
     ssUpsertParticipant = (\<lambda>joinKeyHash joinKeyRaw configID streamID payload.
       Store_UpsertParticipantV2 X (scStore s) joinKeyHash joinKeyRaw (scConfigID s) streamID payload),
     ssUpsertParticipantOnly = (\<lambda>joinKeyHash joinKeyRaw configID streamID payload.
       Store_UpsertParticipantOnlyV2 X (scStore s) joinKeyHash joinKeyRaw (scConfigID s) streamID payload),
     ssDeleteState = (\<lambda>joinKeyHash. Store_DeleteStateV2 X (scStore s) (scConfigID s) joinKeyHash)\<rparr>"

section \<open>The contract of StateStore\<close>

text \<open>The abstract state of a key: the participants that have arrived, with their arrival times.\<close>

record group =
  gRaw :: string
  gData :: "string \<rightharpoonup> bytes"
  gTimes :: "string \<rightharpoonup> time"

definition group_put :: "string \<Rightarrow> string \<Rightarrow> bytes \<Rightarrow> time \<Rightarrow> group option \<Rightarrow> group" where
  "group_put raw stream payload now og =
     (let g = (case og of Some g \<Rightarrow> g | None \<Rightarrow> \<lparr>gRaw = [], gData = Map.empty, gTimes = Map.empty\<rparr>)
      in \<lparr>gRaw = raw, gData = (gData g)(stream \<mapsto> payload), gTimes = (gTimes g)(stream \<mapsto> cql_millis now)\<rparr>)"

text \<open>A state read from the store shows a group, in some order of its maps.\<close>

definition state_shows :: "join_state \<Rightarrow> group \<Rightarrow> bool" where
  "state_shows st g \<longleftrightarrow> JoinKeyRaw st = gRaw g
     \<and> gm_wf (ParticipantData st) \<and> map_of (ParticipantData st) = gData g
     \<and> gm_wf (ArrivalTimestamps st) \<and> map_of (ArrivalTimestamps st) = gTimes g"

text \<open>\<open>cql_only w w'\<close>: at most ScyllaDB and the clock's reading have changed.\<close>

definition cql_only :: "('c, 'r, 'k) world \<Rightarrow> ('c, 'r, 'k) world \<Rightarrow> bool" where
  "cql_only w w' \<longleftrightarrow> wRedis w' = wRedis w \<and> wKafka w' = wKafka w \<and> wClock w' = wClock w
     \<and> wCancel w' = wCancel w \<and> wPending w' = wPending w \<and> wMetrics w' = wMetrics w
     \<and> wLog w' = wLog w"

locale state_store_laws =
  fixes S :: "('c, 'r, 'k) world state_store"
    and groups :: "'c \<Rightarrow> bytes \<Rightarrow> group option"
  assumes get_frame: "ssGetState S h w = (r, w') \<Longrightarrow> cql_only w w' \<and> wTick w' = wTick w"
    and get_groups: "ssGetState S h w = (r, w') \<Longrightarrow> groups (wCql w') = groups (wCql w)"
    and get_none: "ssGetState S h w = (Inr None, w') \<Longrightarrow> groups (wCql w) h = None"
    and get_some: "ssGetState S h w = (Inr (Some st), w') \<Longrightarrow>
      \<exists>g. groups (wCql w) h = Some g \<and> state_shows st g"
    and only_frame: "ssUpsertParticipantOnly S h raw cid s p w = (oe, w') \<Longrightarrow>
      cql_only w w' \<and> wTick w' = Suc (wTick w)"
    and only_ok: "ssUpsertParticipantOnly S h raw cid s p w = (None, w') \<Longrightarrow>
      groups (wCql w') =
        (groups (wCql w))(h \<mapsto> group_put raw s p (wClock w (wTick w)) (groups (wCql w) h))"
    and only_err: "ssUpsertParticipantOnly S h raw cid s p w = (Some e, w') \<Longrightarrow>
      groups (wCql w') = groups (wCql w) \<or> groups (wCql w') =
        (groups (wCql w))(h \<mapsto> group_put raw s p (wClock w (wTick w)) (groups (wCql w) h))"
    and upsert_frame: "ssUpsertParticipant S h raw cid s p w = (r, w') \<Longrightarrow>
      cql_only w w' \<and> wTick w' = Suc (wTick w)"
    and upsert_ok: "ssUpsertParticipant S h raw cid s p w = (Inr ost, w') \<Longrightarrow>
      groups (wCql w') =
        (groups (wCql w))(h \<mapsto> group_put raw s p (wClock w (wTick w)) (groups (wCql w) h))
      \<and> (\<exists>st. ost = Some st
           \<and> state_shows st (group_put raw s p (wClock w (wTick w)) (groups (wCql w) h)))"
    and upsert_err: "ssUpsertParticipant S h raw cid s p w = (Inl e, w') \<Longrightarrow>
      groups (wCql w') = groups (wCql w) \<or> groups (wCql w') =
        (groups (wCql w))(h \<mapsto> group_put raw s p (wClock w (wTick w)) (groups (wCql w) h))"
    and delete_frame: "ssDeleteState S h w = (oe, w') \<Longrightarrow> cql_only w w' \<and> wTick w' = wTick w"
    and delete_ok: "ssDeleteState S h w = (None, w') \<Longrightarrow> groups (wCql w') = (groups (wCql w))(h := None)"
    and delete_err: "ssDeleteState S h w = (Some e, w') \<Longrightarrow>
      groups (wCql w') = groups (wCql w) \<or> groups (wCql w') = (groups (wCql w))(h := None)"

context state_store_laws
begin

text \<open>A participant that was written is read back, with those that were there before.\<close>

lemma write_then_get:
  assumes "ssUpsertParticipantOnly S h raw cid s p w = (None, w1)" and "ssGetState S h w1 = (Inr ost, w2)"
  obtains st where "ost = Some st" and "gm_wf (ParticipantData st)" and "JoinKeyRaw st = raw"
    and "map_of (ParticipantData st) =
      (case groups (wCql w) h of None \<Rightarrow> Map.empty | Some g \<Rightarrow> gData g)(s \<mapsto> p)"
proof -
  note g = only_ok [OF assms(1)]
  then have "ost \<noteq> None" using get_none assms(2) by fastforce
  then obtain st where st: "ost = Some st" by auto
  from get_some [OF assms(2) [unfolded st]] g
  have "state_shows st (group_put raw s p (wClock w (wTick w)) (groups (wCql w) h))" by simp
  then show ?thesis by (intro that [OF st]) (auto simp: state_shows_def group_put_def Let_def split: option.splits)
qed

end

section \<open>Both stores meet the contract\<close>

text \<open>The group a row holds, and the groups of the two tables.\<close>

definition row_group :: "row \<Rightarrow> group" where
  "row_group r = \<lparr>gRaw = v_text (r ''join_key_raw''), gData = v_blobs (r ''participant_data''),
     gTimes = v_times (r ''arrival_timestamps'')\<rparr>"

definition groups_v1 :: "('c \<Rightarrow> cql_db) \<Rightarrow> store \<Rightarrow> 'c \<Rightarrow> bytes \<Rightarrow> group option" where
  "groups_v1 rows s c h =
     map_option row_group (rows c (stKeyspace (stCfg s), ''join_state'') [CBlob h])"

definition groups_v2 :: "('c \<Rightarrow> cql_db) \<Rightarrow> scoped_store \<Rightarrow> 'c \<Rightarrow> bytes \<Rightarrow> group option" where
  "groups_v2 rows s c h = map_option row_group
     (rows c (stKeyspace (stCfg (scStore s)), ''join_state_v2'') [CUuid (scConfigID s), CBlob h])"

lemma v_cell_simps [simp]:
  "v_blobs (VBlobs m) = m" "v_times (VTimes t) = t" "v_text (VVal (CText x)) = x"
  "v_blobs VNull = Map.empty" "v_times VNull = Map.empty" "v_text VNull = []"
  by (simp_all add: v_blobs_def v_times_def v_text_def)

lemma row_group_upsert:
  "row_group (fold assign_row
      [SetCol ''join_key_raw'' (CText raw), SetCol ''config_id'' cid,
       SetBlobAt ''participant_data'' s p, SetTimeAt ''arrival_timestamps'' s t]
      (case ro of Some r \<Rightarrow> r | None \<Rightarrow> (\<lambda>_. VNull)))
   = group_put raw s p t (map_option row_group ro)"
  "row_group (fold assign_row
      [SetCol ''join_key_raw'' (CText raw),
       SetBlobAt ''participant_data'' s p, SetTimeAt ''arrival_timestamps'' s t]
      (case ro of Some r \<Rightarrow> r | None \<Rightarrow> (\<lambda>_. VNull)))
   = group_put raw s p t (map_option row_group ro)"
  by (cases ro; simp add: row_group_def group_put_def)+

lemma cell_shows_scan:
  "cell_shows c v \<Longrightarrow> scan_text c = v_text v"
  "cell_shows c v \<Longrightarrow> gm_wf (scan_blob_map c) \<and> map_of (scan_blob_map c) = v_blobs v"
  "cell_shows c v \<Longrightarrow> gm_wf (scan_time_map c) \<and> map_of (scan_time_map c) = v_times v"
  by (auto simp: cell_shows_def scan_text_def scan_blob_map_def scan_time_map_def v_text_def
      v_blobs_def v_times_def split: vcell.splits)

text \<open>The cells of a selected row, for a key that does not mention the state columns.\<close>

lemma cells_show:
  assumes "list_all2 cell_shows cells (map (row_cell wh r) state_columns)"
    and "set (map fst wh) \<inter> {''join_key_raw'', ''participant_data'', ''arrival_timestamps''} = {}"
  obtains a b c d e f where "cells = [a, b, c, d, e, f]"
    and "\<And>x y z. state_shows \<lparr>JoinKeyHash = x, JoinKeyRaw = scan_text b, jsConfigID = y,
        ParticipantData = scan_blob_map d, ArrivalTimestamps = scan_time_map e, IsCompleted = z\<rparr>
        (row_group r)"
proof -
  have n: "row_cell wh r ''join_key_raw'' = r ''join_key_raw''"
    "row_cell wh r ''participant_data'' = r ''participant_data''"
    "row_cell wh r ''arrival_timestamps'' = r ''arrival_timestamps''"
    using assms(2) by (simp_all add: row_cell_def map_of_eq_None_iff [THEN iffD2])
  from assms(1) obtain a b c d e f where "cells = [a, b, c, d, e, f]"
    "cell_shows b (r ''join_key_raw'')" "cell_shows d (r ''participant_data'')"
    "cell_shows e (r ''arrival_timestamps'')"
    by (auto simp: state_columns_def list_all2_Cons2 n)
  with cell_shows_scan show ?thesis
    by (intro that [of a b c d e f]) (auto simp: state_shows_def row_group_def)
qed

lemma cql_only_simps [simp]:
  "cql_only w (w\<lparr>wCql := c\<rparr>)" "cql_only w (w\<lparr>wCql := c, wTick := n\<rparr>)"
  "cql_only w (w\<lparr>wTick := n, wCql := c\<rparr>)" "cql_only w w"
  by (simp_all add: cql_only_def)

lemma cql_only_trans: "cql_only a b \<Longrightarrow> cql_only b c \<Longrightarrow> cql_only a c"
  by (simp add: cql_only_def)

lemma cql_onlyI:
  "w' = w\<lparr>wCql := c\<rparr> \<Longrightarrow> cql_only w w' \<and> wTick w' = wTick w \<and> wClock w' = wClock w"
  "w' = w\<lparr>wTick := n, wCql := c\<rparr> \<Longrightarrow> cql_only w w' \<and> wTick w' = n \<and> wClock w' = wClock w"
  by (simp_all add: cql_only_def)

text \<open>
  What the two interfaces have in common: the same statements on another table and key.
  \<open>read\<close> is \<open>GetState\<close> of one table, \<open>key\<close> the row key of a join key.
\<close>

definition store_view :: "('c \<Rightarrow> cql_db) \<Rightarrow> table \<Rightarrow> (bytes \<Rightarrow> cql_value list) \<Rightarrow> 'c \<Rightarrow> bytes \<Rightarrow> group option"
where
  "store_view rows t key c h = map_option row_group (rows c t (key h))"

lemma store_view_update:
  assumes "inj key" and "rows c' = (rows c)(t := (rows c t)(key h := ro))"
  shows "store_view rows t key c' = (store_view rows t key c)(h := map_option row_group ro)"
  using assms(1) by (auto simp: store_view_def fun_eq_iff inj_eq assms(2))

lemma Store_GetState_frame:
  assumes "Store_GetState X s h w = (r, w')"
  shows "w' = w\<lparr>wCql := wCql w'\<rparr> \<and> (\<exists>res. cql_scan X (CqlSelect state_columns (stKeyspace (stCfg s), ''join_state'')
      [(''join_key_hash'', CBlob h)]) (wCql w) = (res, wCql w'))"
  using assms
  by (auto simp: Store_GetState_def on_cql_def Let_def split: prod.splits sum.splits list.splits if_splits)

lemma Store_GetState_None:
  assumes "Store_GetState X s h w = (Inr None, w')"
  shows "\<exists>e. cql_scan X (CqlSelect state_columns (stKeyspace (stCfg s), ''join_state'')
      [(''join_key_hash'', CBlob h)]) (wCql w) = (Inl e, wCql w')
    \<and> errors_Is e gocql_ErrNotFound"
  using assms
  by (auto simp: Store_GetState_def on_cql_def Let_def split: prod.splits sum.splits list.splits if_splits)

lemma Store_GetState_Some:
  assumes "Store_GetState X s h w = (Inr (Some st), w')"
  shows "\<exists>a b c d e f x y z. cql_scan X (CqlSelect state_columns (stKeyspace (stCfg s), ''join_state'')
      [(''join_key_hash'', CBlob h)]) (wCql w) = (Inr [a, b, c, d, e, f], wCql w')
    \<and> st = \<lparr>JoinKeyHash = x, JoinKeyRaw = scan_text b, jsConfigID = y,
        ParticipantData = scan_blob_map d, ArrivalTimestamps = scan_time_map e, IsCompleted = z\<rparr>"
  using assms
  by (auto simp: Store_GetState_def on_cql_def Let_def split: prod.splits sum.splits list.splits if_splits)

lemma Store_GetStateV2_frame:
  assumes "Store_GetStateV2 X s cid h w = (r, w')"
  shows "w' = w\<lparr>wCql := wCql w'\<rparr> \<and> (\<exists>res. cql_scan X (CqlSelect state_columns (stKeyspace (stCfg s), ''join_state_v2'')
      (v2_key cid h)) (wCql w) = (res, wCql w'))"
  using assms
  by (auto simp: Store_GetStateV2_def on_cql_def Let_def split: prod.splits sum.splits list.splits if_splits)

lemma Store_GetStateV2_None:
  assumes "Store_GetStateV2 X s cid h w = (Inr None, w')"
  shows "\<exists>e. cql_scan X (CqlSelect state_columns (stKeyspace (stCfg s), ''join_state_v2'')
      (v2_key cid h)) (wCql w) = (Inl e, wCql w')
    \<and> errors_Is e gocql_ErrNotFound"
  using assms
  by (auto simp: Store_GetStateV2_def on_cql_def Let_def split: prod.splits sum.splits list.splits if_splits)

lemma Store_GetStateV2_Some:
  assumes "Store_GetStateV2 X s cid h w = (Inr (Some st), w')"
  shows "\<exists>a b c d e f x y z. cql_scan X (CqlSelect state_columns (stKeyspace (stCfg s), ''join_state_v2'')
      (v2_key cid h)) (wCql w) = (Inr [a, b, c, d, e, f], wCql w')
    \<and> st = \<lparr>JoinKeyHash = x, JoinKeyRaw = scan_text b, jsConfigID = y,
        ParticipantData = scan_blob_map d, ArrivalTimestamps = scan_time_map e, IsCompleted = z\<rparr>"
  using assms
  by (auto simp: Store_GetStateV2_def on_cql_def Let_def split: prod.splits sum.splits list.splits if_splits)

text \<open>
  The argument both stores share.  A store that reads one row, writes it with one update whose effect
  on the row is \<open>group_put\<close>, reads back after writing, and deletes it, meets the contract.
\<close>

context scylla
begin

lemma update_view:
  assumes "inj key" "map snd wh = key h"
    and put: "\<And>ro. row_group (fold assign_row sets (case ro of Some r \<Rightarrow> r | None \<Rightarrow> (\<lambda>_. VNull)))
      = group_put raw s p now (map_option row_group ro)"
    and "rows c' = cql_effect (CqlUpdate t sets wh) (rows c)"
  shows "store_view rows t key c' =
    (store_view rows t key c)(h \<mapsto> group_put raw s p now (store_view rows t key c h))"
  using assms(2,4)
  by (subst store_view_update [OF assms(1)])
    (auto simp: cql_effect_def put store_view_def)

lemma delete_view:
  assumes "inj key" "map snd wh = key h" and "rows c' = cql_effect (CqlDelete t wh) (rows c)"
  shows "store_view rows t key c' = (store_view rows t key c)(h := None)"
  using assms(2,3)
  by (subst store_view_update [OF assms(1)]) (auto simp: cql_effect_def)

lemma same_view: "rows c' = rows c \<Longrightarrow> store_view rows t key c' = store_view rows t key c"
  by (intro ext) (simp add: store_view_def)

lemma state_store_lawsI:
  assumes key: "inj key" "\<And>h. map snd (wh h) = key h"
    and cols: "\<And>h. set (map fst (wh h)) \<inter>
      {''join_key_raw'', ''participant_data'', ''arrival_timestamps''} = {}"
    and put: "\<And>h raw cid s p now ro. row_group (fold assign_row (sets h raw cid s p now)
      (case ro of Some r \<Rightarrow> r | None \<Rightarrow> (\<lambda>_. VNull))) = group_put raw s p now (map_option row_group ro)"
    and get: "\<And>h w r w'. ssGetState S h w = (r, w') \<Longrightarrow> w' = w\<lparr>wCql := wCql w'\<rparr>
      \<and> (\<exists>res. cql_scan X (CqlSelect state_columns t (wh h)) (wCql w) = (res, wCql w'))"
    and get_None: "\<And>h w w'. ssGetState S h w = (Inr None, w') \<Longrightarrow>
      \<exists>e. cql_scan X (CqlSelect state_columns t (wh h)) (wCql w) = (Inl e, wCql w')
        \<and> errors_Is e gocql_ErrNotFound"
    and get_Some: "\<And>h w st w'. ssGetState S h w = (Inr (Some st), w') \<Longrightarrow>
      \<exists>a b c d e f x y z.
        cql_scan X (CqlSelect state_columns t (wh h)) (wCql w) = (Inr [a, b, c, d, e, f], wCql w')
        \<and> st = \<lparr>JoinKeyHash = x, JoinKeyRaw = scan_text b, jsConfigID = y,
            ParticipantData = scan_blob_map d, ArrivalTimestamps = scan_time_map e, IsCompleted = z\<rparr>"
    and only: "\<And>h raw cid s p w oe w'. ssUpsertParticipantOnly S h raw cid s p w = (oe, w') \<Longrightarrow>
      cql_exec X (CqlUpdate t (sets h raw cid s p (wClock w (wTick w))) (wh h)) (wCql w) = (oe, wCql w')
      \<and> w' = w\<lparr>wTick := Suc (wTick w), wCql := wCql w'\<rparr>"
    and ups: "\<And>h raw cid s p w r w'. ssUpsertParticipant S h raw cid s p w = (r, w') \<Longrightarrow>
      \<exists>oe w1. ssUpsertParticipantOnly S h raw cid s p w = (oe, w1)
        \<and> (case oe of Some e \<Rightarrow> w' = w1 \<and> (\<exists>e'. r = Inl e') | None \<Rightarrow> ssGetState S h w1 = (r, w'))"
    and del: "\<And>h w oe w'. ssDeleteState S h w = (oe, w') \<Longrightarrow>
      cql_exec X (CqlDelete t (wh h)) (wCql w) = (oe, wCql w') \<and> w' = w\<lparr>wCql := wCql w'\<rparr>"
  shows "state_store_laws S (store_view rows t key)"
proof -
  note upd = update_view [OF key put]
  have frame_get: "cql_only w w' \<and> wTick w' = wTick w
      \<and> store_view rows t key (wCql w') = store_view rows t key (wCql w)"
    if g: "ssGetState S h w = (r, w')" for h w r w'
  proof -
    from get [OF g] obtain res
      where sc: "cql_scan X (CqlSelect state_columns t (wh h)) (wCql w) = (res, wCql w')" by auto
    from get [OF g] have w: "w' = w\<lparr>wCql := wCql w'\<rparr>" ..
    from same_view [OF scan_frame [OF sc]] cql_onlyI(1) [OF w] show ?thesis by simp
  qed
  have get_some: "\<exists>g. store_view rows t key (wCql w) h = Some g \<and> state_shows st g"
    if g: "ssGetState S h w = (Inr (Some st), w')" for h w st w'
  proof -
    from get_Some [OF g] obtain a b c d e f x y z where
      sc: "cql_scan X (CqlSelect state_columns t (wh h)) (wCql w) = (Inr [a, b, c, d, e, f], wCql w')"
      and st: "st = \<lparr>JoinKeyHash = x, JoinKeyRaw = scan_text b, jsConfigID = y,
        ParticipantData = scan_blob_map d, ArrivalTimestamps = scan_time_map e, IsCompleted = z\<rparr>"
      by blast
    from scan_ok [OF sc] obtain ro where r: "rows (wCql w) t (map snd (wh h)) = Some ro"
      and l: "list_all2 cell_shows [a, b, c, d, e, f] (map (row_cell (wh h) ro) state_columns)"
      by blast
    have "state_shows st (row_group ro)"
      unfolding st by (rule cells_show [OF l cols]) simp
    with r show ?thesis by (simp add: store_view_def key(2))
  qed
  have get_none: "store_view rows t key (wCql w) h = None"
    if g: "ssGetState S h w = (Inr None, w')" for h w w'
  proof -
    from get_None [OF g] obtain e
      where "cql_scan X (CqlSelect state_columns t (wh h)) (wCql w) = (Inl e, wCql w')"
        and "errors_Is e gocql_ErrNotFound" by blast
    from scan_not_found [OF this] show ?thesis by (simp add: store_view_def key(2))
  qed
  have only_all: "cql_only w w' \<and> wTick w' = Suc (wTick w)"
    "oe = None \<Longrightarrow> store_view rows t key (wCql w') = (store_view rows t key (wCql w))
       (h \<mapsto> group_put raw s p (wClock w (wTick w)) (store_view rows t key (wCql w) h))"
    "oe = Some e \<Longrightarrow> store_view rows t key (wCql w') = store_view rows t key (wCql w)
       \<or> store_view rows t key (wCql w') = (store_view rows t key (wCql w))
       (h \<mapsto> group_put raw s p (wClock w (wTick w)) (store_view rows t key (wCql w) h))"
    if o: "ssUpsertParticipantOnly S h raw cid s p w = (oe, w')" for h raw cid s p w oe w' e
  proof -
    from only [OF o]
    have x: "cql_exec X (CqlUpdate t (sets h raw cid s p (wClock w (wTick w))) (wh h)) (wCql w)
        = (oe, wCql w')"
      and w: "w' = w\<lparr>wTick := Suc (wTick w), wCql := wCql w'\<rparr>" by simp_all
    show "cql_only w w' \<and> wTick w' = Suc (wTick w)" using cql_onlyI(2) [OF w] by simp
    show "store_view rows t key (wCql w') = (store_view rows t key (wCql w))
       (h \<mapsto> group_put raw s p (wClock w (wTick w)) (store_view rows t key (wCql w) h))"
      if "oe = None"
      using upd exec_ok x that by simp
    show "store_view rows t key (wCql w') = store_view rows t key (wCql w)
       \<or> store_view rows t key (wCql w') = (store_view rows t key (wCql w))
       (h \<mapsto> group_put raw s p (wClock w (wTick w)) (store_view rows t key (wCql w) h))"
      if "oe = Some e"
      using exec_err [OF x [unfolded that]] upd same_view by blast
  qed
  have ups_cases: "\<exists>oe w1. ssUpsertParticipantOnly S h raw cid s p w = (oe, w1)
      \<and> (oe = None \<and> ssGetState S h w1 = (r, w') \<or> (\<exists>e e'. oe = Some e \<and> w' = w1 \<and> r = Inl e'))"
    if u: "ssUpsertParticipant S h raw cid s p w = (r, w')" for h raw cid s p w r w'
  proof -
    from ups [OF u] obtain oe w1 where o: "ssUpsertParticipantOnly S h raw cid s p w = (oe, w1)"
      "case oe of Some e \<Rightarrow> w' = w1 \<and> (\<exists>e'. r = Inl e') | None \<Rightarrow> ssGetState S h w1 = (r, w')"
      by auto
    then show ?thesis by (cases oe) simp_all
  qed
  show ?thesis
  proof (unfold_locales, goal_cases)
    case (1 h w r w')
    then show ?case using frame_get by blast
  next
    case (2 h w r w')
    then show ?case using frame_get by blast
  next
    case (3 h w w')
    then show ?case by (rule get_none)
  next
    case (4 h w st w')
    then show ?case by (rule get_some)
  next
    case (5 h raw cid s p w oe w')
    then show ?case by (rule only_all(1))
  next
    case (6 h raw cid s p w w')
    then show ?case by (rule only_all(2)) simp
  next
    case (7 h raw cid s p w e w')
    then show ?case by (rule only_all(3)) simp
  next
    case (8 h raw cid s p w r w')
    then obtain oe w1 where o: "ssUpsertParticipantOnly S h raw cid s p w = (oe, w1)"
      and d: "ssGetState S h w1 = (r, w') \<or> w' = w1"
      using ups_cases by blast
    from only_all(1) [OF o] d frame_get [of h w1 r w'] cql_only_trans [of w w1 w'] show ?case by auto
  next
    case (9 h raw cid s p w ost w')
    then obtain w1 where o: "ssUpsertParticipantOnly S h raw cid s p w = (None, w1)"
      and g: "ssGetState S h w1 = (Inr ost, w')"
      using ups_cases by blast
    note v = only_all(2) [OF o refl]
    have "ost \<noteq> None" using get_none g v by fastforce
    then obtain st where st: "ost = Some st" by auto
    have "store_view rows t key (wCql w') = store_view rows t key (wCql w1)"
      using frame_get [OF g] by simp
    with get_some [OF g [unfolded st]] v st show ?case by auto
  next
    case (10 h raw cid s p w e w')
    from ups_cases [OF 10] obtain oe w1
      where u: "ssUpsertParticipantOnly S h raw cid s p w = (oe, w1) \<and>
        (oe = None \<and> ssGetState S h w1 = (Inl e, w') \<or>
         (\<exists>x y. oe = Some x \<and> w' = w1 \<and> (Inl e :: join_state option result) = Inl y))"
      by (elim exE) (rule that)
    then have o: "ssUpsertParticipantOnly S h raw cid s p w = (oe, w1)" ..
    from u [THEN conjunct2] show ?case
    proof (elim disjE exE conjE)
      assume "oe = None" "ssGetState S h w1 = (Inl e, w')"
      then show ?thesis using only_all(2) [OF o] frame_get [of h w1 "Inl e" w'] by simp
    next
      fix x assume "oe = Some x" "w' = w1"
      then show ?thesis using only_all(3) [OF o] by simp
    qed
  next
    case (11 h w oe w')
    from del [OF 11] have "w' = w\<lparr>wCql := wCql w'\<rparr>" ..
    from cql_onlyI(1) [OF this] show ?case by simp
  next
    case (12 h w w')
    from del [OF 12] have "cql_exec X (CqlDelete t (wh h)) (wCql w) = (None, wCql w')" ..
    from delete_view [OF key exec_ok [OF this]] show ?case .
  next
    case (13 h w e w')
    from del [OF 13] have "cql_exec X (CqlDelete t (wh h)) (wCql w) = (Some e, wCql w')" ..
    from exec_err [OF this] show ?case using delete_view [OF key] same_view by blast
  qed
qed

text \<open>\<open>Store\<close> keeps the contract on \<open>join_state\<close>, \<open>ScopedStore\<close> on its part of \<open>join_state_v2\<close>.\<close>

lemma store_keeps_contract: "state_store_laws (store_iface X st) (groups_v1 rows st)"
proof -
  have "groups_v1 rows st =
      store_view rows (stKeyspace (stCfg st), ''join_state'') (\<lambda>h. [CBlob h])"
    by (simp add: groups_v1_def store_view_def fun_eq_iff)
  moreover have "state_store_laws (store_iface X st)
      (store_view rows (stKeyspace (stCfg st), ''join_state'') (\<lambda>h. [CBlob h]))"
  proof (rule state_store_lawsI [where wh = "\<lambda>h. [(''join_key_hash'', CBlob h)]" and
        sets = "\<lambda>h raw cid s p now. [SetCol ''join_key_raw'' (CText raw),
          SetCol ''config_id'' (CUuid cid), SetBlobAt ''participant_data'' s p,
          SetTimeAt ''arrival_timestamps'' s now]"], goal_cases)
    case 4
    show ?case by (rule row_group_upsert(1))
  next
    case (5 h w r w')
    then show ?case by (intro Store_GetState_frame) (simp add: store_iface_def)
  next
    case (6 h w w')
    then show ?case by (intro Store_GetState_None) (simp add: store_iface_def)
  next
    case (7 h w j w')
    then show ?case by (intro Store_GetState_Some) (simp add: store_iface_def)
  next
    case (8 h raw cid s p w oe w')
    then show ?case
      by (auto simp: store_iface_def Store_UpsertParticipantOnly_def time_Now_def on_cql_def
          upsert_statement_def split: prod.splits)
  next
    case (9 h raw cid s p w r w')
    then show ?case
      by (auto simp: store_iface_def Store_UpsertParticipant_def Store_UpsertParticipantOnly_def
          Let_def split: prod.splits option.splits)
  next
    case (10 h w oe w')
    then show ?case
      by (auto simp: store_iface_def Store_DeleteState_def on_cql_def split: prod.splits)
  qed (simp_all add: inj_def)
  ultimately show ?thesis by simp
qed

lemma scoped_keeps_contract: "state_store_laws (scoped_iface X sc) (groups_v2 rows sc)"
proof -
  let ?t = "(stKeyspace (stCfg (scStore sc)), ''join_state_v2'')"
  let ?key = "\<lambda>h. [CUuid (scConfigID sc), CBlob h]"
  have "groups_v2 rows sc = store_view rows ?t ?key"
    by (simp add: groups_v2_def store_view_def fun_eq_iff)
  moreover have "state_store_laws (scoped_iface X sc) (store_view rows ?t ?key)"
  proof (rule state_store_lawsI [where wh = "v2_key (scConfigID sc)" and
        sets = "\<lambda>h raw cid s p now. [SetCol ''join_key_raw'' (CText raw),
          SetBlobAt ''participant_data'' s p, SetTimeAt ''arrival_timestamps'' s now]"], goal_cases)
    case 4
    show ?case by (rule row_group_upsert(2))
  next
    case (5 h w r w')
    then show ?case by (intro Store_GetStateV2_frame) (simp add: scoped_iface_def)
  next
    case (6 h w w')
    then show ?case by (intro Store_GetStateV2_None) (simp add: scoped_iface_def)
  next
    case (7 h w st w')
    then show ?case by (intro Store_GetStateV2_Some) (simp add: scoped_iface_def)
  next
    case (8 h raw cid s p w oe w')
    then show ?case
      by (auto simp: scoped_iface_def Store_UpsertParticipantOnlyV2_def time_Now_def on_cql_def
          upsert_statement_v2_def split: prod.splits)
  next
    case (9 h raw cid s p w r w')
    then show ?case
      by (auto simp: scoped_iface_def Store_UpsertParticipantV2_def Store_UpsertParticipantOnlyV2_def
          Let_def split: prod.splits option.splits)
  next
    case (10 h w oe w')
    then show ?case
      by (auto simp: scoped_iface_def Store_DeleteStateV2_def on_cql_def split: prod.splits)
  qed (simp_all add: inj_def v2_key_def)
  ultimately show ?thesis by simp
qed

end

text \<open>The contract in the locale of the session: one store, and one scoped store, over it.\<close>

locale scylla_store = scylla X rows
  for X :: "('c, 'r, 'k) ext" and rows :: "'c \<Rightarrow> cql_db" +
  fixes st :: store and cid :: uuid

sublocale scylla_store \<subseteq> v1: state_store_laws "store_iface X st" "groups_v1 rows st"
  by (rule store_keeps_contract)

sublocale scylla_store \<subseteq> v2: state_store_laws
  "scoped_iface X (NewScopedStore st cid)" "groups_v2 rows (NewScopedStore st cid)"
  by (rule scoped_keeps_contract)

end
