(* ===== verification/Engine.thy ===== *)
theory Engine
  imports Projection Store
begin

text \<open>
  \<open>internal/engine/join.go\<close>: the completion check and the projection of a join state.  A nil state is
  \<open>None\<close>; a nil \<open>[]byte\<close> is \<open>None\<close>.
\<close>

record engine =
  enJoinConfig :: join_config

definition engine_New :: "join_config \<Rightarrow> engine" where
  "engine_New joinConfig = \<lparr>enJoinConfig = joinConfig\<rparr>"

definition Engine_IsComplete :: "engine \<Rightarrow> join_state option \<Rightarrow> bool" where
  "Engine_IsComplete e state = (case state of
      None \<Rightarrow> False
    | Some st \<Rightarrow> int (length (ParticipantData st)) \<ge> join_N (enJoinConfig e))"

definition Engine_Project :: "engine \<Rightarrow> join_state option \<Rightarrow> bytes option result" where
  "Engine_Project e state = (case state of
      None \<Rightarrow> Inr None
    | Some st \<Rightarrow> (case projection_Apply (ParticipantData st) (Projection (enJoinConfig e)) of
        Inl err \<Rightarrow> Inl err | Inr b \<Rightarrow> Inr (Some b)))"

record process_result =
  prState :: "join_state option"
  prJoinedBytes :: "bytes option"

definition Engine_Process :: "engine \<Rightarrow> join_state option \<Rightarrow> process_result result" where
  "Engine_Process e state = (case state of
      None \<Rightarrow> Inr \<lparr>prState = None, prJoinedBytes = None\<rparr>
    | Some st \<Rightarrow>
        if \<not> Engine_IsComplete e (Some st) then Inr \<lparr>prState = Some st, prJoinedBytes = None\<rparr>
        else (case Engine_Project e (Some st) of
            Inl err \<Rightarrow> Inl err
          | Inr joined \<Rightarrow> Inr \<lparr>prState = None, prJoinedBytes = joined\<rparr>))"

text \<open>\<open>len(b)\<close> of a slice that may be nil.\<close>

definition len_opt :: "bytes option \<Rightarrow> nat" where
  "len_opt b = (case b of None \<Rightarrow> 0 | Some x \<Rightarrow> length x)"

section \<open>Completion\<close>

text \<open>
  The check compares the number of participants with the length of the list of stream ids.  When only
  configured streams are stored, it holds exactly when every stream has arrived and none is listed twice.
\<close>

lemma Engine_IsComplete_exact:
  assumes "gm_wf (ParticipantData st)" and "fst ` set (ParticipantData st) \<subseteq> set (StreamIDs (enJoinConfig e))"
  shows "Engine_IsComplete e (Some st) \<longleftrightarrow> distinct (StreamIDs (enJoinConfig e))
    \<and> fst ` set (ParticipantData st) = set (StreamIDs (enJoinConfig e))"
proof -
  let ?ps = "map fst (ParticipantData st)" and ?ids = "StreamIDs (enJoinConfig e)"
  have p: "length ?ps = card (set ?ps)"
    by (rule distinct_card [symmetric]) (use assms(1) in \<open>simp add: gm_wf_def\<close>)
  have sub: "set ?ps \<subseteq> set ?ids" using assms(2) by simp
  then have "card (set ?ps) \<le> card (set ?ids)" by (intro card_mono) simp_all
  moreover have "card (set ?ids) \<le> length ?ids" by (rule card_length)
  ultimately have "length ?ids \<le> length ?ps \<longleftrightarrow> card (set ?ids) = length ?ids \<and> card (set ?ids) \<le> card (set ?ps)"
    using p by auto
  also have "\<dots> \<longleftrightarrow> distinct ?ids \<and> set ?ps = set ?ids"
    using sub card_seteq [OF List.finite_set sub] by (auto simp: distinct_card card_distinct)
  finally show ?thesis by (simp add: Engine_IsComplete_def join_N_def)
qed

text \<open>A complete state is always published: its document is never empty.\<close>

lemma Engine_Process_cases:
  assumes "Engine_Process e (Some st) = Inr res"
  shows "0 < len_opt (prJoinedBytes res) \<longleftrightarrow> Engine_IsComplete e (Some st)"
  using assms
  by (auto simp: Engine_Process_def Engine_Project_def len_opt_def dest!: projection_Apply_nonempty
      split: if_splits sum.splits)

end
