(* ===== verification/Logger.thy ===== *)
theory Logger
  imports World
begin

text \<open>
  \<open>internal/logger/logger.go\<close>: levels, their textual form, and the leveled logger.  The interface
  \<open>Logger\<close> is the record \<open>logger\<close> of its four methods; the locale \<open>logger_laws\<close> says that a log call
  touches nothing but the log and the reading of the clock.
\<close>

section \<open>Levels\<close>

datatype level = LevelDebug | LevelInfo | LevelWarn | LevelError

text \<open>The constants of the \<open>iota\<close> block; \<open>level < l.level\<close> compares them.\<close>

fun level_int :: "level \<Rightarrow> int" where
  "level_int LevelDebug = 0"
| "level_int LevelInfo = 1"
| "level_int LevelWarn = 2"
| "level_int LevelError = 3"

instantiation level :: linorder
begin

definition less_eq_level :: "level \<Rightarrow> level \<Rightarrow> bool" where
  "less_eq_level a b \<longleftrightarrow> level_int a \<le> level_int b"

definition less_level :: "level \<Rightarrow> level \<Rightarrow> bool" where
  "less_level a b \<longleftrightarrow> level_int a < level_int b"

instance
proof
  fix a b :: level
  show "a \<le> b \<Longrightarrow> b \<le> a \<Longrightarrow> a = b"
    by (cases a; cases b) (simp_all add: less_eq_level_def)
qed (auto simp: less_eq_level_def less_level_def)

end

section \<open>parseLevel\<close>

text \<open>The runes of a string.\<close>

function runes :: "nat list \<Rightarrow> nat list" where
  "runes [] = []"
| "runes (b # bs) = (let (r, n) = decode_rune (b # bs) in r # runes (drop (n - 1) bs))"
  by pat_completeness auto
termination
  by (relation "measure length") auto

definition unicode_IsSpace :: "nat \<Rightarrow> bool" where
  "unicode_IsSpace r \<longleftrightarrow> (9 \<le> r \<and> r \<le> 13) \<or> r \<in> {0x20, 0x85, 0xA0, 0x1680, 0x2028, 0x2029, 0x202F, 0x205F, 0x3000}
     \<or> (0x2000 \<le> r \<and> r \<le> 0x200A)"

text \<open>
  \<open>ToLower(TrimSpace s)\<close> as runes, exact wherever the lower case is ASCII: besides the letters, the
  dotted capital I and the Kelvin sign have an ASCII lower case; other runes keep out of ASCII.
\<close>

definition rune_lower :: "nat \<Rightarrow> nat" where
  "rune_lower r = (if 65 \<le> r \<and> r \<le> 90 then r + 32 else if r = 0x130 then 105
     else if r = 0x212A then 107 else r)"

definition trim_lower :: "string \<Rightarrow> nat list" where
  "trim_lower s =
     map rune_lower (rev (dropWhile unicode_IsSpace (rev (dropWhile unicode_IsSpace (runes (codes s))))))"

definition parseLevel :: "string \<Rightarrow> level" where
  "parseLevel s = (let t = trim_lower s in
     if t = codes ''debug'' then LevelDebug
     else if t = codes ''info'' \<or> t = [] then LevelInfo
     else if t = codes ''warn'' \<or> t = codes ''warning'' then LevelWarn
     else if t = codes ''error'' then LevelError
     else LevelInfo)"

section \<open>The logger\<close>

record 'w logger =
  lgDebug :: "string \<Rightarrow> keyval list \<Rightarrow> 'w \<Rightarrow> 'w"
  lgInfo :: "string \<Rightarrow> keyval list \<Rightarrow> 'w \<Rightarrow> 'w"
  lgWarn :: "string \<Rightarrow> keyval list \<Rightarrow> 'w \<Rightarrow> 'w"
  lgError :: "string \<Rightarrow> keyval list \<Rightarrow> 'w \<Rightarrow> 'w"

record impl =
  imLevel :: level
  imFormat :: string

definition logger_New :: "level \<Rightarrow> string \<Rightarrow> impl" where
  "logger_New lv format = \<lparr>imLevel = lv, imFormat = (if format \<noteq> ''json'' then ''text'' else format)\<rparr>"

text \<open>\<open>NewFromEnv\<close> on the values of \<open>LOG_LEVEL\<close> and \<open>LOG_FORMAT\<close>; the logger also becomes \<open>Global\<close>.\<close>

definition logger_NewFromEnv :: "string \<Rightarrow> string \<Rightarrow> impl" where
  "logger_NewFromEnv env_level env_format =
     \<lparr>imLevel = parseLevel env_level,
      imFormat = (if trim_lower env_format \<noteq> codes ''json'' then ''text'' else ''json'')\<rparr>"

definition logger_Global_default :: impl where
  "logger_Global_default = \<lparr>imLevel = LevelInfo, imFormat = ''text''\<rparr>"

text \<open>The loop \<open>for i := 0; i+1 < len(keyvals); i += 2\<close>: the pairs it visits.\<close>

fun keyval_pairs :: "keyval list \<Rightarrow> (keyval \<times> keyval) list" where
  "keyval_pairs (k # v # kvs) = (k, v) # keyval_pairs kvs"
| "keyval_pairs _ = []"

text \<open>
  The two writers take their arguments as \<open>keyvals ...interface{}\<close>.  \<open>log\<close> calls them with the slice
  itself, not with \<open>keyvals...\<close>, so what they receive is a slice of one value.
\<close>

definition impl_writeText ::
  "impl \<Rightarrow> string \<Rightarrow> string \<Rightarrow> keyval list \<Rightarrow> ('c, 'r, 'k) world \<Rightarrow> ('c, 'r, 'k) world"
where
  "impl_writeText l levelStr msg keyvals w = (let (ts, w1) = time_Now w in
     w1\<lparr>wLog := LogText ts levelStr msg (keyval_pairs keyvals) # wLog w1\<rparr>)"

definition json_key :: "keyval \<Rightarrow> keyval" where
  "json_key k = (case k of KStr s \<Rightarrow> KStr s | _ \<Rightarrow> KSprint k)"

definition impl_writeJSON ::
  "impl \<Rightarrow> string \<Rightarrow> string \<Rightarrow> keyval list \<Rightarrow> ('c, 'r, 'k) world \<Rightarrow> ('c, 'r, 'k) world"
where
  "impl_writeJSON l levelStr msg keyvals w = (let (ts, w1) = time_Now w;
       m = fold (\<lambda>(k, v). AList.update (json_key k) v) (keyval_pairs keyvals)
             [(KStr ''ts'', KInt ts), (KStr ''level'', KStr levelStr), (KStr ''msg'', KStr msg)]
     in w1\<lparr>wLog := LogJSON m # wLog w1\<rparr>)"

definition impl_log ::
  "impl \<Rightarrow> level \<Rightarrow> string \<Rightarrow> string \<Rightarrow> keyval list \<Rightarrow> ('c, 'r, 'k) world \<Rightarrow> ('c, 'r, 'k) world"
where
  "impl_log l lv levelStr msg keyvals w =
     (if lv < imLevel l then w
      else if imFormat l = ''json'' then impl_writeJSON l levelStr msg [KList keyvals] w
      else impl_writeText l levelStr msg [KList keyvals] w)"

definition impl_logger :: "impl \<Rightarrow> ('c, 'r, 'k) world logger" where
  "impl_logger l = \<lparr>lgDebug = impl_log l LevelDebug ''debug'', lgInfo = impl_log l LevelInfo ''info'',
     lgWarn = impl_log l LevelWarn ''warn'', lgError = impl_log l LevelError ''error''\<rparr>"

definition nopLogger :: "'w logger" where
  "nopLogger = \<lparr>lgDebug = (\<lambda>msg keyvals w. w), lgInfo = (\<lambda>msg keyvals w. w),
     lgWarn = (\<lambda>msg keyvals w. w), lgError = (\<lambda>msg keyvals w. w)\<rparr>"

section \<open>The contract\<close>

definition log_only :: "('c, 'r, 'k) world \<Rightarrow> ('c, 'r, 'k) world \<Rightarrow> bool" where
  "log_only w w' \<longleftrightarrow> services_same w w' \<and> wMetrics w' = wMetrics w \<and> wTick w \<le> wTick w'"

lemma log_onlyD:
  assumes "log_only w w'"
  shows "wCql w' = wCql w" "wRedis w' = wRedis w" "wKafka w' = wKafka w" "wClock w' = wClock w"
    "wCancel w' = wCancel w" "wPending w' = wPending w" "wMetrics w' = wMetrics w"
    "wTick w \<le> wTick w'"
  using assms by (simp_all add: log_only_def services_same_def)

locale logger_laws =
  fixes L :: "('c, 'r, 'k) world logger"
  assumes debug_only: "log_only w (lgDebug L msg kvs w)"
    and info_only: "log_only w (lgInfo L msg kvs w)"
    and warn_only: "log_only w (lgWarn L msg kvs w)"
    and error_only: "log_only w (lgError L msg kvs w)"

lemma impl_log_only: "log_only w (impl_log l lv ls msg kvs w)"
  by (simp add: impl_log_def impl_writeText_def impl_writeJSON_def time_Now_def Let_def log_only_def
      services_same_def)

interpretation impl_logs: logger_laws "impl_logger l" for l
  by unfold_locales (simp_all add: impl_logger_def impl_log_only)

interpretation nop_logs: logger_laws nopLogger
  by unfold_locales (simp_all add: nopLogger_def log_only_def)

section \<open>What is written\<close>

text \<open>A call below the level writes nothing; any other writes one line, without its key-value pairs.\<close>

lemma impl_log_filtered: "lv < imLevel l \<Longrightarrow> impl_log l lv ls msg kvs w = w"
  by (simp add: impl_log_def)

lemma impl_log_line:
  assumes "imLevel l \<le> lv"
  shows "wLog (impl_log l lv ls msg kvs w) =
    (if imFormat l = ''json''
     then LogJSON [(KStr ''ts'', KInt (wClock w (wTick w))), (KStr ''level'', KStr ls), (KStr ''msg'', KStr msg)]
     else LogText (wClock w (wTick w)) ls msg []) # wLog w"
  using assms
  by (simp add: impl_log_def impl_writeText_def impl_writeJSON_def time_Now_def Let_def not_less [symmetric])

end
