(* ===== verification/Consumer_Api.thy ===== *)
theory Consumer_Api
  imports Engine Logger
begin

text \<open>
  The interfaces that \<open>internal/consumer/consumer.go\<close> declares for what a handler is given: the
  producer, the Bloom filter, the timeout scheduler, the delay queue and the late-arrival tracker.
  Each Go interface is a record of its methods, and each has a locale with the laws its users rely
  on; a law names the part of a service's state that the methods work on as a view.
\<close>

section \<open>Interfaces\<close>

record 'w producer =
  prProduceSync :: "string \<Rightarrow> bytes option \<Rightarrow> bytes \<Rightarrow> 'w \<Rightarrow> go_error option \<times> 'w"

record 'w bloom_checker =
  bcExists :: "bytes \<Rightarrow> 'w \<Rightarrow> bool result \<times> 'w"
  bcAdd :: "bytes \<Rightarrow> 'w \<Rightarrow> go_error option \<times> 'w"

record 'w timeout_scheduler =
  tsScheduleTimeout :: "bytes \<Rightarrow> time \<Rightarrow> 'w \<Rightarrow> go_error option \<times> 'w"

record 'w delay_publisher =
  dpSchedule :: "bytes \<Rightarrow> bytes \<Rightarrow> bytes option \<Rightarrow> time \<Rightarrow> 'w \<Rightarrow> 'w"

record 'w late_tracker =
  ltAdd :: "bytes \<Rightarrow> 'w \<Rightarrow> go_error option \<times> 'w"
  ltContains :: "bytes \<Rightarrow> 'w \<Rightarrow> bool result \<times> 'w"
  ltRemove :: "bytes \<Rightarrow> 'w \<Rightarrow> go_error option \<times> 'w"

text \<open>\<open>internal/consumer/consumer.go\<close>: one consumed message; a nil slice is \<open>None\<close>.\<close>

record message =
  rcTopic :: string
  rcKey :: "bytes option"
  rcValue :: "bytes option"
  rcHeaders :: "(string \<times> string) list"

text \<open>A message sent to the broker: topic, key, value.\<close>

type_synonym sent_message = "string \<times> bytes option \<times> bytes"

section \<open>Laws\<close>

text \<open>A produce call that fails may still have reached the broker.\<close>

locale producer_laws =
  fixes P :: "('c, 'r, 'k) world producer"
    and sent :: "'k \<Rightarrow> sent_message list"
  assumes produce_frame: "prProduceSync P topic key v w = (oe, w') \<Longrightarrow> kafka_only w w'"
    and produce_ok: "prProduceSync P topic key v w = (None, w') \<Longrightarrow>
      sent (wKafka w') = sent (wKafka w) @ [(topic, key, v)]"
    and produce_err: "prProduceSync P topic key v w = (Some e, w') \<Longrightarrow>
      sent (wKafka w') = sent (wKafka w) \<or> sent (wKafka w') = sent (wKafka w) @ [(topic, key, v)]"
begin

lemma produce_cases:
  assumes "prProduceSync P topic key v w = (oe, w')"
  shows "sent (wKafka w') = sent (wKafka w) @ [(topic, key, v)]
    \<or> oe \<noteq> None \<and> sent (wKafka w') = sent (wKafka w)"
  using assms produce_ok produce_err by (cases oe) blast+

end

text \<open>\<open>seen\<close> is the set of keys that the filter answers yes for: the keys added, and its false positives.\<close>

locale bloom_laws =
  fixes B :: "('c, 'r, 'k) world bloom_checker"
    and seen :: "'r \<Rightarrow> bytes set"
  assumes exists_frame: "bcExists B h w = (br, w') \<Longrightarrow> redis_only w w' \<and> seen (wRedis w') = seen (wRedis w)"
    and exists_ok: "bcExists B h w = (Inr b, w') \<Longrightarrow> b = (h \<in> seen (wRedis w))"
    and add_frame: "bcAdd B h w = (oe, w') \<Longrightarrow> redis_only w w'"
    and add_ok: "bcAdd B h w = (None, w') \<Longrightarrow> insert h (seen (wRedis w)) \<subseteq> seen (wRedis w')"
    and add_err: "bcAdd B h w = (Some e, w') \<Longrightarrow> seen (wRedis w) \<subseteq> seen (wRedis w')"
begin

lemma add_mono: "bcAdd B h w = (oe, w') \<Longrightarrow> seen (wRedis w) \<subseteq> seen (wRedis w')"
  using add_ok [of h w w'] add_err [of h w _ w'] by (cases oe) auto

text \<open>A key that was added is never denied, whatever else is added later.\<close>

lemma seen_stays: "h \<in> seen (wRedis w) \<Longrightarrow> h \<in> seen (wRedis (fold (\<lambda>x w. snd (bcAdd B x w)) hs w))"
proof (induction hs arbitrary: w)
  case Nil
  then show ?case by simp
next
  case (Cons x hs)
  from add_mono [of x w "fst (bcAdd B x w)" "snd (bcAdd B x w)"] Cons.prems
  have "h \<in> seen (wRedis (snd (bcAdd B x w)))" by auto
  with Cons.IH show ?case by simp
qed

lemma add_then_exists:
  assumes "bcAdd B h w = (None, w1)" and "bcExists B h w1 = (Inr b, w2)"
  shows b
  using add_ok [OF assms(1)] exists_ok [OF assms(2)] by simp

end

text \<open>The tracker is an exact set.\<close>

locale tracker_laws =
  fixes T :: "('c, 'r, 'k) world late_tracker"
    and tracked :: "'r \<Rightarrow> bytes set"
  assumes add_frame: "ltAdd T h w = (oe, w') \<Longrightarrow> redis_only w w'"
    and add_ok: "ltAdd T h w = (None, w') \<Longrightarrow> tracked (wRedis w') = insert h (tracked (wRedis w))"
    and add_err: "ltAdd T h w = (Some e, w') \<Longrightarrow>
      tracked (wRedis w') = tracked (wRedis w) \<or> tracked (wRedis w') = insert h (tracked (wRedis w))"
    and contains_frame: "ltContains T h w = (br, w') \<Longrightarrow>
      redis_only w w' \<and> tracked (wRedis w') = tracked (wRedis w)"
    and contains_ok: "ltContains T h w = (Inr b, w') \<Longrightarrow> b = (h \<in> tracked (wRedis w))"
    and remove_frame: "ltRemove T h w = (oe, w') \<Longrightarrow> redis_only w w'"
    and remove_ok: "ltRemove T h w = (None, w') \<Longrightarrow> tracked (wRedis w') = tracked (wRedis w) - {h}"
    and remove_err: "ltRemove T h w = (Some e, w') \<Longrightarrow>
      tracked (wRedis w') = tracked (wRedis w) \<or> tracked (wRedis w') = tracked (wRedis w) - {h}"
begin

lemma add_then_contains:
  assumes "ltAdd T h w = (None, w1)" and "ltContains T x w1 = (Inr b, w2)"
  shows "b \<longleftrightarrow> x = h \<or> x \<in> tracked (wRedis w)"
  using add_ok [OF assms(1)] contains_ok [OF assms(2)] by auto

lemma remove_then_contains:
  assumes "ltRemove T h w = (None, w1)" and "ltContains T x w1 = (Inr b, w2)"
  shows "b \<longleftrightarrow> x \<noteq> h \<and> x \<in> tracked (wRedis w)"
  using remove_ok [OF assms(1)] contains_ok [OF assms(2)] by auto

end

text \<open>The scheduler keeps one deadline per key, the last one given, in whole seconds as a \<open>float64\<close>.\<close>

definition f64_int :: "int \<Rightarrow> f64" where
  "f64_int i = (case f64_of_int i of Some x \<Rightarrow> x | None \<Rightarrow> F64 (i < 0) 0 (- 1074))"

locale scheduler_laws =
  fixes M :: "('c, 'r, 'k) world timeout_scheduler"
    and deadlines :: "'r \<Rightarrow> bytes \<rightharpoonup> f64"
  assumes schedule_frame: "tsScheduleTimeout M h d w = (oe, w') \<Longrightarrow> redis_only w w'"
    and schedule_ok: "tsScheduleTimeout M h d w = (None, w') \<Longrightarrow>
      deadlines (wRedis w') = (deadlines (wRedis w))(h \<mapsto> f64_int (time_Unix d))"
    and schedule_err: "tsScheduleTimeout M h d w = (Some e, w') \<Longrightarrow>
      deadlines (wRedis w') = deadlines (wRedis w)
      \<or> deadlines (wRedis w') = (deadlines (wRedis w))(h \<mapsto> f64_int (time_Unix d))"

text \<open>Scheduling a delayed publication stores it somewhere, and neither publishes nor deletes.\<close>

locale delay_laws =
  fixes D :: "('c, 'r, 'k) world delay_publisher"
  assumes delay_frame: "w' = dpSchedule D h j k at w \<Longrightarrow>
    wCql w' = wCql w \<and> wKafka w' = wKafka w \<and> wClock w' = wClock w \<and> wCancel w' = wCancel w"

end
