(* ===== verification/Bloom.thy ===== *)
theory Bloom
  imports Consumer_Api
begin

text \<open>
  \<open>internal/bloom/redis.go\<close>: the Bloom filter of the join keys that have arrived, kept in Redis under
  the hexadecimal form of the key hashes.
\<close>

record filter =
  flKey :: string

definition bloom_New :: "string \<Rightarrow> filter" where
  "bloom_New filterKey = \<lparr>flKey = filterKey\<rparr>"

definition Filter_Exists ::
  "('c, 'r, 'k) ext \<Rightarrow> filter \<Rightarrow> bytes \<Rightarrow> ('c, 'r, 'k) world \<Rightarrow> bool result \<times> ('c, 'r, 'k) world"
where
  "Filter_Exists X f keyHash w =
     (let item = hex_EncodeToString keyHash;
          (v, w1) = on_redis (bf_exists X (flKey f) item) w
      in case v of
           Inl err \<Rightarrow> (Inl (ErrWrap ''bloom exists: %w'' [] err), w1)
         | Inr b \<Rightarrow> (Inr b, w1))"

definition Filter_Add ::
  "('c, 'r, 'k) ext \<Rightarrow> filter \<Rightarrow> bytes \<Rightarrow> ('c, 'r, 'k) world \<Rightarrow> go_error option \<times> ('c, 'r, 'k) world"
where
  "Filter_Add X f keyHash w =
     (let item = hex_EncodeToString keyHash;
          (err, w1) = on_redis (bf_add X (flKey f) item) w
      in case err of
           Some e \<Rightarrow> (Some (ErrWrap ''bloom add: %w'' [] e), w1)
         | None \<Rightarrow> (None, w1))"

text \<open>The text of an error of the server (\<open>err.Error()\<close>) is the name of the sentinel.\<close>

definition item_exists :: go_error where
  "item_exists = ErrSentinel ''ERR item exists''"

definition Filter_Reserve ::
  "('c, 'r, 'k) ext \<Rightarrow> filter \<Rightarrow> nat \<Rightarrow> f64 \<Rightarrow> ('c, 'r, 'k) world \<Rightarrow>
   go_error option \<times> ('c, 'r, 'k) world"
where
  "Filter_Reserve X f capacity errorRate w =
     (let (err, w1) = on_redis (bf_reserve X (flKey f) errorRate capacity) w
      in case err of
           Some e \<Rightarrow> if e \<noteq> item_exists then (Some (ErrWrap ''bloom reserve: %w'' [] e), w1) else (None, w1)
         | None \<Rightarrow> (None, w1))"

definition bloom_iface :: "('c, 'r, 'k) ext \<Rightarrow> filter \<Rightarrow> ('c, 'r, 'k) world bloom_checker" where
  "bloom_iface X f = \<lparr>bcExists = Filter_Exists X f, bcAdd = Filter_Add X f\<rparr>"

text \<open>The keys a filter answers yes for.\<close>

definition bloom_seen :: "('r \<Rightarrow> string \<Rightarrow> redis_value) \<Rightarrow> filter \<Rightarrow> 'r \<Rightarrow> bytes set" where
  "bloom_seen db f r = {h. hex_EncodeToString h \<in> r_bloom (db r (flKey f))}"

lemma r_value_simps [simp]:
  "r_bloom (RBloom s) = s" "r_set (RSet s) = s" "r_zset (RZSet m) = m"
  by (simp_all add: r_bloom_def r_set_def r_zset_def)

text \<open>Different filters, and other keys, are left alone.\<close>

context redis_server
begin

lemma Filter_Exists_same:
  "Filter_Exists X f h w = (br, w') \<Longrightarrow> redis_only w w' \<and> db (wRedis w') = db (wRedis w)"
  by (auto simp: Filter_Exists_def on_redis_def redis_only_def Let_def
      split: prod.splits sum.splits dest: bf_exists_frame)

lemma Filter_Add_effect:
  assumes "Filter_Add X f h w = (oe, w')"
  shows "redis_only w w'"
    and "(\<exists>S. r_bloom (db (wRedis w) (flKey f)) \<subseteq> S \<and> (oe = None \<longrightarrow> hex_EncodeToString h \<in> S)
        \<and> db (wRedis w') = (db (wRedis w))(flKey f := RBloom S))
      \<or> oe \<noteq> None \<and> db (wRedis w') = db (wRedis w)"
proof -
  obtain o1 r' where b: "bf_add X (flKey f) (hex_EncodeToString h) (wRedis w) = (o1, r')" by fastforce
  then have e: "w' = w\<lparr>wRedis := r'\<rparr>" "(oe = None) = (o1 = None)"
    using assms by (auto simp: Filter_Add_def on_redis_def split: option.splits)
  then show "redis_only w w'" by (simp add: redis_only_def)
  show "(\<exists>S. r_bloom (db (wRedis w) (flKey f)) \<subseteq> S \<and> (oe = None \<longrightarrow> hex_EncodeToString h \<in> S)
        \<and> db (wRedis w') = (db (wRedis w))(flKey f := RBloom S))
      \<or> oe \<noteq> None \<and> db (wRedis w') = db (wRedis w)"
  proof (cases o1)
    case None
    from bf_add_ok [OF b [unfolded None]] e None show ?thesis by auto
  next
    case (Some err)
    from bf_add_err [OF b [unfolded Some]] e Some show ?thesis by auto
  qed
qed

lemma bloom_keeps_contract: "bloom_laws (bloom_iface X f) (bloom_seen db f)"
proof -
  have eff: "bloom_seen db f (wRedis w) \<subseteq> bloom_seen db f (wRedis w')
      \<and> (x = None \<longrightarrow> h \<in> bloom_seen db f (wRedis w'))"
    if "Filter_Add X f h w = (x, w')" for x h and w w' :: "('c, 'r, 'k) world"
    using Filter_Add_effect(2) [OF that] by (auto simp: bloom_seen_def)
  have ex: "b = (h \<in> bloom_seen db f (wRedis w))"
    if "Filter_Exists X f h w = (Inr b, w')" for b h and w w' :: "('c, 'r, 'k) world"
    using that
    by (auto simp: bloom_seen_def Filter_Exists_def on_redis_def Let_def
        split: prod.splits sum.splits dest: bf_exists_ok)
  show ?thesis
  proof (unfold_locales, goal_cases)
    case (1 h w br w')
    then show ?case using Filter_Exists_same [of f h w br w'] by (simp add: bloom_iface_def bloom_seen_def)
  next
    case (2 h w b w')
    then show ?case using ex [of h w b w'] by (simp add: bloom_iface_def)
  next
    case (3 h w oe w')
    then show ?case by (simp add: bloom_iface_def Filter_Add_effect(1))
  next
    case (4 h w w')
    then show ?case using eff [of h w None w'] by (simp add: bloom_iface_def)
  next
    case (5 h w e w')
    then show ?case using eff [of h w "Some e" w'] by (simp add: bloom_iface_def)
  qed
qed

end

end
