(* ===== verification/Egress.thy ===== *)
theory Egress
  imports Bloom
begin

text \<open>
  \<open>internal/egress\<close>: the tracker of the keys that had a partial result published
  (\<open>partial_tracker.go\<close>), and the correction event sent when data arrives after that
  (\<open>correction.go\<close>), with its JSON form.
\<close>

section \<open>RedisPartialTracker\<close>

record partial_tracker =
  ptKey :: string

definition defaultPartialSetKey :: string where
  "defaultPartialSetKey = ''omni_joiner:partial''"

definition NewRedisPartialTracker :: "string \<Rightarrow> partial_tracker" where
  "NewRedisPartialTracker setKey = \<lparr>ptKey = (if setKey = '''' then defaultPartialSetKey else setKey)\<rparr>"

definition Tracker_Add ::
  "('c, 'r, 'k) ext \<Rightarrow> partial_tracker \<Rightarrow> bytes \<Rightarrow> ('c, 'r, 'k) world \<Rightarrow>
   go_error option \<times> ('c, 'r, 'k) world"
where
  "Tracker_Add X r joinKeyHash w =
     (let member = hex_EncodeToString joinKeyHash;
          (err, w1) = on_redis (set_add X (ptKey r) member) w
      in case err of
           Some e \<Rightarrow> (Some (ErrWrap ''partial tracker add: %w'' [] e), w1)
         | None \<Rightarrow> (None, w1))"

definition Tracker_Contains ::
  "('c, 'r, 'k) ext \<Rightarrow> partial_tracker \<Rightarrow> bytes \<Rightarrow> ('c, 'r, 'k) world \<Rightarrow>
   bool result \<times> ('c, 'r, 'k) world"
where
  "Tracker_Contains X r joinKeyHash w =
     (let member = hex_EncodeToString joinKeyHash;
          (v, w1) = on_redis (set_ismember X (ptKey r) member) w
      in case v of
           Inl err \<Rightarrow> (Inl (ErrWrap ''partial tracker contains: %w'' [] err), w1)
         | Inr ok \<Rightarrow> (Inr ok, w1))"

definition Tracker_Remove ::
  "('c, 'r, 'k) ext \<Rightarrow> partial_tracker \<Rightarrow> bytes \<Rightarrow> ('c, 'r, 'k) world \<Rightarrow>
   go_error option \<times> ('c, 'r, 'k) world"
where
  "Tracker_Remove X r joinKeyHash w =
     (let member = hex_EncodeToString joinKeyHash;
          (err, w1) = on_redis (set_rem X (ptKey r) member) w
      in case err of
           Some e \<Rightarrow> (Some (ErrWrap ''partial tracker remove: %w'' [] e), w1)
         | None \<Rightarrow> (None, w1))"

definition tracker_iface :: "('c, 'r, 'k) ext \<Rightarrow> partial_tracker \<Rightarrow> ('c, 'r, 'k) world late_tracker" where
  "tracker_iface X r = \<lparr>ltAdd = Tracker_Add X r, ltContains = Tracker_Contains X r, ltRemove = Tracker_Remove X r\<rparr>"

definition tracked_keys :: "('r \<Rightarrow> string \<Rightarrow> redis_value) \<Rightarrow> partial_tracker \<Rightarrow> 'r \<Rightarrow> bytes set" where
  "tracked_keys db p r = {h. hex_EncodeToString h \<in> r_set (db r (ptKey p))}"

context redis_server
begin

lemma Tracker_Contains_same:
  "Tracker_Contains X p h w = (br, w') \<Longrightarrow> redis_only w w' \<and> db (wRedis w') = db (wRedis w)"
  by (auto simp: Tracker_Contains_def on_redis_def redis_only_def Let_def
      split: prod.splits sum.splits dest: set_ismember_frame)

lemma Tracker_Add_effect:
  assumes "Tracker_Add X p h w = (oe, w')"
  shows "redis_only w w'"
    and "db (wRedis w') = (db (wRedis w))(ptKey p :=
        RSet (insert (hex_EncodeToString h) (r_set (db (wRedis w) (ptKey p)))))
      \<or> oe \<noteq> None \<and> db (wRedis w') = db (wRedis w)"
  using assms
  by (auto simp: Tracker_Add_def on_redis_def redis_only_def Let_def
      split: prod.splits option.splits dest: set_add_ok set_add_err)

lemma Tracker_Remove_effect:
  assumes "Tracker_Remove X p h w = (oe, w')"
  shows "redis_only w w'"
    and "db (wRedis w') = (db (wRedis w))(ptKey p :=
        RSet (r_set (db (wRedis w) (ptKey p)) - {hex_EncodeToString h}))
      \<or> oe \<noteq> None \<and> db (wRedis w') = db (wRedis w)"
  using assms
  by (auto simp: Tracker_Remove_def on_redis_def redis_only_def Let_def
      split: prod.splits option.splits dest: set_rem_ok set_rem_err)

lemma tracker_keeps_contract: "tracker_laws (tracker_iface X p) (tracked_keys db p)"
proof -
  have a: "tracked_keys db p (wRedis w') = insert h (tracked_keys db p (wRedis w))
      \<or> x \<noteq> None \<and> tracked_keys db p (wRedis w') = tracked_keys db p (wRedis w)"
    if "Tracker_Add X p h w = (x, w')" for x h and w w' :: "('c, 'r, 'k) world"
    using Tracker_Add_effect(2) [OF that] by (auto simp: tracked_keys_def hex_inject)
  have r: "tracked_keys db p (wRedis w') = tracked_keys db p (wRedis w) - {h}
      \<or> x \<noteq> None \<and> tracked_keys db p (wRedis w') = tracked_keys db p (wRedis w)"
    if "Tracker_Remove X p h w = (x, w')" for x h and w w' :: "('c, 'r, 'k) world"
    using Tracker_Remove_effect(2) [OF that] by (auto simp: tracked_keys_def hex_inject)
  have c: "b = (h \<in> tracked_keys db p (wRedis w))"
    if "Tracker_Contains X p h w = (Inr b, w')" for b h and w w' :: "('c, 'r, 'k) world"
    using that
    by (auto simp: tracked_keys_def Tracker_Contains_def on_redis_def Let_def
        split: prod.splits sum.splits dest: set_ismember_ok)
  have same: "tracked_keys db p (wRedis w') = tracked_keys db p (wRedis w)"
    if "Tracker_Contains X p h w = (b, w')" for b h and w w' :: "('c, 'r, 'k) world"
    using Tracker_Contains_same [OF that] by (simp add: tracked_keys_def)
  note [simp] = tracker_iface_def
  show ?thesis
  proof (unfold_locales, goal_cases)
    case (1 h w oe w')
    then show ?case by (simp add: Tracker_Add_effect(1))
  next
    case (2 h w w')
    then show ?case using a [of h w None w'] by simp
  next
    case (3 h w e w')
    then show ?case using a [of h w "Some e" w'] by auto
  next
    case (4 h w br w')
    then show ?case using Tracker_Contains_same [of p h w br w'] same [of h w br w'] by simp
  next
    case (5 h w b w')
    then show ?case using c [of h w b w'] by simp
  next
    case (6 h w oe w')
    then show ?case by (simp add: Tracker_Remove_effect(1))
  next
    case (7 h w w')
    then show ?case using r [of h w None w'] by simp
  next
    case (8 h w e w')
    then show ?case using r [of h w "Some e" w'] by auto
  qed
qed

end

section \<open>Timestamps as JSON\<close>

text \<open>The civil date of a day counted from 1970-01-01: year, month, day.\<close>

definition civil_from_days :: "int \<Rightarrow> int \<times> int \<times> int" where
  "civil_from_days z0 =
     (let z = z0 + 719468; era = z div 146097; doe = z mod 146097;
          yoe = (doe - doe div 1460 + doe div 36524 - doe div 146096) div 365;
          doy = doe - (365 * yoe + yoe div 4 - yoe div 100);
          mp = (5 * doy + 2) div 153;
          d = doy - (153 * mp + 2) div 5 + 1;
          m = (if mp < 10 then mp + 3 else mp - 9)
      in (yoe + era * 400 + (if m \<le> 2 then 1 else 0), m, d))"

definition pad_int :: "nat \<Rightarrow> int \<Rightarrow> string" where
  "pad_int n i = (let s = int_string i in replicate (n - length s) (CHR ''0'') @ s)"

text \<open>The fraction of a second, without trailing zeros.\<close>

definition frac_text :: "int \<Rightarrow> string" where
  "frac_text ns = (if ns = 0 then []
     else CHR ''.'' # rev (dropWhile (\<lambda>c. c = CHR ''0'') (rev (pad_int 9 ns))))"

definition zone_text :: "int \<Rightarrow> string" where
  "zone_text off = (if off = 0 then ''Z''
     else (let m = \<bar>off\<bar> div 60 in
       (if off < 0 then ''-'' else ''+'') @ pad_int 2 (m div 60) @ '':'' @ pad_int 2 (m mod 60)))"

text \<open>\<open>Time.MarshalJSON\<close>: RFC 3339 with nanoseconds, for years of four digits and offsets within a day.\<close>

definition time_MarshalJSON :: "int \<Rightarrow> time \<Rightarrow> bytes result" where
  "time_MarshalJSON off t =
     (let l = t div ns_second + off; (y, m, d) = civil_from_days (l div 86400); s = l mod 86400
      in if y < 0 \<or> 9999 < y then Inl (ErrFmt ''Time.MarshalJSON: year outside of range [0,9999]'' [])
         else if 24 \<le> \<bar>off\<bar> div 60 div 60 then
           Inl (ErrFmt ''Time.MarshalJSON: timezone hour outside of range [0,23]'' [])
         else Inr (dquote # pad_int 4 y @ ''-'' @ pad_int 2 m @ ''-'' @ pad_int 2 d @ ''T''
           @ pad_int 2 (s div 3600) @ '':'' @ pad_int 2 (s div 60 mod 60) @ '':'' @ pad_int 2 (s mod 60)
           @ frac_text (t mod ns_second) @ zone_text off @ [dquote]))"

section \<open>Raw messages\<close>

text \<open>
  \<open>compact\<close>: white space outside strings is dropped, and the characters that HTML or JavaScript would
  misread are escaped.  \<open>ins\<close>: inside a string; \<open>esc\<close>: after a backslash.
\<close>

definition line_separator :: "string \<Rightarrow> bool" where
  "line_separator s \<longleftrightarrow> take 2 s = [CHR 0xE2, CHR 0x80] \<and> (take 1 (drop 2 s) = [CHR 0xA8] \<or> take 1 (drop 2 s) = [CHR 0xA9])"

function compact_bytes :: "bool \<Rightarrow> bool \<Rightarrow> string \<Rightarrow> string" where
  "compact_bytes ins esc [] = []"
| "compact_bytes ins esc (c # cs) =
     (if c = CHR ''<'' \<or> c = CHR ''>'' \<or> c = CHR ''&''
      then bslash # ''u00'' @ [hexlow (of_char c div 16), hexlow (of_char c)] @ compact_bytes ins False cs
      else if line_separator (c # cs)
      then bslash # ''u202'' @ hexlow (of_char (cs ! 1)) # compact_bytes ins False (drop 2 cs)
      else if ins then c # compact_bytes (esc \<or> c \<noteq> dquote) (\<not> esc \<and> c = bslash) cs
      else if is_ws c then compact_bytes False False cs
      else c # compact_bytes (c = dquote) False cs)"
  by pat_completeness auto
termination
  by (relation "measure (\<lambda>(_, _, s). length s)") auto

text \<open>\<open>RawMessage.MarshalJSON\<close> within \<open>Marshal\<close>: \<open>null\<close> for a nil message, otherwise checked and compacted.\<close>

definition raw_Marshal :: "bytes option \<Rightarrow> bytes result" where
  "raw_Marshal ob = (case ob of None \<Rightarrow> Inr ''null''
     | Some b \<Rightarrow> (case json_parse b of
         Inl err \<Rightarrow> Inl (ErrWrap ''json: error calling MarshalJSON for type json.RawMessage: %w'' [] err)
       | Inr _ \<Rightarrow> Inr (compact_bytes False False b)))"

section \<open>CorrectionEvent\<close>

definition KindPartial :: string where "KindPartial = ''partial''"
definition KindFull :: string where "KindFull = ''full''"
definition KindLate :: string where "KindLate = ''late''"

record correction_event =
  ceKind :: string
  ceJoinKey :: string
  ceTimestamp :: time
  cePayload :: "bytes option"

definition CorrectionEvent_Marshal :: "('c, 'r, 'k) ext \<Rightarrow> correction_event \<Rightarrow> bytes result" where
  "CorrectionEvent_Marshal X c =
     (case time_MarshalJSON (tz_offset X (ceTimestamp c)) (ceTimestamp c) of
        Inl err \<Rightarrow> Inl (ErrWrap ''json: error calling MarshalJSON for type time.Time: %w'' [] err)
      | Inr ts \<Rightarrow> (case raw_Marshal (cePayload c) of
            Inl err \<Rightarrow> Inl err
          | Inr p \<Rightarrow> Inr (json_object_text
              [(''kind'', json_quote (ceKind c)), (''join_key'', json_quote (ceJoinKey c)),
               (''timestamp'', ts), (''payload'', p)])))"

end
