(* ===== verification/Consumer.thy ===== *)
theory Consumer
  imports Egress
begin

text \<open>
  \<open>internal/consumer/consumer.go\<close>: the handling of one message.  \<open>Handle\<close> is split at its early
  returns: \<open>Handle_bloom\<close> is the first-arrival block, \<open>Handle_late\<close> the late-arrival block,
  \<open>Handle_publish\<close> the block that publishes a completed join.  A block that returns gives
  \<open>Returns err\<close>, one that falls through gives \<open>Falls\<close>.
\<close>

section \<open>Types and resolvers\<close>

record 'w handler =
  hStore :: "'w state_store"
  hJoinCfg :: join_config
  hEngine :: engine
  hProducer :: "'w producer option"
  hEgressTopic :: string
  hBloom :: "'w bloom_checker option"
  hTimeoutSched :: "'w timeout_scheduler option"
  hDelayQueue :: "'w delay_publisher option"
  hLateTracker :: "'w late_tracker option"
  hCorrectionsTopic :: string
  hLog :: "'w logger"

text \<open>\<open>global\<close> is the value of \<open>logger.Global\<close>.\<close>

definition NewHandler ::
  "'w logger \<Rightarrow> 'w state_store \<Rightarrow> join_config \<Rightarrow> 'w producer option \<Rightarrow> string \<Rightarrow> 'w bloom_checker option \<Rightarrow>
   'w timeout_scheduler option \<Rightarrow> 'w delay_publisher option \<Rightarrow> 'w late_tracker option \<Rightarrow> string \<Rightarrow>
   'w logger option \<Rightarrow> 'w handler"
where
  "NewHandler global stateStore joinCfg producer egressTopic bloom timeoutSched delayQueue lateTracker
      correctionsTopic log =
     \<lparr>hStore = stateStore, hJoinCfg = joinCfg, hEngine = engine_New joinCfg, hProducer = producer,
      hEgressTopic = egressTopic, hBloom = bloom, hTimeoutSched = timeoutSched,
      hDelayQueue = delayQueue, hLateTracker = lateTracker, hCorrectionsTopic = correctionsTopic,
      hLog = (case log of None \<Rightarrow> global | Some l \<Rightarrow> l)\<rparr>"

definition streamIDHeader :: string where "streamIDHeader = ''x-stream-id''"
definition configIDHeader :: string where "configIDHeader = ''x-config-id''"

text \<open>The first header of that name; Kafka allows repeated headers.\<close>

fun find_header :: "string \<Rightarrow> (string \<times> string) list \<Rightarrow> string option" where
  "find_header name [] = None"
| "find_header name ((k, v) # hs) = (if k = name then Some v else find_header name hs)"

definition getStreamID :: "message \<Rightarrow> string result" where
  "getStreamID rec = (case find_header streamIDHeader (rcHeaders rec) of
      Some v \<Rightarrow> Inr v
    | None \<Rightarrow> Inl (ErrFmt ''missing header %q'' [FStr streamIDHeader]))"

definition getConfigID :: "('c, 'r, 'k) ext \<Rightarrow> message \<Rightarrow> uuid result" where
  "getConfigID X rec = (case find_header configIDHeader (rcHeaders rec) of
      Some v \<Rightarrow> uuid_Parse X v
    | None \<Rightarrow> Inl (ErrFmt ''missing header %q'' [FStr configIDHeader]))"

type_synonym 'w resolver = "message \<Rightarrow> 'w handler result"

definition HandlerResolverFromSingle :: "'w handler \<Rightarrow> 'w resolver" where
  "HandlerResolverFromSingle h = (\<lambda>_. Inr h)"

definition HandlerResolverFromMap :: "('c, 'r, 'k) ext \<Rightarrow> (uuid \<rightharpoonup> 'w handler) \<Rightarrow> 'w resolver" where
  "HandlerResolverFromMap X handlersByConfigID = (\<lambda>rec.
     case getConfigID X rec of
       Inl err \<Rightarrow> Inl err
     | Inr configID \<Rightarrow> (case handlersByConfigID configID of
           None \<Rightarrow> Inl (ErrFmt ''unknown config_id %s'' [FStr configID])
         | Some h \<Rightarrow> Inr h))"

definition recordFromKgo :: "kgo_record \<Rightarrow> message" where
  "recordFromKgo rec = \<lparr>rcTopic = krTopic rec, rcKey = krKey rec, rcValue = krValue rec,
     rcHeaders = map (\<lambda>(k, v). (k, v)) (krHeaders rec)\<rparr>"

section \<open>The key of a message\<close>

definition extractKey :: "join_config \<Rightarrow> bytes option \<Rightarrow> (bytes \<times> string) result" where
  "extractKey joinCfg payload =
     (case json_Unmarshal_map (case payload of None \<Rightarrow> [] | Some b \<Rightarrow> b) of
        Inl err \<Rightarrow> Inl err
      | Inr m \<Rightarrow>
          if kdField (cfgKey joinCfg) \<noteq> '''' then
            Inr (CompositeKey
              (case gm_get m (kdField (cfgKey joinCfg)) of Some (JStr v) \<Rightarrow> v | _ \<Rightarrow> '''') [])
          else Inr (KeyFromFields (kdFields (cfgKey joinCfg)) m))"

section \<open>Handle\<close>

datatype flow = Returns "go_error option" | Falls

definition Handler_publishTo ::
  "'w handler \<Rightarrow> string \<Rightarrow> bytes \<Rightarrow> bytes option \<Rightarrow> 'w \<Rightarrow> go_error option \<times> 'w"
where
  "Handler_publishTo h topic v key w = (case hProducer h of
      None \<Rightarrow> (None, w)
    | Some p \<Rightarrow> prProduceSync p topic key v w)"

definition Handler_publish :: "'w handler \<Rightarrow> bytes \<Rightarrow> bytes option \<Rightarrow> 'w \<Rightarrow> go_error option \<times> 'w" where
  "Handler_publish h v key w = Handler_publishTo h (hEgressTopic h) v key w"

definition Handle_bloom ::
  "('c, 'r, 'k) world handler \<Rightarrow> string \<Rightarrow> bytes \<Rightarrow> string \<Rightarrow> bytes \<Rightarrow> ('c, 'r, 'k) world \<Rightarrow>
   flow \<times> ('c, 'r, 'k) world"
where
  "Handle_bloom h streamID joinKeyHash joinKeyRaw payload w = (case hBloom h of
      None \<Rightarrow> (Falls, w)
    | Some bloom \<Rightarrow>
        (case bcExists bloom joinKeyHash w of
           (Inl err, w1) \<Rightarrow> (Returns (Some (ErrWrap ''bloom exists: %w'' [] err)), w1)
         | (Inr True, w1) \<Rightarrow> (Falls, w1)
         | (Inr False, w1) \<Rightarrow>
             (case ssUpsertParticipantOnly (hStore h) joinKeyHash joinKeyRaw (ConfigID (hJoinCfg h))
                     streamID payload w1 of
                (Some err, w2) \<Rightarrow> (Returns (Some (ErrWrap ''upsert participant only: %w'' [] err)), w2)
              | (None, w2) \<Rightarrow>
                  (case bcAdd bloom joinKeyHash w2 of
                     (Some err, w3) \<Rightarrow> (Returns (Some (ErrWrap ''bloom add: %w'' [] err)), w3)
                   | (None, w3) \<Rightarrow>
                       (case hTimeoutSched h of
                          None \<Rightarrow> (Returns None, w3)
                        | Some timeoutSched \<Rightarrow>
                            let ttl = cfgTTL (hJoinCfg h) in
                            if ttl > 0 then
                              (let (now, w4) = time_Now w3;
                                   (_, w5) = tsScheduleTimeout timeoutSched joinKeyHash (now + ttl) w4
                               in (Returns None, w5))
                            else (Returns None, w3))))))"

definition Handle_late ::
  "('c, 'r, 'k) ext \<Rightarrow> ('c, 'r, 'k) world handler \<Rightarrow> bytes \<Rightarrow> join_state option \<Rightarrow>
   ('c, 'r, 'k) world \<Rightarrow> flow \<times> ('c, 'r, 'k) world"
where
  "Handle_late X h joinKeyHash state w = (case (state, hLateTracker h) of
      (Some st, Some lateTracker) \<Rightarrow>
        if int (length (ParticipantData st)) < join_N (hJoinCfg h) \<and> hCorrectionsTopic h \<noteq> '''' then
          (let (r, w1) = ltContains lateTracker joinKeyHash w;
               ok = (case r of Inl _ \<Rightarrow> False | Inr b \<Rightarrow> b)
           in if ok then
                (case projection_Apply (ParticipantData st) (Projection (hJoinCfg h)) of
                   Inl err \<Rightarrow> (Returns (Some err), w1)
                 | Inr partial \<Rightarrow>
                     let (now, w2) = time_Now w1;
                         corr = \<lparr>ceKind = KindLate, ceJoinKey = JoinKeyRaw st, ceTimestamp = now,
                                 cePayload = Some partial\<rparr>
                     in (case CorrectionEvent_Marshal X corr of
                           Inl err \<Rightarrow> (Returns (Some (ErrWrap ''marshal correction event: %w'' [] err)), w2)
                         | Inr corrBytes \<Rightarrow>
                             let (perr, w3) = Handler_publishTo h (hCorrectionsTopic h) corrBytes
                                    (Some joinKeyHash) w2;
                                 w4 = (case perr of
                                     None \<Rightarrow> w3
                                   | Some err \<Rightarrow> metric (Inc EgressFailuresTotal [cfgName (hJoinCfg h), ''correction''])
                                       (lgWarn (hLog h) ''late-arrival correction publish failed''
                                          [KStr ''config'', KStr (cfgName (hJoinCfg h)), KStr ''error'', KErr err] w3));
                                 (_, w5) = ltRemove lateTracker joinKeyHash w4;
                                 (_, w6) = ssDeleteState (hStore h) joinKeyHash w5
                             in (Returns None, w6)))
              else (Falls, w1))
        else (Falls, w)
    | _ \<Rightarrow> (Falls, w))"

text \<open>The zero \<open>time.Time\<close>, and the loop for the oldest arrival.\<close>

definition time_zero :: time where
  "time_zero = - 62135596800 * ns_second"

fun oldest_loop :: "time \<Rightarrow> bool \<Rightarrow> time gomap \<Rightarrow> time \<times> bool" where
  "oldest_loop oldest is_first [] = (oldest, is_first)"
| "oldest_loop oldest is_first ((_, t) # ts) =
     (if is_first \<or> t < oldest then oldest_loop t False ts else oldest_loop oldest is_first ts)"

definition observe_state_age ::
  "('c, 'r, 'k) world handler \<Rightarrow> join_state option \<Rightarrow> ('c, 'r, 'k) world \<Rightarrow> ('c, 'r, 'k) world"
where
  "observe_state_age h state w = (case state of
      None \<Rightarrow> w
    | Some st \<Rightarrow>
        if length (ArrivalTimestamps st) > 0 then
          (let (oldest, is_first) = oldest_loop time_zero True (ArrivalTimestamps st) in
           if \<not> is_first then
             (let (now, w1) = time_Now w
              in metric (Observe StateAgeSeconds [cfgName (hJoinCfg h)] (time_Sub now oldest)) w1)
           else w)
        else w)"

definition Handle_publish ::
  "('c, 'r, 'k) world handler \<Rightarrow> message \<Rightarrow> bytes \<Rightarrow> join_state option \<Rightarrow> time \<Rightarrow> bytes \<Rightarrow>
   ('c, 'r, 'k) world \<Rightarrow> go_error option \<times> ('c, 'r, 'k) world"
where
  "Handle_publish h rec joinKeyHash state joinStart joinedBytes w =
     (let delay = PostJoinDelay (hJoinCfg h); name = cfgName (hJoinCfg h) in
      case (if delay > 0 then hDelayQueue h else None) of
        Some delayQueue \<Rightarrow>
          (let (now, w1) = time_Now w
           in (None, dpSchedule delayQueue joinKeyHash joinedBytes (rcKey rec) (now + delay) w1))
      | None \<Rightarrow>
          (case Handler_publish h joinedBytes (rcKey rec) w of
             (Some err, w1) \<Rightarrow> (Some err, metric (Inc EgressFailuresTotal [name, ''main'']) w1)
           | (None, w1) \<Rightarrow>
               let w2 = metric (Inc JoinSuccessTotal [name]) w1;
                   (now, w3) = time_Now w2;
                   w4 = metric (Observe JoinLatencySeconds [name] (time_Sub now joinStart)) w3;
                   w5 = observe_state_age h state w4
               in (case ssDeleteState (hStore h) joinKeyHash w5 of
                     (Some err, w6) \<Rightarrow> (Some (ErrWrap ''delete state after egress: %w'' [] err), w6)
                   | (None, w6) \<Rightarrow> (None, w6))))"

definition Handle_join ::
  "('c, 'r, 'k) ext \<Rightarrow> ('c, 'r, 'k) world handler \<Rightarrow> message \<Rightarrow> string \<Rightarrow> bytes \<Rightarrow> string \<Rightarrow> bytes \<Rightarrow>
   ('c, 'r, 'k) world \<Rightarrow> go_error option \<times> ('c, 'r, 'k) world"
where
  "Handle_join X h rec streamID joinKeyHash joinKeyRaw payload w =
     (case ssUpsertParticipant (hStore h) joinKeyHash joinKeyRaw (ConfigID (hJoinCfg h)) streamID payload w of
        (Inl err, w1) \<Rightarrow> (Some (ErrWrap ''upsert participant: %w'' [] err), w1)
      | (Inr state, w1) \<Rightarrow>
          (case Handle_late X h joinKeyHash state w1 of
             (Returns err, w2) \<Rightarrow> (err, w2)
           | (Falls, w2) \<Rightarrow>
               let (joinStart, w3) = time_Now w2
               in (case Engine_Process (hEngine h) state of
                     Inl err \<Rightarrow> (Some err, w3)
                   | Inr res \<Rightarrow>
                       if len_opt (prJoinedBytes res) > 0 then
                         Handle_publish h rec joinKeyHash state joinStart
                           (case prJoinedBytes res of None \<Rightarrow> [] | Some b \<Rightarrow> b) w3
                       else (None, w3))))"

definition Handle ::
  "('c, 'r, 'k) ext \<Rightarrow> ('c, 'r, 'k) world handler \<Rightarrow> message \<Rightarrow> ('c, 'r, 'k) world \<Rightarrow>
   go_error option \<times> ('c, 'r, 'k) world"
where
  "Handle X h rec w = (case getStreamID rec of
      Inl err \<Rightarrow> (Some err, w)
    | Inr streamID \<Rightarrow>
        (case extractKey (hJoinCfg h) (rcValue rec) of
           Inl err \<Rightarrow> (Some err, w)
         | Inr (joinKeyHash, joinKeyRaw) \<Rightarrow>
             let payload = (case rcValue rec of None \<Rightarrow> ''{}'' | Some v \<Rightarrow> v);
                 w1 = metric (Inc EventsProcessedTotal [cfgName (hJoinCfg h), streamID]) w
             in (case Handle_bloom h streamID joinKeyHash joinKeyRaw payload w1 of
                   (Returns err, w2) \<Rightarrow> (err, w2)
                 | (Falls, w2) \<Rightarrow> Handle_join X h rec streamID joinKeyHash joinKeyRaw payload w2)))"

end
