(* ===== verification/Kafka_Client.thy ===== *)
theory Kafka_Client
  imports Consumer_Api
begin

text \<open>
  \<open>internal/kafka/client.go\<close>: the wrapper around the franz-go client, which is the \<open>Producer\<close> of the
  other components.
\<close>

definition kafka_NewClient ::
  "('c, 'r, 'k) ext \<Rightarrow> string list \<Rightarrow> string \<Rightarrow> string \<Rightarrow> ('c, 'r, 'k) world \<Rightarrow>
   go_error option \<times> ('c, 'r, 'k) world"
where
  "kafka_NewClient X brokers groupID consumeTopic w =
     (let opts = [SeedBrokers brokers, ConsumerGroup groupID, ConsumeTopics consumeTopic,
            DisableAutoCommit, BlockRebalanceOnPoll];
          (err, w1) = on_kafka (kgo_new_client X opts) w
      in case err of
           Some e \<Rightarrow> (Some (ErrWrap ''kafka client: %w'' [] e), w1)
         | None \<Rightarrow> (None, w1))"

definition kafka_ProduceSync ::
  "('c, 'r, 'k) ext \<Rightarrow> string \<Rightarrow> bytes option \<Rightarrow> bytes \<Rightarrow> ('c, 'r, 'k) world \<Rightarrow>
   go_error option \<times> ('c, 'r, 'k) world"
where
  "kafka_ProduceSync X topic key v w =
     (let (err, w1) = on_kafka (kgo_produce X topic key v) w
      in case err of
           Some e \<Rightarrow> (Some (ErrWrap ''produce %s: %w'' [FStr topic] e), w1)
         | None \<Rightarrow> (None, w1))"

definition kafka_Close :: "('c, 'r, 'k) ext \<Rightarrow> ('c, 'r, 'k) world \<Rightarrow> ('c, 'r, 'k) world" where
  "kafka_Close X w = w\<lparr>wKafka := kgo_close X (wKafka w)\<rparr>"

definition kafka_Ping ::
  "('c, 'r, 'k) ext \<Rightarrow> ('c, 'r, 'k) world \<Rightarrow> go_error option \<times> ('c, 'r, 'k) world"
where
  "kafka_Ping X w =
     (let (err, w1) = on_kafka (kgo_ping X) w
      in case err of
           Some e \<Rightarrow> (Some (ErrWrap ''kafka ping: %w'' [] e), w1)
         | None \<Rightarrow> (None, w1))"

definition kafka_producer :: "('c, 'r, 'k) ext \<Rightarrow> ('c, 'r, 'k) world producer" where
  "kafka_producer X = \<lparr>prProduceSync = kafka_ProduceSync X\<rparr>"

text \<open>A client of a broker that keeps its promises is a producer that keeps its contract.\<close>

sublocale kafka_broker \<subseteq> client: producer_laws "kafka_producer X" sent
proof
  fix topic key v and w w' :: "('c, 'r, 'k) world" and oe e
  show "prProduceSync (kafka_producer X) topic key v w = (oe, w') \<Longrightarrow> kafka_only w w'"
    by (auto simp: kafka_producer_def kafka_ProduceSync_def Let_def
        split: prod.splits option.splits dest: kafka_only_on_kafka)
  show "prProduceSync (kafka_producer X) topic key v w = (None, w') \<Longrightarrow>
      sent (wKafka w') = sent (wKafka w) @ [(topic, key, v)]"
    by (auto simp: kafka_producer_def kafka_ProduceSync_def on_kafka_def Let_def
        split: prod.splits option.splits dest: produce_ok)
  show "prProduceSync (kafka_producer X) topic key v w = (Some e, w') \<Longrightarrow>
      sent (wKafka w') = sent (wKafka w) \<or> sent (wKafka w') = sent (wKafka w) @ [(topic, key, v)]"
    by (auto simp: kafka_producer_def kafka_ProduceSync_def on_kafka_def Let_def
        split: prod.splits option.splits dest: produce_err)
qed

end
