(* ===== verification/Consumer_Run.thy ===== *)
theory Consumer_Run
  imports Consumer Kafka_Client
begin

text \<open>
  \<open>internal/consumer/consumer.go\<close>: the consumer loop, the treatment of a partition's records, and
  commits with retries.
\<close>

section \<open>commitWithRetry\<close>

text \<open>\<open>n\<close> counts the attempts left, so that \<open>attempt = maxAttempts - n\<close> in the body of the loop.\<close>

fun commit_loop ::
  "('c, 'r, 'k) ext \<Rightarrow> kgo_record \<Rightarrow> string \<Rightarrow> ('c, 'r, 'k) world logger \<Rightarrow> int \<Rightarrow> nat \<Rightarrow> go_error option \<Rightarrow>
   ('c, 'r, 'k) world \<Rightarrow> go_error option \<times> ('c, 'r, 'k) world"
where
  "commit_loop X rec configName log maxAttempts 0 lastErr w = (lastErr, w)"
| "commit_loop X rec configName log maxAttempts (Suc n) lastErr w =
     (case on_kafka (kgo_commit X rec) w of
        (None, w1) \<Rightarrow> (None, w1)
      | (Some err, w1) \<Rightarrow>
          (let attempt = maxAttempts - int n;
               w2 = lgWarn log ''commit error, retrying''
                 [KStr ''topic'', KStr (krTopic rec), KStr ''partition'', KInt (krPartition rec),
                  KStr ''offset'', KInt (krOffset rec), KStr ''attempt'', KInt attempt,
                  KStr ''maxAttempts'', KInt maxAttempts, KStr ''error'', KErr err]
                 (metric (Inc CommitErrorsTotal [configName]) w1)
           in if attempt = maxAttempts then (Some err, w2)
              else (case ctx_Err w2 of
                  (Some e, w3) \<Rightarrow> (Some e, w3)
                | (None, w3) \<Rightarrow> commit_loop X rec configName log maxAttempts n (Some err) w3)))"

definition commitWithRetry ::
  "('c, 'r, 'k) ext \<Rightarrow> kgo_record \<Rightarrow> string \<Rightarrow> ('c, 'r, 'k) world logger \<Rightarrow> int \<Rightarrow>
   ('c, 'r, 'k) world \<Rightarrow> go_error option \<times> ('c, 'r, 'k) world"
where
  "commitWithRetry X rec configName log maxAttempts w =
     commit_loop X rec configName log maxAttempts (nat maxAttempts) None w"

section \<open>Run\<close>

text \<open>The callback of \<open>EachPartition\<close>; \<open>commitErr\<close> is the variable it shares with its caller.\<close>

fun run_partition ::
  "('c, 'r, 'k) ext \<Rightarrow> ('c, 'r, 'k) world resolver \<Rightarrow> ('c, 'r, 'k) world logger \<Rightarrow> kgo_record list \<Rightarrow>
   go_error option \<Rightarrow> ('c, 'r, 'k) world \<Rightarrow> go_error option \<times> ('c, 'r, 'k) world"
where
  "run_partition X getHandler log [] commitErr w = (commitErr, w)"
| "run_partition X getHandler log (rec # recs) commitErr w =
     (let r = recordFromKgo rec in
      case getHandler r of
        Inl err \<Rightarrow>
          commitWithRetry X rec ''unknown'' log 3
            (lgWarn log ''skip record: no handler''
               [KStr ''topic'', KStr (krTopic rec), KStr ''partition'', KInt (krPartition rec),
                KStr ''offset'', KInt (krOffset rec), KStr ''error'', KErr err] w)
      | Inr handler \<Rightarrow>
          (case Handle X handler r w of
             (Some err, w1) \<Rightarrow>
               run_partition X getHandler log recs commitErr
                 (lgError log ''handle error''
                    [KStr ''topic'', KStr (krTopic rec), KStr ''partition'', KInt (krPartition rec),
                     KStr ''offset'', KInt (krOffset rec),
                     KStr ''key'', KStr (case krKey rec of None \<Rightarrow> [] | Some k \<Rightarrow> k), KStr ''error'', KErr err]
                    (metric (Inc HandleErrorsTotal [cfgName (hJoinCfg handler)]) w1))
           | (None, w1) \<Rightarrow>
               (case commitWithRetry X rec (cfgName (hJoinCfg handler)) log 3 w1 of
                  (Some err, w2) \<Rightarrow> (Some err, w2)
                | (None, w2) \<Rightarrow> run_partition X getHandler log recs None w2)))"

fun run_partitions ::
  "('c, 'r, 'k) ext \<Rightarrow> ('c, 'r, 'k) world resolver \<Rightarrow> ('c, 'r, 'k) world logger \<Rightarrow> kgo_record list list \<Rightarrow>
   go_error option \<Rightarrow> ('c, 'r, 'k) world \<Rightarrow> go_error option \<times> ('c, 'r, 'k) world"
where
  "run_partitions X getHandler log [] commitErr w = (commitErr, w)"
| "run_partitions X getHandler log (p # ps) commitErr w =
     (let (c, w1) = run_partition X getHandler log p commitErr w
      in run_partitions X getHandler log ps c w1)"

text \<open>The first fetch error that is not nil.\<close>

fun fetch_error :: "go_error option list \<Rightarrow> go_error option" where
  "fetch_error [] = None"
| "fetch_error (None # es) = fetch_error es"
| "fetch_error (Some e # es) = Some e"

text \<open>One turn of the loop of \<open>Run\<close>: the error it returns with, or none to go on.\<close>

definition run_turn ::
  "('c, 'r, 'k) ext \<Rightarrow> ('c, 'r, 'k) world resolver \<Rightarrow> ('c, 'r, 'k) world logger \<Rightarrow>
   ('c, 'r, 'k) world \<Rightarrow> go_error option \<times> ('c, 'r, 'k) world"
where
  "run_turn X getHandler log w = (case ctx_Err w of
      (Some e, w1) \<Rightarrow> (Some e, w1)
    | (None, w1) \<Rightarrow>
        (let (fs, w2) = on_kafka (kgo_poll X) w1 in
         case ctx_Err w2 of
           (Some e, w3) \<Rightarrow> (Some e, w3)
         | (None, w3) \<Rightarrow>
             (case fetch_error (fErrors fs) of
                Some e \<Rightarrow> (Some e, w3)
              | None \<Rightarrow>
                  (case run_partitions X getHandler log (fPartitions fs) None w3 of
                     (Some e, w4) \<Rightarrow> (Some e, w4)
                   | (None, w4) \<Rightarrow> (None, snd (on_kafka (\<lambda>k. ((), kgo_allow_rebalance X k)) w4))))))"

text \<open>\<open>Run\<close> loops until a turn returns; \<open>None\<close> means that it is still running after \<open>n\<close> turns.\<close>

fun consumer_Run ::
  "nat \<Rightarrow> ('c, 'r, 'k) ext \<Rightarrow> ('c, 'r, 'k) world resolver \<Rightarrow> ('c, 'r, 'k) world logger \<Rightarrow>
   ('c, 'r, 'k) world \<Rightarrow> (go_error \<times> ('c, 'r, 'k) world) option"
where
  "consumer_Run 0 X getHandler log w = None"
| "consumer_Run (Suc n) X getHandler log w = (case run_turn X getHandler log w of
     (Some e, w1) \<Rightarrow> Some (e, w1)
   | (None, w1) \<Rightarrow> consumer_Run n X getHandler log w1)"

definition RunSingle ::
  "nat \<Rightarrow> ('c, 'r, 'k) ext \<Rightarrow> ('c, 'r, 'k) world logger \<Rightarrow> join_config \<Rightarrow> ('c, 'r, 'k) world state_store \<Rightarrow>
   ('c, 'r, 'k) world producer option \<Rightarrow> string \<Rightarrow> ('c, 'r, 'k) world bloom_checker option \<Rightarrow>
   ('c, 'r, 'k) world timeout_scheduler option \<Rightarrow> ('c, 'r, 'k) world delay_publisher option \<Rightarrow>
   ('c, 'r, 'k) world late_tracker option \<Rightarrow> string \<Rightarrow> ('c, 'r, 'k) world logger option \<Rightarrow>
   ('c, 'r, 'k) world \<Rightarrow> (go_error \<times> ('c, 'r, 'k) world) option"
where
  "RunSingle n X global joinCfg stateStore producer egressTopic bloom timeoutSched delayQueue lateTracker
      correctionsTopic log w =
     (let handler = NewHandler global stateStore joinCfg producer egressTopic bloom timeoutSched delayQueue
            lateTracker correctionsTopic log
      in consumer_Run n X (HandlerResolverFromSingle handler)
           (case log of None \<Rightarrow> global | Some l \<Rightarrow> l) w)"

section \<open>Commits\<close>

text \<open>What the consumer group promises: which records have been committed, in order.\<close>

locale kafka_group = kafka_broker X sent
  for X :: "('c, 'r, 'k) ext" and sent :: "'k \<Rightarrow> sent_message list" +
  fixes commits :: "'k \<Rightarrow> kgo_record list"
  assumes commit_ok: "kgo_commit X rec k = (None, k') \<Longrightarrow> commits k' = commits k @ [rec]"
    and commit_err: "kgo_commit X rec k = (Some e, k') \<Longrightarrow>
      commits k' = commits k \<or> commits k' = commits k @ [rec]"
    and commit_sent: "kgo_commit X rec k = (oe, k') \<Longrightarrow> sent k' = sent k"
    and produce_commits: "kgo_produce X topic key v k = (oe, k') \<Longrightarrow> commits k' = commits k"

text \<open>
  The calls to \<open>CommitRecords\<close> that a retried commit makes, on a log of the calls: every one is for the
  record, there are at most \<open>maxAttempts\<close>, and the result is nil exactly when the last one succeeded.
\<close>

context kafka_group
begin

lemma commit_step:
  assumes "logger_laws log" and "commit_loop X rec name log maxA (Suc n) le w = (oe, w')"
  obtains (committed) k1 where "kgo_commit X rec (wKafka w) = (None, k1)" "oe = None" "wKafka w' = k1"
  | (stopped) err k1 where "kgo_commit X rec (wKafka w) = (Some err, k1)" "oe \<noteq> None" "wKafka w' = k1"
  | (again) err k1 w3 where "kgo_commit X rec (wKafka w) = (Some err, k1)" "wKafka w3 = k1" "n \<noteq> 0"
      "commit_loop X rec name log maxA n (Some err) w3 = (oe, w')"
proof -
  obtain o1 k1 where c: "kgo_commit X rec (wKafka w) = (o1, k1)" by fastforce
  note lg = log_onlyD [OF logger_laws.warn_only [OF assms(1)]]
  show ?thesis
  proof (cases o1)
    case None
    with assms(2) c show ?thesis by (intro committed [of k1]) (auto simp: on_kafka_def)
  next
    case (Some err)
    define w2 where "w2 = lgWarn log ''commit error, retrying''
        [KStr ''topic'', KStr (krTopic rec), KStr ''partition'', KInt (krPartition rec),
         KStr ''offset'', KInt (krOffset rec), KStr ''attempt'', KInt (maxA - int n),
         KStr ''maxAttempts'', KInt maxA, KStr ''error'', KErr err]
        (metric (Inc CommitErrorsTotal [name]) (w\<lparr>wKafka := k1\<rparr>))"
    have w2: "wKafka w2 = k1" by (simp add: w2_def lg)
    have e: "commit_loop X rec name log maxA (Suc n) le w =
      (if n = 0 then (Some err, w2)
       else (case ctx_Err w2 of (Some e, w3) \<Rightarrow> (Some e, w3)
         | (None, w3) \<Rightarrow> commit_loop X rec name log maxA n (Some err) w3))"
      using c Some by (simp add: on_kafka_def w2_def Let_def)
    define w3 where "w3 = w2\<lparr>wTick := Suc (wTick w2)\<rparr>"
    have w3: "wKafka w3 = k1" by (simp add: w3_def w2)
    have e: "(oe, w') = (if n = 0 then (Some err, w2) else if wCancel w2 (wTick w2) then (Some ctx_Canceled, w3)
        else commit_loop X rec name log maxA n (Some err) w3)"
      using assms(2) unfolding e ctx_Err_def w3_def by (simp split: if_splits)
    show ?thesis
    proof (cases "n = 0 \<or> wCancel w2 (wTick w2)")
      case True
      with e w2 w3 c Some show ?thesis by (intro stopped [of err k1]) (auto split: if_splits)
    next
      case False
      with e w3 c Some show ?thesis by (intro again [of err k1 w3]) auto
    qed
  qed
qed

lemma commit_tried:
  assumes "kgo_commit X rec k = (oe, k1)"
  obtains i where "i \<le> 1" "commits k1 = commits k @ replicate i rec" "oe = None \<Longrightarrow> i = 1"
proof (cases oe)
  case None
  then show ?thesis using that [of 1] commit_ok assms by simp
next
  case (Some e)
  then show ?thesis using that [of 0] that [of 1] commit_err [of rec k e k1] assms by auto
qed

lemma commit_loop_commits:
  assumes "logger_laws log" and "commit_loop X rec name log maxA n le w = (oe, w')"
  shows "\<exists>j\<le>n. commits (wKafka w') = commits (wKafka w) @ replicate j rec
    \<and> (oe = None \<longrightarrow> le = None \<and> n = 0 \<or> 0 < j)"
  using assms(2)
proof (induction n arbitrary: le w)
  case 0
  then show ?case by auto
next
  case (Suc n)
  from assms(1) Suc.prems show ?case
  proof (cases rule: commit_step)
    case (committed k1)
    then show ?thesis using commit_ok by (intro exI [of _ 1]) simp
  next
    case (stopped err k1)
    from commit_tried [OF stopped(1)] obtain i where "i \<le> 1"
      "commits k1 = commits (wKafka w) @ replicate i rec" by blast
    with stopped show ?thesis by (intro exI [of _ i]) auto
  next
    case (again err k1 w3)
    from commit_tried [OF again(1)] obtain i where i: "i \<le> 1" "commits k1 = commits (wKafka w) @ replicate i rec"
      by blast
    from Suc.IH [OF again(4)] obtain j where "j \<le> n" "commits (wKafka w') = commits k1 @ replicate j rec"
      "oe = None \<longrightarrow> 0 < j" using again(2) by auto
    with i show ?thesis by (intro exI [of _ "i + j"]) (auto simp: replicate_add)
  qed
qed

text \<open>A retried commit asks for at most \<open>maxAttempts\<close> commits, all of the one record, and one at least when it
  reports success.\<close>

lemma commitWithRetry_commits:
  assumes "logger_laws log" and "commitWithRetry X rec name log maxA w = (oe, w')" and "0 < maxA"
  obtains j where "j \<le> nat maxA" "commits (wKafka w') = commits (wKafka w) @ replicate j rec"
    "oe = None \<Longrightarrow> 0 < j"
  using commit_loop_commits [OF assms(1) assms(2) [unfolded commitWithRetry_def]] assms(3) by auto

end

section \<open>A partition\<close>

text \<open>A resolver whose handlers leave the committed offsets alone.\<close>

definition keeps_commits ::
  "('c, 'r, 'k) ext \<Rightarrow> ('k \<Rightarrow> kgo_record list) \<Rightarrow> ('c, 'r, 'k) world resolver \<Rightarrow> bool" where
  "keeps_commits X cs getHandler \<longleftrightarrow> (\<forall>r h w oe w'. getHandler r = Inr h \<longrightarrow> Handle X h r w = (oe, w') \<longrightarrow>
     cs (wKafka w') = cs (wKafka w))"

lemma keeps_commitsD:
  "keeps_commits X cs getHandler \<Longrightarrow> getHandler r = Inr h \<Longrightarrow> Handle X h r w = (oe, w') \<Longrightarrow>
    cs (wKafka w') = cs (wKafka w)"
  by (simp add: keeps_commits_def)

context kafka_group
begin

text \<open>Only records of the partition are committed, in their order.\<close>

lemma run_partition_commits:
  assumes "logger_laws log" and "keeps_commits X commits getHandler"
    and "run_partition X getHandler log recs ce w = (oe, w')"
  shows "\<exists>cs. commits (wKafka w') = commits (wKafka w) @ concat cs
    \<and> length cs \<le> length recs \<and> (\<forall>i<length cs. set (cs ! i) \<subseteq> {recs ! i} \<and> length (cs ! i) \<le> 3)"
  using assms(3)
proof (induction recs arbitrary: ce w)
  case Nil
  then show ?case by (intro exI [of _ "[]"]) simp
next
  case (Cons rec recs)
  note warn = log_onlyD [OF logger_laws.warn_only [OF assms(1)]]
  note err = log_onlyD [OF logger_laws.error_only [OF assms(1)]]
  let ?r = "recordFromKgo rec"
  have extend: "?case" if "commits (wKafka v) = commits (wKafka w) @ replicate j rec" "j \<le> 3"
    "run_partition X getHandler log recs c v = (oe, w')" for v j c
  proof -
    from Cons.IH [OF that(3)] obtain cs where cs: "commits (wKafka w') = commits (wKafka v) @ concat cs"
      "length cs \<le> length recs" "\<forall>i<length cs. set (cs ! i) \<subseteq> {recs ! i} \<and> length (cs ! i) \<le> 3" by blast
    with that show ?thesis
      by (intro exI [of _ "replicate j rec # cs"])
        (auto simp: nth_Cons set_replicate_conv_if split: nat.splits)
  qed
  show ?case
  proof (cases "getHandler ?r")
    case (Inl e)
    define v where "v = lgWarn log ''skip record: no handler''
        [KStr ''topic'', KStr (krTopic rec), KStr ''partition'', KInt (krPartition rec),
         KStr ''offset'', KInt (krOffset rec), KStr ''error'', KErr e] w"
    have "commitWithRetry X rec ''unknown'' log 3 v = (oe, w')"
      using Cons.prems Inl by (simp add: v_def)
    from commitWithRetry_commits [OF assms(1) this] obtain j where
      "j \<le> 3" "commits (wKafka w') = commits (wKafka v) @ replicate j rec" by auto
    then show ?thesis
      by (intro exI [of _ "[replicate j rec]"]) (auto simp: v_def warn set_replicate_conv_if)
  next
    case (Inr h)
    obtain o1 w1 where h: "Handle X h ?r w = (o1, w1)" by fastforce
    note k = keeps_commitsD [OF assms(2) Inr h]
    show ?thesis
    proof (cases o1)
      case (Some e)
      with Cons.prems Inr h k show ?thesis by (intro extend [of _ 0]) (auto simp: err)
    next
      case None
      obtain o2 w2 where c: "commitWithRetry X rec (cfgName (hJoinCfg h)) log 3 w1 = (o2, w2)" by fastforce
      from commitWithRetry_commits [OF assms(1) c] obtain j where
        j: "j \<le> 3" "commits (wKafka w2) = commits (wKafka w1) @ replicate j rec" by auto
      show ?thesis
      proof (cases o2)
        case (Some e)
        with Cons.prems Inr h None c have "w' = w2" by simp
        with j k show ?thesis
          by (intro exI [of _ "[replicate j rec]"]) (auto simp: set_replicate_conv_if)
      next
        case o2: None
        with Cons.prems Inr h None c j k show ?thesis by (intro extend [of w2 j]) auto
      qed
    qed
  qed
qed

text \<open>
  A record whose handling failed is passed over: when a later record of the partition is handled, its
  commit stands for both.
\<close>

lemma run_partition_passes_over:
  assumes "logger_laws log" and "keeps_commits X commits getHandler"
    and "getHandler (recordFromKgo r1) = Inr h1" and "Handle X h1 (recordFromKgo r1) w = (Some e, w1)"
    and "getHandler (recordFromKgo r2) = Inr h2"
    and "\<And>v. fst (Handle X h2 (recordFromKgo r2) v) = None"
    and "run_partition X getHandler log [r1, r2] None w = (None, w')"
  obtains j where "0 < j" "commits (wKafka w') = commits (wKafka w) @ replicate j r2"
proof -
  note err = log_onlyD [OF logger_laws.error_only [OF assms(1)]]
  define v where "v = lgError log ''handle error''
                    [KStr ''topic'', KStr (krTopic r1), KStr ''partition'', KInt (krPartition r1),
                     KStr ''offset'', KInt (krOffset r1),
                     KStr ''key'', KStr (case krKey r1 of None \<Rightarrow> [] | Some k \<Rightarrow> k), KStr ''error'', KErr e]
                    (metric (Inc HandleErrorsTotal [cfgName (hJoinCfg h1)]) w1)"
  obtain w2 where h: "Handle X h2 (recordFromKgo r2) v = (None, w2)"
    using assms(6) [of v] by (metis prod.collapse)
  have "run_partition X getHandler log [r2] None v = (None, w')"
    using assms(3,4,7) by (simp add: v_def)
  then obtain w3 where c: "commitWithRetry X r2 (cfgName (hJoinCfg h2)) log 3 w2 = (None, w3)" "w' = w3"
    using assms(5) h by (auto split: prod.splits option.splits)
  from commitWithRetry_commits [OF assms(1) c(1)] obtain j where
    "0 < j" "commits (wKafka w3) = commits (wKafka w2) @ replicate j r2" by auto
  moreover have "commits (wKafka w2) = commits (wKafka v)" by (rule keeps_commitsD [OF assms(2,5) h])
  moreover have "commits (wKafka v) = commits (wKafka w)"
    using keeps_commitsD [OF assms(2,3,4)] by (simp add: v_def err)
  ultimately show ?thesis using that c(2) by metis
qed

text \<open>A retried commit touches nothing but the offsets.\<close>

lemma commit_loop_frame:
  assumes "logger_laws log" and "commit_loop X rec name log maxA n le w = (oe, w')"
  shows "wCql w' = wCql w \<and> wRedis w' = wRedis w \<and> sent (wKafka w') = sent (wKafka w)"
  using assms(2)
proof (induction n arbitrary: le w)
  case 0
  then show ?case by simp
next
  case (Suc n)
  note warn = log_onlyD [OF logger_laws.warn_only [OF assms(1)]]
  obtain r k1 where k: "kgo_commit X rec (wKafka w) = (r, k1)" by fastforce
  note s = commit_sent [OF k]
  show ?case
  proof (cases r)
    case None
    then show ?thesis using Suc.prems k s by (auto simp: on_kafka_def)
  next
    case (Some err)
    define w2 where "w2 = lgWarn log ''commit error, retrying''
       [KStr ''topic'', KStr (krTopic rec), KStr ''partition'', KInt (krPartition rec),
        KStr ''offset'', KInt (krOffset rec), KStr ''attempt'', KInt (maxA - int n),
        KStr ''maxAttempts'', KInt maxA, KStr ''error'', KErr err]
       (metric (Inc CommitErrorsTotal [name]) (w\<lparr>wKafka := k1\<rparr>))"
    have f: "wCql w2 = wCql w" "wRedis w2 = wRedis w" "wKafka w2 = k1" by (simp_all add: w2_def warn)
    have "w' = w2 \<or> (\<exists>e. ctx_Err w2 = (Some e, w')) \<or>
        (\<exists>w3. ctx_Err w2 = (None, w3) \<and> commit_loop X rec name log maxA n (Some err) w3 = (oe, w'))"
    proof -
      have "commit_loop X rec name log maxA (Suc n) le w =
          (if maxA - int n = maxA then (Some err, w2)
           else (case ctx_Err w2 of (Some e, w3) \<Rightarrow> (Some e, w3)
              | (None, w3) \<Rightarrow> commit_loop X rec name log maxA n (Some err) w3))"
        by (simp add: k Some on_kafka_def Let_def w2_def)
      with Suc.prems show ?thesis by (auto split: if_splits option.splits prod.splits)
    qed
    then show ?thesis
    proof (elim disjE exE conjE)
      fix w3
      assume c: "ctx_Err w2 = (None, w3)" and l: "commit_loop X rec name log maxA n (Some err) w3 = (oe, w')"
      from c have "wCql w3 = wCql w2" "wRedis w3 = wRedis w2" "wKafka w3 = wKafka w2"
        by (auto simp: ctx_Err_def split: if_splits)
      with Suc.IH [OF l] f s show ?thesis by simp
    qed (use f s in \<open>auto simp: ctx_Err_def split: if_splits\<close>)
  qed
qed

text \<open>
  A record that no handler takes ends the partition: what follows it in the fetch is neither handled nor
  committed.
\<close>

lemma run_partition_no_handler:
  assumes "logger_laws log" and "getHandler (recordFromKgo rec) = Inl e"
    and "run_partition X getHandler log (rec # recs) ce w = (oe, w')"
  obtains j where "j \<le> 3" and "commits (wKafka w') = commits (wKafka w) @ replicate j rec"
    and "wCql w' = wCql w" and "wRedis w' = wRedis w" and "sent (wKafka w') = sent (wKafka w)"
proof -
  note warn = log_onlyD [OF logger_laws.warn_only [OF assms(1)]]
  define v where "v = lgWarn log ''skip record: no handler''
      [KStr ''topic'', KStr (krTopic rec), KStr ''partition'', KInt (krPartition rec),
       KStr ''offset'', KInt (krOffset rec), KStr ''error'', KErr e] w"
  have c: "commitWithRetry X rec ''unknown'' log 3 v = (oe, w')" using assms(2,3) by (simp add: v_def)
  obtain j where j: "j \<le> 3" "commits (wKafka w') = commits (wKafka v) @ replicate j rec"
    using commitWithRetry_commits [OF assms(1) c] by auto
  with commit_loop_frame [OF assms(1) c [unfolded commitWithRetry_def]] that show ?thesis
    by (simp add: v_def warn)
qed

end

text \<open>The loop never ends by itself: it returns with an error, or goes on.\<close>

lemma consumer_Run_mono: "consumer_Run n X g log w = Some r \<Longrightarrow> n \<le> m \<Longrightarrow> consumer_Run m X g log w = Some r"
proof (induction n arbitrary: m w)
  case 0
  then show ?case by simp
next
  case (Suc n)
  then obtain m' where "m = Suc m'" "n \<le> m'" by (cases m) auto
  with Suc show ?case by (auto split: prod.splits option.splits)
qed

text \<open>A cancelled context ends the loop within one turn.\<close>

lemma consumer_Run_cancelled:
  "wCancel w (wTick w) \<Longrightarrow> consumer_Run (Suc n) X g log w = Some (ctx_Canceled, w\<lparr>wTick := Suc (wTick w)\<rparr>)"
  by (simp add: run_turn_def ctx_Err_def)

end
