(* ===== verification/Join_Spec.thy ===== *)
theory Join_Spec
  imports Consumer
begin

text \<open>
  What handling a message does, seen from outside: a step relation \<open>handle_step\<close> on the groups in the
  store, the keys in the Bloom filter, the keys with a partial result, and the messages sent.  Its
  rules list every outcome, with the faults of the services.  \<open>Handle_sim\<close> is the simulation: each
  run of \<open>Handle\<close> is one step, whatever the services answer within their contracts.
\<close>

section \<open>The abstract join\<close>

record join_view =
  jGroups :: "bytes \<rightharpoonup> group"
  jSeen :: "bytes set"
  jTracked :: "bytes set"
  jSent :: "sent_message list"

definition join_abs ::
  "('c \<Rightarrow> bytes \<rightharpoonup> group) \<Rightarrow> ('r \<Rightarrow> bytes set) \<Rightarrow> ('r \<Rightarrow> bytes set) \<Rightarrow> ('k \<Rightarrow> sent_message list) \<Rightarrow>
   ('c, 'r, 'k) world \<Rightarrow> join_view"
where
  "join_abs groups seen tracked sent w = \<lparr>jGroups = groups (wCql w), jSeen = seen (wRedis w),
     jTracked = tracked (wRedis w), jSent = sent (wKafka w)\<rparr>"

text \<open>A message that the handler accepts is an event of one stream for one key.\<close>

record event =
  evStream :: string
  evHash :: bytes
  evRaw :: string
  evPayload :: bytes
  evKey :: "bytes option"

definition event_of :: "join_config \<Rightarrow> message \<Rightarrow> event option" where
  "event_of cfg rec = (case (getStreamID rec, extractKey cfg (rcValue rec)) of
      (Inr s, Inr (h, raw)) \<Rightarrow> Some \<lparr>evStream = s, evHash = h, evRaw = raw,
         evPayload = (case rcValue rec of None \<Rightarrow> ''{}'' | Some v \<Rightarrow> v), evKey = rcKey rec\<rparr>
    | _ \<Rightarrow> None)"

definition group_with :: "event \<Rightarrow> time \<Rightarrow> group option \<Rightarrow> group" where
  "group_with e t og = group_put (evRaw e) (evStream e) (evPayload e) t og"

definition group_complete :: "join_config \<Rightarrow> group \<Rightarrow> bool" where
  "group_complete cfg g \<longleftrightarrow> join_N cfg \<le> int (card (dom (gData g)))"

text \<open>The document of a group; \<open>group_doc_unique\<close> shows that there is at most one.\<close>

definition group_doc :: "join_config \<Rightarrow> group \<Rightarrow> bytes \<Rightarrow> bool" where
  "group_doc cfg g d \<longleftrightarrow>
     (\<exists>data. gm_wf data \<and> map_of data = gData g \<and> projection_Apply data (Projection cfg) = Inr d)"

definition stored :: "event \<Rightarrow> time \<Rightarrow> join_view \<Rightarrow> join_view" where
  "stored e t a = a\<lparr>jGroups := (jGroups a)(evHash e \<mapsto> group_with e t (jGroups a (evHash e)))\<rparr>"

definition removed :: "event \<Rightarrow> join_view \<Rightarrow> join_view" where
  "removed e a = a\<lparr>jGroups := (jGroups a)(evHash e := None)\<rparr>"

definition emit :: "sent_message \<Rightarrow> join_view \<Rightarrow> join_view" where
  "emit m a = a\<lparr>jSent := jSent a @ [m]\<rparr>"

inductive handle_step ::
  "join_config \<Rightarrow> string \<Rightarrow> string \<Rightarrow> event \<Rightarrow> join_view \<Rightarrow> go_error option \<Rightarrow> join_view \<Rightarrow> bool"
  for cfg out corr e a
where
  unavailable: "handle_step cfg out corr e a (Some err) a"
| stored_fault: "handle_step cfg out corr e a (Some err) (stored e t a)"
| seen_fault: "evHash e \<notin> jSeen a \<Longrightarrow> jSeen a \<subseteq> S \<Longrightarrow>
    handle_step cfg out corr e a (Some err) (stored e t (a\<lparr>jSeen := S\<rparr>))"
| first: "evHash e \<notin> jSeen a \<Longrightarrow> insert (evHash e) (jSeen a) \<subseteq> S \<Longrightarrow>
    handle_step cfg out corr e a None (stored e t (a\<lparr>jSeen := S\<rparr>))"
| wait: "evHash e \<in> jSeen a \<Longrightarrow> \<not> group_complete cfg g \<Longrightarrow> g = group_with e t (jGroups a (evHash e)) \<Longrightarrow>
    handle_step cfg out corr e a None (stored e t a)"
| late: "evHash e \<in> jSeen a \<Longrightarrow> \<not> group_complete cfg g \<Longrightarrow> g = group_with e t (jGroups a (evHash e)) \<Longrightarrow>
    evHash e \<in> jTracked a \<Longrightarrow> corr \<noteq> '''' \<Longrightarrow>
    jGroups b = jGroups (stored e t a) \<or> jGroups b = jGroups (removed e a) \<Longrightarrow>
    jTracked b = jTracked a \<or> jTracked b = jTracked a - {evHash e} \<Longrightarrow>
    jSent b = jSent a \<or> (\<exists>m. jSent b = jSent a @ [(corr, Some (evHash e), m)]) \<Longrightarrow>
    jSeen b = jSeen a \<Longrightarrow>
    handle_step cfg out corr e a None b"
| delayed: "evHash e \<in> jSeen a \<Longrightarrow> group_complete cfg g \<Longrightarrow> g = group_with e t (jGroups a (evHash e)) \<Longrightarrow>
    group_doc cfg g d \<Longrightarrow> 0 < PostJoinDelay cfg \<Longrightarrow>
    handle_step cfg out corr e a None (stored e t a)"
| publish_fault: "evHash e \<in> jSeen a \<Longrightarrow> group_complete cfg g \<Longrightarrow> g = group_with e t (jGroups a (evHash e)) \<Longrightarrow>
    group_doc cfg g d \<Longrightarrow>
    handle_step cfg out corr e a (Some err) (emit (out, evKey e, d) (stored e t a))"
| delete_fault: "evHash e \<in> jSeen a \<Longrightarrow> group_complete cfg g \<Longrightarrow> g = group_with e t (jGroups a (evHash e)) \<Longrightarrow>
    group_doc cfg g d \<Longrightarrow>
    handle_step cfg out corr e a (Some err) (emit (out, evKey e, d) (removed e a))"
| joined: "evHash e \<in> jSeen a \<Longrightarrow> group_complete cfg g \<Longrightarrow> g = group_with e t (jGroups a (evHash e)) \<Longrightarrow>
    group_doc cfg g d \<Longrightarrow>
    handle_step cfg out corr e a None (emit (out, evKey e, d) (removed e a))"

inductive_cases handle_ok_E: "handle_step cfg out corr e a None b"
inductive_cases handle_err_E: "handle_step cfg out corr e a (Some err) b"

lemmas view_defs = stored_def removed_def emit_def

section \<open>Groups and states\<close>

lemma state_shows_complete:
  assumes "state_shows st g"
  shows "int (length (ParticipantData st)) \<ge> join_N cfg \<longleftrightarrow> group_complete cfg g"
  using assms gm_length_card [of "ParticipantData st"] by (simp add: state_shows_def group_complete_def)

lemma group_doc_unique:
  assumes "group_doc cfg g d" and "group_doc cfg g d'"
  shows "d = d'"
proof -
  obtain x where x: "gm_wf x" "map_of x = gData g" "projection_Apply x (Projection cfg) = Inr d"
    using assms(1) unfolding group_doc_def by blast
  obtain y where y: "gm_wf y" "map_of y = gData g" "projection_Apply y (Projection cfg) = Inr d'"
    using assms(2) unfolding group_doc_def by blast
  show ?thesis using projection_Apply_equiv [of x y "Projection cfg"] x y by (simp add: gm_equiv_def)
qed

lemma state_shows_doc:
  "state_shows st g \<Longrightarrow> projection_Apply (ParticipantData st) (Projection cfg) = Inr d \<Longrightarrow> group_doc cfg g d"
  by (auto simp: state_shows_def group_doc_def)

section \<open>The services of a handler\<close>

text \<open>
  What a handler relies on: the contracts of what it is given, and that the Bloom filter, the
  timeouts, the delay queue and the tracker keep out of each other's keys.
\<close>

locale handler_services =
  store: state_store_laws "hStore h" groups + log: logger_laws "hLog h" + prod: producer_laws P sent
  for h :: "('c, 'r, 'k) world handler" and groups :: "'c \<Rightarrow> bytes \<Rightarrow> group option"
    and P :: "('c, 'r, 'k) world producer" and sent :: "'k \<Rightarrow> sent_message list" +
  fixes seen tracked :: "'r \<Rightarrow> bytes set"
  assumes engine: "hEngine h = engine_New (hJoinCfg h)"
    and producer: "hProducer h = Some P"
    and bloom: "hBloom h = Some B \<Longrightarrow> bloom_laws B seen"
    and no_bloom: "hBloom h = None \<Longrightarrow> seen r = UNIV"
    and late_tracker: "hLateTracker h = Some T \<Longrightarrow> tracker_laws T tracked"
    and scheduler: "hTimeoutSched h = Some M \<Longrightarrow> tsScheduleTimeout M x d w = (oe, w') \<Longrightarrow>
      redis_only w w' \<and> seen (wRedis w') = seen (wRedis w) \<and> tracked (wRedis w') = tracked (wRedis w)"
    and delay_queue: "hDelayQueue h = Some D \<Longrightarrow> delay_laws D"
    and delay_keys: "hDelayQueue h = Some D \<Longrightarrow> w' = dpSchedule D x j k d w \<Longrightarrow>
      seen (wRedis w') = seen (wRedis w) \<and> tracked (wRedis w') = tracked (wRedis w)"
    and bloom_keys: "hBloom h = Some B \<Longrightarrow> bcExists B x w = (br, w') \<Longrightarrow>
      tracked (wRedis w') = tracked (wRedis w)"
    and bloom_add_keys: "hBloom h = Some B \<Longrightarrow> bcAdd B x w = (oe, w') \<Longrightarrow>
      tracked (wRedis w') = tracked (wRedis w)"
    and tracker_keys: "hLateTracker h = Some T \<Longrightarrow> ltContains T x w = (br, w') \<Longrightarrow>
      seen (wRedis w') = seen (wRedis w)"
    and tracker_remove_keys: "hLateTracker h = Some T \<Longrightarrow> ltRemove T x w = (oe, w') \<Longrightarrow>
      seen (wRedis w') = seen (wRedis w)"
begin

abbreviation "view \<equiv> join_abs groups seen tracked sent"
abbreviation "step \<equiv> handle_step (hJoinCfg h) (hEgressTopic h) (hCorrectionsTopic h)"

text \<open>Calls that leave the view alone.\<close>

lemma view_metric [simp]: "view (metric m w) = view w"
  by (simp add: join_abs_def)

lemma view_log [simp]: "view (lgWarn (hLog h) msg kvs w) = view w"
  using log_onlyD [OF log.warn_only] by (simp add: join_abs_def)

lemma view_now: "time_Now w = (t, w') \<Longrightarrow> view w' = view w"
  by (auto simp: time_Now_def join_abs_def)

lemma view_get: "ssGetState (hStore h) x w = (r, w') \<Longrightarrow> view w' = view w"
  using store.get_frame store.get_groups by (auto simp: join_abs_def cql_only_def)

lemma view_age [simp]: "view (observe_state_age h st w) = view w"
  by (auto simp: observe_state_age_def join_abs_def time_Now_def Let_def split: option.splits prod.splits)

lemma view_exists: "hBloom h = Some B \<Longrightarrow> bcExists B x w = (r, w') \<Longrightarrow> view w' = view w"
  using bloom_laws.exists_frame [OF bloom] bloom_keys by (simp add: join_abs_def redis_only_def)

lemma view_contains: "hLateTracker h = Some T \<Longrightarrow> ltContains T x w = (r, w') \<Longrightarrow> view w' = view w"
  using tracker_laws.contains_frame [OF late_tracker] tracker_keys by (simp add: join_abs_def redis_only_def)

lemma view_schedule: "hTimeoutSched h = Some M \<Longrightarrow> tsScheduleTimeout M x d w = (r, w') \<Longrightarrow> view w' = view w"
  using scheduler by (simp add: join_abs_def redis_only_def)

lemma view_delay: "hDelayQueue h = Some D \<Longrightarrow> view (dpSchedule D x j k d w) = view w"
  using delay_laws.delay_frame [OF delay_queue refl] delay_keys [OF _ refl] by (simp add: join_abs_def)

text \<open>Calls that change it.\<close>

lemma view_cql: "cql_only w w' \<Longrightarrow> groups (wCql w') = G \<Longrightarrow> view w' = (view w)\<lparr>jGroups := G\<rparr>"
  by (simp add: join_abs_def cql_only_def)

lemma view_cql_same: "cql_only w w' \<Longrightarrow> groups (wCql w') = groups (wCql w) \<Longrightarrow> view w' = view w"
  by (simp add: join_abs_def cql_only_def)

lemma stored_view:
  "(view w)\<lparr>jGroups := (groups (wCql w))(evHash e \<mapsto>
      group_put (evRaw e) (evStream e) (evPayload e) t (groups (wCql w) (evHash e)))\<rparr> = stored e t (view w)"
  by (simp add: stored_def group_with_def join_abs_def)

lemma view_only:
  assumes "ssUpsertParticipantOnly (hStore h) (evHash e) (evRaw e) cid (evStream e) (evPayload e) w = (oe, w')"
  shows "\<exists>t. view w' = stored e t (view w) \<or> oe \<noteq> None \<and> view w' = view w"
proof -
  have f: "cql_only w w'" using store.only_frame [OF assms] ..
  show ?thesis
  proof (cases oe)
    case None
    from view_cql [OF f store.only_ok [OF assms [unfolded None]]] show ?thesis
      unfolding stored_view by blast
  next
    case (Some err)
    from store.only_err [OF assms [unfolded this]] show ?thesis
    proof
      assume "groups (wCql w') = groups (wCql w)"
      from view_cql_same [OF f this] Some show ?thesis by simp
    next
      assume "groups (wCql w') = (groups (wCql w))(evHash e \<mapsto> group_put (evRaw e) (evStream e)
        (evPayload e) (wClock w (wTick w)) (groups (wCql w) (evHash e)))"
      from view_cql [OF f this] show ?thesis unfolding stored_view by blast
    qed
  qed
qed

lemma view_upsert_ok:
  assumes "ssUpsertParticipant (hStore h) (evHash e) (evRaw e) cid (evStream e) (evPayload e) w = (Inr ost, w')"
  obtains t st where "view w' = stored e t (view w)" and "ost = Some st"
    and "state_shows st (group_with e t (jGroups (view w) (evHash e)))"
proof -
  note f = store.upsert_frame [OF assms, THEN conjunct1]
  note g = store.upsert_ok [OF assms]
  from g obtain st where st: "ost = Some st" "state_shows st (group_put (evRaw e) (evStream e)
      (evPayload e) (wClock w (wTick w)) (groups (wCql w) (evHash e)))" by blast
  from view_cql [OF f g [THEN conjunct1]] have "view w' = stored e (wClock w (wTick w)) (view w)"
    unfolding stored_view .
  from that [OF this st(1)] st(2) show ?thesis by (simp add: group_with_def join_abs_def)
qed

lemma view_upsert_err:
  assumes "ssUpsertParticipant (hStore h) (evHash e) (evRaw e) cid (evStream e) (evPayload e) w = (Inl err, w')"
  shows "\<exists>t. view w' = stored e t (view w) \<or> view w' = view w"
proof -
  have f: "cql_only w w'" using store.upsert_frame [OF assms] ..
  from store.upsert_err [OF assms] show ?thesis
  proof
    assume "groups (wCql w') = groups (wCql w)"
    from view_cql_same [OF f this] show ?thesis by simp
  next
    assume "groups (wCql w') = (groups (wCql w))(evHash e \<mapsto> group_put (evRaw e) (evStream e)
      (evPayload e) (wClock w (wTick w)) (groups (wCql w) (evHash e)))"
    from view_cql [OF f this] show ?thesis unfolding stored_view by blast
  qed
qed

lemma view_delete:
  assumes "ssDeleteState (hStore h) (evHash e) w = (oe, w')"
  shows "view w' = removed e (view w) \<or> oe \<noteq> None \<and> view w' = view w"
proof -
  have f: "cql_only w w'" using store.delete_frame [OF assms] ..
  have r: "view w' = removed e (view w)" if "groups (wCql w') = (groups (wCql w))(evHash e := None)"
    using view_cql [OF f that] by (simp add: removed_def join_abs_def)
  show ?thesis
  proof (cases oe)
    case None
    with r store.delete_ok assms show ?thesis by simp
  next
    case (Some err)
    with store.delete_err [of "evHash e" w err w'] assms view_cql_same [OF f] r show ?thesis by auto
  qed
qed

lemma view_publish:
  assumes "Handler_publishTo h topic v key w = (oe, w')"
  shows "view w' = emit (topic, key, v) (view w) \<or> oe \<noteq> None \<and> view w' = view w"
proof -
  from assms have p: "prProduceSync P topic key v w = (oe, w')"
    by (simp add: Handler_publishTo_def producer)
  show ?thesis
    using prod.produce_frame [OF p] prod.produce_cases [OF p]
    by (auto simp: join_abs_def kafka_only_def emit_def)
qed

lemma view_redis: "redis_only w w' \<Longrightarrow> seen (wRedis w') = A \<Longrightarrow> tracked (wRedis w') = B \<Longrightarrow>
    view w' = (view w)\<lparr>jSeen := A, jTracked := B\<rparr>"
  by (simp add: join_abs_def redis_only_def)

lemma view_add:
  assumes "hBloom h = Some B" and "bcAdd B x w = (oe, w')"
  obtains S where "view w' = (view w)\<lparr>jSeen := S\<rparr>" and "jSeen (view w) \<subseteq> S" and "oe = None \<longrightarrow> x \<in> S"
proof -
  note laws = bloom [OF assms(1)]
  have r: "view w' = (view w)\<lparr>jSeen := seen (wRedis w')\<rparr>"
    using view_redis [OF bloom_laws.add_frame [OF laws assms(2)] refl bloom_add_keys [OF assms]]
    by (simp add: join_abs_def)
  moreover have "jSeen (view w) \<subseteq> seen (wRedis w')"
    using bloom_laws.add_mono [OF laws assms(2)] by (simp add: join_abs_def)
  moreover have "oe = None \<longrightarrow> x \<in> seen (wRedis w')"
    using bloom_laws.add_ok [OF laws, of x w w'] assms(2) by auto
  ultimately show ?thesis by (rule that)
qed

lemma view_remove:
  assumes "hLateTracker h = Some T" and "ltRemove T x w = (oe, w')"
  shows "view w' = (view w)\<lparr>jTracked := jTracked (view w) - {x}\<rparr> \<or> view w' = view w"
proof -
  note laws = late_tracker [OF assms(1)]
  have r: "view w' = (view w)\<lparr>jTracked := tracked (wRedis w')\<rparr>"
    using view_redis [OF tracker_laws.remove_frame [OF laws assms(2)] tracker_remove_keys [OF assms] refl]
    by (simp add: join_abs_def)
  have "tracked (wRedis w') = tracked (wRedis w) - {x} \<or> tracked (wRedis w') = tracked (wRedis w)"
    using tracker_laws.remove_ok [OF laws, of x w w'] tracker_laws.remove_err [OF laws, of x w _ w'] assms(2)
    by (cases oe) auto
  with r show ?thesis by (auto simp: join_abs_def)
qed

text \<open>The blocks of \<open>Handle\<close>.\<close>

lemma Handle_bloom_sim:
  assumes "Handle_bloom h (evStream e) (evHash e) (evRaw e) (evPayload e) w = (fl, w')"
  shows "case fl of Falls \<Rightarrow> view w' = view w \<and> evHash e \<in> jSeen (view w)
    | Returns oe \<Rightarrow> step e (view w) oe (view w')"
proof (cases "hBloom h")
  case None
  then show ?thesis using assms no_bloom by (auto simp: Handle_bloom_def join_abs_def)
next
  case (Some B)
  obtain r w1 where x: "bcExists B (evHash e) w = (r, w1)" by fastforce
  note v1 = view_exists [OF Some x]
  consider (err) err where "r = Inl err" | (yes) "r = Inr True" | (no) "r = Inr False"
    by (metis (full_types) sum.exhaust)
  then show ?thesis
  proof cases
    case err
    with assms Some x v1 show ?thesis by (auto simp: Handle_bloom_def intro: handle_step.unavailable)
  next
    case yes
    have "evHash e \<in> jSeen (view w)"
      using bloom_laws.exists_ok [OF bloom [OF Some] x [unfolded yes]] by (simp add: join_abs_def)
    with yes assms Some x v1 show ?thesis by (auto simp: Handle_bloom_def)
  next
    case no
    have new: "evHash e \<notin> jSeen (view w)"
      using bloom_laws.exists_ok [OF bloom [OF Some] x [unfolded no]] by (simp add: join_abs_def)
    obtain o2 w2 where u: "ssUpsertParticipantOnly (hStore h) (evHash e) (evRaw e) (ConfigID (hJoinCfg h))
        (evStream e) (evPayload e) w1 = (o2, w2)" by fastforce
    obtain t where v2: "view w2 = stored e t (view w) \<or> o2 \<noteq> None \<and> view w2 = view w"
      using view_only [OF u] v1 by auto
    show ?thesis
    proof (cases o2)
      case (Some err)
      with assms \<open>hBloom h = Some B\<close> x no u have "fl = Returns (Some (ErrWrap ''upsert participant only: %w'' [] err))"
        "w' = w2" by (simp_all add: Handle_bloom_def)
      with v2 show ?thesis by (auto intro: handle_step.unavailable handle_step.stored_fault)
    next
      case None
      with v2 have v2: "view w2 = stored e t (view w)" by simp
      obtain o3 w3 where d: "bcAdd B (evHash e) w2 = (o3, w3)" by fastforce
      obtain S where S: "view w3 = (view w2)\<lparr>jSeen := S\<rparr>" "jSeen (view w2) \<subseteq> S" "o3 = None \<longrightarrow> evHash e \<in> S"
        by (rule view_add [OF \<open>hBloom h = Some B\<close> d])
      have v3: "view w3 = stored e t ((view w)\<lparr>jSeen := S\<rparr>)" "jSeen (view w) \<subseteq> S"
        using S v2 by (simp_all add: stored_def)
      show ?thesis
      proof (cases o3)
        case (Some err)
        with assms \<open>hBloom h = Some B\<close> x no u None d have
          "fl = Returns (Some (ErrWrap ''bloom add: %w'' [] err))" "w' = w3"
          by (simp_all add: Handle_bloom_def)
        with v3 new show ?thesis by (auto intro: handle_step.seen_fault)
      next
        case N3: None
        have "fl = Returns None \<and> view w' = view w3"
          using assms \<open>hBloom h = Some B\<close> x no u None d N3
          by (auto simp: Handle_bloom_def Let_def split: option.splits if_splits prod.splits
              dest!: view_now dest: view_schedule)
        with v3 S(3) N3 new show ?thesis by (auto intro: handle_step.first)
      qed
    qed
  qed
qed

lemma Handle_late_sim:
  assumes "Handle_late X h (evHash e) (Some st) w = (fl, w')"
    and "state_shows st (group_with e t (jGroups a (evHash e)))" and "view w = stored e t a"
    and seen: "evHash e \<in> jSeen a"
  shows "case fl of Falls \<Rightarrow> view w' = view w | Returns oe \<Rightarrow> step e a oe (view w')"
proof (cases "\<exists>T. hLateTracker h = Some T \<and> int (length (ParticipantData st)) < join_N (hJoinCfg h)
    \<and> hCorrectionsTopic h \<noteq> ''''")
  case False
  then show ?thesis using assms(1) by (auto simp: Handle_late_def split: option.splits if_splits)
next
  case True
  then obtain T where T: "hLateTracker h = Some T" and
    n: "int (length (ParticipantData st)) < join_N (hJoinCfg h)" and c: "hCorrectionsTopic h \<noteq> ''''" by blast
  let ?g = "group_with e t (jGroups a (evHash e))"
  have nc: "\<not> group_complete (hJoinCfg h) ?g"
    using state_shows_complete [OF assms(2)] n by (metis not_le)
  obtain r w1 where r: "ltContains T (evHash e) w = (r, w1)" by fastforce
  note v1 = view_contains [OF T r]
  show ?thesis
  proof (cases "r = Inr True")
    case False
    then have "(case r of Inl _ \<Rightarrow> False | Inr b \<Rightarrow> b) = False" by (auto split: sum.splits)
    with assms(1) T n c r v1 show ?thesis by (auto simp: Handle_late_def)
  next
    case True
    have "jTracked (view w) = jTracked a" using assms(3) by (simp add: stored_def)
    with tracker_laws.contains_ok [OF late_tracker [OF T] r [unfolded True]]
    have tr: "evHash e \<in> jTracked a" by (simp add: join_abs_def)
    show ?thesis
    proof (cases "projection_Apply (ParticipantData st) (Projection (hJoinCfg h))")
      case (Inl err)
      with assms(1,3) T n c r True v1 show ?thesis
        by (auto simp: Handle_late_def intro: handle_step.stored_fault)
    next
      case (Inr partial)
      obtain now w2 where now: "time_Now w1 = (now, w2)" by fastforce
      define corr where "corr = \<lparr>ceKind = KindLate, ceJoinKey = JoinKeyRaw st, ceTimestamp = now,
                                 cePayload = Some partial\<rparr>"
      note v2 = view_now [OF now]
      show ?thesis
      proof (cases "CorrectionEvent_Marshal X corr")
        case (Inl err)
        with assms(1,3) T n c r True v1 v2 now \<open>projection_Apply _ _ = Inr partial\<close> show ?thesis
          by (auto simp: Handle_late_def corr_def [symmetric] intro: handle_step.stored_fault)
      next
        case m: (Inr bytes)
        obtain perr w3 where p: "Handler_publishTo h (hCorrectionsTopic h) bytes (Some (evHash e)) w2 = (perr, w3)"
          by fastforce
        define w4 where "w4 = (case perr of None \<Rightarrow> w3
          | Some err \<Rightarrow> metric (Inc EgressFailuresTotal [cfgName (hJoinCfg h), ''correction''])
              (lgWarn (hLog h) ''late-arrival correction publish failed''
                 [KStr ''config'', KStr (cfgName (hJoinCfg h)), KStr ''error'', KErr err] w3))"
        obtain o5 w5 where q: "ltRemove T (evHash e) w4 = (o5, w5)" by fastforce
        obtain o6 w6 where d: "ssDeleteState (hStore h) (evHash e) w5 = (o6, w6)" by fastforce
        have fl: "fl = Returns None" "w' = w6"
          using assms(1) T n c r True \<open>projection_Apply _ _ = Inr partial\<close> now m p q d
          by (simp_all add: Handle_late_def corr_def [symmetric] w4_def [symmetric])
        have "view w4 = view w3" by (simp add: w4_def split: option.split)
        with view_publish [OF p] v1 v2 assms(3)
        have v4: "view w4 = emit (hCorrectionsTopic h, Some (evHash e), bytes) (stored e t a)
          \<or> view w4 = stored e t a" by auto
        from view_remove [OF T q] view_delete [OF d] v4
        have "step e a None (view w6)"
          by (intro handle_step.late [OF seen nc refl tr c]) (auto simp: view_defs)
        with fl show ?thesis by simp
      qed
    qed
  qed
qed

lemma Handle_publish_sim:
  assumes "Handle_publish h rec (evHash e) state start d w = (oe, w')"
    and g: "evHash e \<in> jSeen a" "group_complete (hJoinCfg h) g" "g = group_with e t (jGroups a (evHash e))"
      "group_doc (hJoinCfg h) g d"
    and "view w = stored e t a" and key: "evKey e = rcKey rec"
  shows "step e a oe (view w')"
proof (cases "0 < PostJoinDelay (hJoinCfg h) \<and> hDelayQueue h \<noteq> None")
  case True
  then obtain D where D: "hDelayQueue h = Some D" by blast
  obtain now w1 where now: "time_Now w = (now, w1)" by fastforce
  have "oe = None \<and> view w' = stored e t a"
    using assms(1,6) D True view_delay [OF D] view_now [OF now] now
    by (auto simp: Handle_publish_def)
  then show ?thesis using handle_step.delayed [OF g] True by simp
next
  case False
  then have nd: "(if PostJoinDelay (hJoinCfg h) > 0 then hDelayQueue h else None) = None" by simp
  obtain o1 w1 where p: "Handler_publishTo h (hEgressTopic h) d (evKey e) w = (o1, w1)" by fastforce
  have p': "Handler_publish h d (rcKey rec) w = (o1, w1)" using p key by (simp add: Handler_publish_def)
  show ?thesis
  proof (cases o1)
    case (Some err)
    with assms(1) nd p' have "oe = Some err" "view w' = view w1" by (auto simp: Handle_publish_def)
    with view_publish [OF p] assms(6) show ?thesis
      by (auto intro: handle_step.publish_fault [OF g] handle_step.stored_fault)
  next
    case None
    have v1: "view w1 = emit (hEgressTopic h, evKey e, d) (stored e t a)"
      using view_publish [OF p] None assms(6) by simp
    define w2 where "w2 = metric (Inc JoinSuccessTotal [cfgName (hJoinCfg h)]) w1"
    obtain now w3 where now: "time_Now w2 = (now, w3)" by fastforce
    define w5 where "w5 = observe_state_age h state (metric (Observe JoinLatencySeconds
      [cfgName (hJoinCfg h)] (time_Sub now start)) w3)"
    obtain o6 w6 where del: "ssDeleteState (hStore h) (evHash e) w5 = (o6, w6)" by fastforce
    have v5: "view w5 = view w1" using view_now [OF now] by (simp add: w5_def w2_def)
    have w6: "w' = w6 \<and> (oe = None) = (o6 = None)"
      using assms(1) nd p' None now del
      by (auto simp: Handle_publish_def w2_def [symmetric] w5_def [symmetric] split: option.splits)
    have rm: "removed e (emit m (stored e t a)) = emit m (removed e a)" for m
      by (simp add: view_defs)
    show ?thesis
    proof (cases o6)
      case None
      with view_delete [OF del] v5 v1 rm w6 show ?thesis by (auto intro: handle_step.joined [OF g])
    next
      case (Some err)
      with view_delete [OF del] v5 v1 rm w6 show ?thesis
        by (cases oe) (auto intro: handle_step.delete_fault [OF g] handle_step.publish_fault [OF g])
    qed
  qed
qed

lemma Handle_join_sim:
  assumes "Handle_join X h rec (evStream e) (evHash e) (evRaw e) (evPayload e) w = (oe, w')"
    and key: "evKey e = rcKey rec" and seen: "evHash e \<in> jSeen (view w)"
  shows "step e (view w) oe (view w')"
proof -
  obtain r w1 where u: "ssUpsertParticipant (hStore h) (evHash e) (evRaw e) (ConfigID (hJoinCfg h))
      (evStream e) (evPayload e) w = (r, w1)" by fastforce
  show ?thesis
  proof (cases r)
    case (Inl err)
    with assms u view_upsert_err [OF u [unfolded Inl]] show ?thesis
      by (auto simp: Handle_join_def intro: handle_step.unavailable handle_step.stored_fault)
  next
    case (Inr ost)
    obtain t st where v1: "view w1 = stored e t (view w)" and st: "ost = Some st"
      and sh: "state_shows st (group_with e t (jGroups (view w) (evHash e)))"
      by (rule view_upsert_ok [OF u [unfolded Inr]])
    obtain fl w2 where l: "Handle_late X h (evHash e) (Some st) w1 = (fl, w2)" by fastforce
    note late = Handle_late_sim [OF l sh v1 seen]
    show ?thesis
    proof (cases fl)
      case (Returns err)
      with assms u Inr st l late show ?thesis by (simp add: Handle_join_def)
    next
      case Falls
      obtain start w3 where now: "time_Now w2 = (start, w3)" by fastforce
      have v3: "view w3 = stored e t (view w)" using view_now [OF now] late Falls v1 by simp
      show ?thesis
      proof (cases "Engine_Process (hEngine h) (Some st)")
        case (Inl err)
        with assms u \<open>r = Inr ost\<close> st l Falls now v3 show ?thesis
          by (auto simp: Handle_join_def intro: handle_step.stored_fault)
      next
        case p: (Inr res)
        let ?cfg = "hJoinCfg h"
        have cc: "Engine_IsComplete (hEngine h) (Some st) \<longleftrightarrow>
            group_complete ?cfg (group_with e t (jGroups (view w) (evHash e)))"
          using state_shows_complete [OF sh] by (simp add: Engine_IsComplete_def engine engine_New_def)
        show ?thesis
        proof (cases "len_opt (prJoinedBytes res) > 0")
          case False
          then have "\<not> group_complete ?cfg (group_with e t (jGroups (view w) (evHash e)))"
            using Engine_Process_cases [OF p] cc by simp
          with assms u \<open>r = Inr ost\<close> st l Falls now v3 p False show ?thesis
            by (auto simp: Handle_join_def intro: handle_step.wait [OF seen _ refl])
        next
          case True
          then obtain d where d: "prJoinedBytes res = Some d" by (auto simp: len_opt_def split: option.splits)
          have c: "group_complete ?cfg (group_with e t (jGroups (view w) (evHash e)))"
            using Engine_Process_cases [OF p] cc True by simp
          have "projection_Apply (ParticipantData st) (Projection ?cfg) = Inr d"
            using p d by (auto simp: Engine_Process_def Engine_Project_def engine engine_New_def
                split: if_splits sum.splits)
          note doc = state_shows_doc [OF sh this]
          have "Handle_publish h rec (evHash e) (Some st) start d w3 = (oe, w')"
            using assms u \<open>r = Inr ost\<close> st l Falls now p True d by (simp add: Handle_join_def)
          from Handle_publish_sim [OF this seen c refl doc v3 key] show ?thesis .
        qed
      qed
    qed
  qed
qed

text \<open>
  The simulation.  A message that is not an event is refused and changes nothing; any other makes
  one step.
\<close>

lemma Handle_sim:
  assumes "Handle X h rec w = (oe, w')"
  shows "case event_of (hJoinCfg h) rec of
      None \<Rightarrow> oe \<noteq> None \<and> view w' = view w
    | Some e \<Rightarrow> step e (view w) oe (view w')"
proof (cases "event_of (hJoinCfg h) rec")
  case None
  then show ?thesis using assms by (auto simp: Handle_def event_of_def split: sum.splits prod.splits)
next
  case (Some e)
  then obtain s x raw where k: "getStreamID rec = Inr s" "extractKey (hJoinCfg h) (rcValue rec) = Inr (x, raw)"
    and e: "evStream e = s" "evHash e = x" "evRaw e = raw" "evKey e = rcKey rec"
      "evPayload e = (case rcValue rec of None \<Rightarrow> ''{}'' | Some v \<Rightarrow> v)"
    by (auto simp: event_of_def split: sum.splits)
  let ?w1 = "metric (Inc EventsProcessedTotal [cfgName (hJoinCfg h), s]) w"
  obtain fl w2 where b: "Handle_bloom h (evStream e) (evHash e) (evRaw e) (evPayload e) ?w1 = (fl, w2)"
    by fastforce
  note bl = Handle_bloom_sim [OF b]
  have eq: "Handle X h rec w = (case fl of Returns err \<Rightarrow> (err, w2)
      | Falls \<Rightarrow> Handle_join X h rec (evStream e) (evHash e) (evRaw e) (evPayload e) w2)"
    using b by (simp add: Handle_def k e [symmetric] split: flow.split)
  show ?thesis
  proof (cases fl)
    case (Returns err)
    with assms eq bl Some show ?thesis by simp
  next
    case Falls
    with assms eq bl Some Handle_join_sim [of X rec e w2 oe w'] e show ?thesis by simp
  qed
qed

end

section \<open>What every step keeps\<close>

text \<open>A step of one key leaves the groups of the other keys alone.\<close>

lemma handle_step_other:
  "handle_step cfg out corr e a oe b \<Longrightarrow> x \<noteq> evHash e \<Longrightarrow> jGroups b x = jGroups a x"
  by (cases rule: handle_step.cases, assumption) (auto simp: view_defs)

text \<open>The messages sent: at most one, and which.\<close>

lemma handle_step_sent:
  assumes "handle_step cfg out corr e a oe b"
  obtains (none) "jSent b = jSent a"
  | (egress) t g d where "jSent b = jSent a @ [(out, evKey e, d)]" "evHash e \<in> jSeen a"
      "g = group_with e t (jGroups a (evHash e))" "group_complete cfg g" "group_doc cfg g d"
  | (correction) t m where "oe = None" "jSent b = jSent a @ [(corr, Some (evHash e), m)]" "evHash e \<in> jTracked a"
      "corr \<noteq> ''''" "\<not> group_complete cfg (group_with e t (jGroups a (evHash e)))"
  using assms
proof (cases rule: handle_step.cases)
  case (late g t)
  then show ?thesis using that by blast
qed (use that in \<open>auto simp: view_defs\<close>)

lemma handle_step_sent_prefix: "handle_step cfg out corr e a oe b \<Longrightarrow> \<exists>ms. jSent b = jSent a @ ms"
  by (erule handle_step_sent) auto

text \<open>
  The group of the key: either nothing was stored, or it holds the new participant beside the old
  ones, or it was removed after its document was sent, or on the late path.
\<close>

lemma handle_step_group:
  assumes "handle_step cfg out corr e a oe b"
  obtains (same) "oe \<noteq> None" "jGroups b = jGroups a"
  | (stored) t where "jGroups b = (jGroups a)(evHash e \<mapsto> group_with e t (jGroups a (evHash e)))"
  | (published) t g d where "jGroups b = (jGroups a)(evHash e := None)" "jSent b = jSent a @ [(out, evKey e, d)]"
      "g = group_with e t (jGroups a (evHash e))" "group_complete cfg g" "group_doc cfg g d"
  | (late) "oe = None" "jGroups b = (jGroups a)(evHash e := None)" "evHash e \<in> jTracked a" "corr \<noteq> ''''"
  using assms
  by (cases rule: handle_step.cases) (use that in \<open>auto simp: view_defs\<close>)

text \<open>The first event of a key, as far as the Bloom filter knows, never sends anything.\<close>

lemma handle_step_first:
  assumes "handle_step cfg out corr e a oe b" and "evHash e \<notin> jSeen a"
  shows "jSent b = jSent a"
  using assms by (cases rule: handle_step.cases) (auto simp: view_defs)

lemma handle_step_unseen_ok:
  "handle_step cfg out corr e a None b \<Longrightarrow> evHash e \<notin> jSeen a \<Longrightarrow> \<exists>t S. b = stored e t (a\<lparr>jSeen := S\<rparr>)"
  by (cases rule: handle_step.cases, assumption) auto

section \<open>Payloads that decode\<close>

text \<open>The handler only stores payloads it could decode, so a projection never fails.\<close>

definition group_decodes :: "group \<Rightarrow> bool" where
  "group_decodes g \<longleftrightarrow> (\<forall>raw\<in>ran (gData g). decodes raw)"

definition groups_decode :: "(bytes \<rightharpoonup> group) \<Rightarrow> bool" where
  "groups_decode gs \<longleftrightarrow> (\<forall>g\<in>ran gs. group_decodes g)"

lemma json_Unmarshal_map_Nil: "json_Unmarshal_map [] = Inl json_syntax_error"
  by (simp add: json_Unmarshal_map_def json_Unmarshal_def json_parse_def parse_value.simps)

lemma event_decodes:
  assumes "event_of cfg rec = Some e"
  shows "decodes (evPayload e)"
proof -
  from assms obtain h raw where x: "extractKey cfg (rcValue rec) = Inr (h, raw)"
    and p: "evPayload e = (case rcValue rec of None \<Rightarrow> ''{}'' | Some v \<Rightarrow> v)"
    by (auto simp: event_of_def split: sum.splits)
  from x obtain v where "rcValue rec = Some v"
    by (cases "rcValue rec") (simp_all add: extractKey_def json_Unmarshal_map_Nil)
  with x p show ?thesis by (auto simp: extractKey_def decodes_def is_ok_def split: sum.splits)
qed

lemma ran_map_upd_subset: "y \<in> ran (m(k \<mapsto> v)) \<Longrightarrow> y = v \<or> y \<in> ran m"
  by (auto simp: ran_def split: if_splits)

lemma ran_map_remove: "y \<in> ran (m(k := None)) \<Longrightarrow> y \<in> ran m"
  by (auto simp: ran_def split: if_splits)

lemma group_with_decodes:
  assumes "decodes (evPayload e)" and "\<And>g. og = Some g \<Longrightarrow> group_decodes g"
  shows "group_decodes (group_with e t og)"
  using assms
  by (cases og) (auto simp: group_decodes_def group_with_def group_put_def dest!: ran_map_upd_subset)

lemma handle_step_decodes:
  assumes "handle_step cfg out corr e a oe b" and "decodes (evPayload e)" and "groups_decode (jGroups a)"
  shows "groups_decode (jGroups b)"
proof -
  have g: "group_decodes (group_with e t (jGroups a (evHash e)))" for t
    by (rule group_with_decodes) (use assms(2,3) in \<open>auto simp: groups_decode_def intro: ranI\<close>)
  from assms(1) show ?thesis
  proof (cases rule: handle_step_group)
    case (stored t)
    with g [of t] assms(3) show ?thesis by (auto simp: groups_decode_def dest!: ran_map_upd_subset)
  qed (use assms(3) in \<open>auto simp: groups_decode_def dest!: ran_map_remove\<close>)
qed

lemma state_shows_decodes:
  assumes "state_shows st g" and "group_decodes g"
  shows "is_ok (projection_Apply (ParticipantData st) proj)"
proof -
  have "raw \<in> ran (gData g)" if "raw \<in> snd ` set (ParticipantData st)" for raw
  proof -
    from that obtain k where "(k, raw) \<in> set (ParticipantData st)" by auto
    moreover have "distinct (map fst (ParticipantData st))" using assms(1) by (simp add: state_shows_def gm_wf_def)
    ultimately have "map_of (ParticipantData st) k = Some raw" by simp
    then show ?thesis using assms(1) by (auto simp: state_shows_def intro: ranI)
  qed
  then show ?thesis using assms(2) by (auto simp: projection_Apply_ok_iff group_decodes_def)
qed

section \<open>The fault-free join\<close>

text \<open>
  \<open>join_next\<close> is the join without Bloom filter, timers or faults: the event is added to its group; a
  complete group is sent as one document and forgotten.
\<close>

definition join_next :: "join_config \<Rightarrow> string \<Rightarrow> event \<Rightarrow> join_view \<Rightarrow> join_view \<Rightarrow> bool" where
  "join_next cfg out e a b \<longleftrightarrow> (\<exists>t g. g = group_with e t (jGroups a (evHash e)) \<and>
     (if group_complete cfg g
      then jGroups b = (jGroups a)(evHash e := None)
        \<and> (\<exists>d. group_doc cfg g d \<and> jSent b = jSent a @ [(out, evKey e, d)])
      else jGroups b = (jGroups a)(evHash e \<mapsto> g) \<and> jSent b = jSent a))"

text \<open>\<open>marked a\<close>: the Bloom filter knows every key that has a group.\<close>

definition marked :: "join_view \<Rightarrow> bool" where
  "marked a \<longleftrightarrow> dom (jGroups a) \<subseteq> jSeen a"

text \<open>\<open>untracked\<close>: no correction is due for the key; \<open>prompt\<close>: completed joins are published at once.\<close>

lemma group_with_dom: "dom (gData (group_with e t None)) = {evStream e}"
  by (simp add: group_with_def group_put_def)

lemma handle_step_ok_next:
  assumes "handle_step cfg out corr e a None b" and "marked a" and "PostJoinDelay cfg \<le> 0"
    and "corr = '''' \<or> evHash e \<notin> jTracked a" and "2 \<le> join_N cfg"
  shows "join_next cfg out e a b \<and> marked b"
  using assms(1)
proof (cases rule: handle_step.cases)
  case (first S t)
  have n: "jGroups a (evHash e) = None" using first assms(2) by (auto simp: marked_def)
  have "\<not> group_complete cfg (group_with e t None)"
    using assms(5) by (simp add: group_complete_def group_with_dom)
  with n first have "join_next cfg out e a b"
    unfolding join_next_def by (intro exI [of _ t] exI [of _ "group_with e t None"]) (simp add: stored_def)
  moreover have "marked b" using first assms(2) by (auto simp: marked_def stored_def)
  ultimately show ?thesis by simp
next
  case (wait g t)
  then have "join_next cfg out e a b"
    unfolding join_next_def by (intro exI [of _ t] exI [of _ g]) (simp add: stored_def)
  moreover have "marked b" using wait assms(2) by (auto simp: marked_def stored_def)
  ultimately show ?thesis by simp
next
  case (joined g t d)
  then have "join_next cfg out e a b"
    unfolding join_next_def by (intro exI [of _ t] exI [of _ g]) (auto simp: view_defs)
  moreover have "marked b" using joined assms(2) by (auto simp: marked_def view_defs)
  ultimately show ?thesis by simp
qed (use assms(3,4) in auto)

section \<open>The order of arrival\<close>

inductive join_run :: "join_config \<Rightarrow> string \<Rightarrow> event list \<Rightarrow> join_view \<Rightarrow> join_view \<Rightarrow> bool"
  for cfg out
where
  "join_run cfg out [] a a"
| "join_next cfg out e a b \<Longrightarrow> join_run cfg out es b c \<Longrightarrow> join_run cfg out (e # es) a c"

inductive_simps join_run_Nil [simp]: "join_run cfg out [] a b"
inductive_simps join_run_Cons: "join_run cfg out (e # es) a c"

lemma join_run_append:
  "join_run cfg out (es @ fs) a c \<longleftrightarrow> (\<exists>b. join_run cfg out es a b \<and> join_run cfg out fs b c)"
  by (induction es arbitrary: a) (auto simp: join_run_Cons)

text \<open>The participants of a list of events, whatever their order.\<close>

definition participants :: "event list \<Rightarrow> string \<rightharpoonup> bytes" where
  "participants es = map_of (map (\<lambda>e. (evStream e, evPayload e)) es)"

definition one_key :: "bytes \<Rightarrow> event list \<Rightarrow> bool" where
  "one_key h es \<longleftrightarrow> (\<forall>e\<in>set es. evHash e = h) \<and> distinct (map evStream es)"

lemma participants_dom: "dom (participants es) = evStream ` set es"
  by (simp add: participants_def dom_map_of_conv_image_fst image_image)

lemma participants_card: "one_key h es \<Longrightarrow> card (dom (participants es)) = length es"
  unfolding participants_dom one_key_def by (metis distinct_card length_map set_map)

lemma participants_snoc:
  assumes "one_key h (es @ [e])"
  shows "participants (es @ [e]) = (participants es)(evStream e \<mapsto> evPayload e)"
proof -
  have "evStream e \<notin> evStream ` set es" using assms by (simp add: one_key_def)
  then have "participants es (evStream e) = None" using participants_dom by (metis domIff)
  then show ?thesis by (auto simp: participants_def map_add_def fun_eq_iff split: option.split)
qed

lemma participants_perm:
  assumes "mset es = mset fs" and "one_key h es"
  shows "participants es = participants fs"
proof -
  have d: "distinct (map evStream es)" "distinct (map evStream fs)"
    using assms by (metis one_key_def, metis one_key_def mset_eq_imp_distinct_iff mset_map)
  have "set es = set fs" using assms(1) by (rule mset_eq_setD)
  then show ?thesis
    unfolding participants_def using d by (intro map_of_inject_set [THEN iffD2]) (simp_all add: comp_def)
qed

lemma one_key_butlast: "one_key h (es @ [e]) \<Longrightarrow> one_key h es \<and> evHash e = h"
  by (simp add: one_key_def)

text \<open>Up to the last event of a key, the group collects the participants and nothing is sent.\<close>

lemma join_run_collects:
  assumes "one_key h es" and "jGroups a h = None" and "int (length es) < join_N cfg" and "join_run cfg out es a b"
  shows "(case jGroups b h of None \<Rightarrow> Map.empty | Some g \<Rightarrow> gData g) = participants es \<and> jSent b = jSent a"
  using assms(1,3,4)
proof (induction es arbitrary: b rule: rev_induct)
  case Nil
  then show ?case using assms(2) by (simp add: participants_def)
next
  case (snoc e es)
  note k = one_key_butlast [OF snoc.prems(1)]
  from snoc.prems(3) obtain c where c: "join_run cfg out es a c" "join_next cfg out e c b"
    by (auto simp: join_run_append join_run_Cons)
  from snoc.IH [of c] k snoc.prems(2) c(1)
  have ih: "(case jGroups c h of None \<Rightarrow> Map.empty | Some g \<Rightarrow> gData g) = participants es" "jSent c = jSent a"
    by auto
  have g: "gData (group_with e t (jGroups c h)) = participants (es @ [e])" for t
    using ih(1) by (auto simp: participants_snoc [OF snoc.prems(1)] group_with_def group_put_def Let_def split: option.splits)
  have "\<not> group_complete cfg (group_with e t (jGroups c h))" for t
    using snoc.prems(2) participants_card [OF snoc.prems(1)] by (simp add: group_complete_def g)
  with c(2) k have "jSent b = jSent c" "\<exists>t. jGroups b h = Some (group_with e t (jGroups c h))"
    by (auto simp: join_next_def)
  with ih(2) g show ?case by auto
qed

text \<open>
  When the events of a key have one stream each and there is one for every stream, they are sent as
  one document, and the document is a function of the participants.
\<close>

lemma join_run_completes:
  assumes "one_key h es" and "jGroups a h = None" and "int (length es) = join_N cfg" and "es \<noteq> []"
    and "join_run cfg out es a b"
  obtains g d where "jSent b = jSent a @ [(out, evKey (last es), d)]" and "jGroups b h = None"
    and "gData g = participants es" and "group_doc cfg g d"
proof -
  obtain ps e where es: "es = ps @ [e]" using assms(4) by (metis append_butlast_last_id)
  note k = one_key_butlast [OF assms(1) [unfolded es]]
  from assms(5) obtain c where c: "join_run cfg out ps a c" "join_next cfg out e c b"
    by (auto simp: es join_run_append join_run_Cons)
  have "int (length ps) < join_N cfg" using assms(3) by (simp add: es)
  from join_run_collects [OF _ assms(2) this c(1)] k
  have ih: "(case jGroups c h of None \<Rightarrow> Map.empty | Some g \<Rightarrow> gData g) = participants ps" "jSent c = jSent a"
    by auto
  have g: "gData (group_with e t (jGroups c h)) = participants es" for t
    using ih(1) participants_snoc [OF assms(1) [unfolded es]]
    by (auto simp: es group_with_def group_put_def Let_def split: option.splits)
  have "group_complete cfg (group_with e t (jGroups c h))" for t
    using participants_card [OF assms(1)] assms(3) by (simp add: group_complete_def g)
  with c(2) k obtain t d where "group_doc cfg (group_with e t (jGroups c h)) d"
    "jSent b = jSent c @ [(out, evKey e, d)]" "jGroups b h = None"
    by (auto simp: join_next_def)
  with g ih(2) show ?thesis
    by (intro that [where g = "group_with e t (jGroups c h)" and d = d]) (simp_all add: es)
qed

lemma group_doc_data: "gData g = gData g' \<Longrightarrow> group_doc cfg g d = group_doc cfg g' d"
  by (simp add: group_doc_def)

lemma join_run_any_order:
  assumes "one_key h es" and "mset es = mset fs" and "int (length es) = join_N cfg" and "es \<noteq> []"
    and "jGroups a h = None" and "join_run cfg out es a b"
    and "jGroups a' h = None" and "join_run cfg out fs a' b'"
  obtains d where "jSent b = jSent a @ [(out, evKey (last es), d)]"
    and "jSent b' = jSent a' @ [(out, evKey (last fs), d)]"
proof -
  obtain g d where g: "jSent b = jSent a @ [(out, evKey (last es), d)]" "gData g = participants es" "group_doc cfg g d"
    by (rule join_run_completes [OF assms(1,5,3,4,6)])
  have k: "one_key h fs" using assms(1,2)
    by (metis one_key_def mset_eq_imp_distinct_iff mset_eq_setD mset_map)
  have l: "int (length fs) = join_N cfg" "fs \<noteq> []" using assms(2,3,4)
    by (metis mset_eq_length, metis mset_eq_length length_0_conv)
  obtain g' d' where g': "jSent b' = jSent a' @ [(out, evKey (last fs), d')]" "gData g' = participants fs"
    "group_doc cfg g' d'"
    by (rule join_run_completes [OF k assms(7) l assms(8)])
  have "gData g' = gData g" using g(2) g'(2) participants_perm [OF assms(2,1)] by simp
  with g(3) g'(3) have "d' = d" using group_doc_data group_doc_unique by metis
  with g(1) g'(1) that show ?thesis by simp
qed

section \<open>A message handled again\<close>

text \<open>
  After a failure the message is handled again.  Its event may be in the group already, and its document
  may have been sent; what the second run then sends is the document of the same participants.
\<close>

lemma group_with_data:
  "gData (group_with e t og) = (case og of None \<Rightarrow> Map.empty | Some g \<Rightarrow> gData g)(evStream e \<mapsto> evPayload e)"
  by (simp add: group_with_def group_put_def split: option.splits)

lemma group_complete_data: "gData g = gData g' \<Longrightarrow> group_complete cfg g = group_complete cfg g'"
  by (simp add: group_complete_def)

text \<open>An event that completes its group, and is handled without an error, sends the group's document.\<close>

lemma handle_step_completes:
  assumes "handle_step cfg out [] e a None b" and "evHash e \<in> jSeen a" and "PostJoinDelay cfg \<le> 0"
    and "group_complete cfg (group_with e t (jGroups a (evHash e)))"
  obtains g d where "gData g = gData (group_with e t (jGroups a (evHash e)))" and "group_doc cfg g d"
    and "jSent b = jSent a @ [(out, evKey e, d)]" and "jGroups b (evHash e) = None"
  using assms(1)
proof (cases rule: handle_step.cases)
  case (wait g t')
  then have "gData g = gData (group_with e t (jGroups a (evHash e)))" by (simp add: group_with_data)
  with wait assms(4) show ?thesis by (simp add: group_complete_def)
next
  case (joined g t' d)
  then show ?thesis by (intro that [of g d]) (simp_all add: view_defs group_with_data)
qed (use assms(2,3) in auto)

lemma handle_step_retry:
  assumes "handle_step cfg out [] e a (Some err) b" and "handle_step cfg out [] e b None c"
    and "evHash e \<in> jSeen a" and "PostJoinDelay cfg \<le> 0"
    and g: "group_complete cfg (group_with e t (jGroups a (evHash e)))"
  shows "\<exists>g d. gData g = gData (group_with e t (jGroups a (evHash e))) \<and> group_doc cfg g d
    \<and> (out, evKey e, d) \<in> set (jSent c)"
proof -
  have sent: "\<exists>ms. jSent c = jSent b @ ms" by (rule handle_step_sent_prefix [OF assms(2)])
  have again: ?thesis if b: "jSeen b = jSeen a"
    "\<And>t'. gData (group_with e t' (jGroups b (evHash e))) = gData (group_with e t (jGroups a (evHash e)))"
  proof -
    obtain g' d where "gData g' = gData (group_with e t (jGroups b (evHash e)))" "group_doc cfg g' d"
      "jSent c = jSent b @ [(out, evKey e, d)]"
      by (rule handle_step_completes [OF assms(2) _ assms(4), of t])
        (use assms(3) b(1) group_complete_data [OF b(2), THEN iffD2, OF g] in simp_all)
    then show ?thesis using b(2) by (intro exI [of _ g'] exI [of _ d]) simp
  qed
  from assms(1) show ?thesis
  proof (cases rule: handle_step.cases)
    case unavailable
    then show ?thesis by (intro again) (simp_all add: group_with_data)
  next
    case (stored_fault t')
    then show ?thesis by (intro again) (simp_all add: stored_def group_with_data)
  next
    case (publish_fault g' t' d)
    then show ?thesis using sent
      by (intro exI [of _ g'] exI [of _ d]) (auto simp: emit_def group_with_data)
  next
    case (delete_fault g' t' d)
    then show ?thesis using sent
      by (intro exI [of _ g'] exI [of _ d]) (auto simp: emit_def group_with_data)
  qed (use assms(3) in simp)
qed

end
