(* ===== verification/Timeout.thy ===== *)
theory Timeout
  imports Join_Spec
begin

text \<open>
  \<open>internal/timeout/manager.go\<close>: deadlines of join keys in a Redis sorted set, and the treatment of
  the keys that are due.  \<open>timeout_step\<close> lists what the treatment of one member does to the
  groups, the tracker, the deadlines and the messages; \<open>process_member_sim\<close> is the simulation.
\<close>

section \<open>The manager\<close>

definition defaultPollInterval :: duration where "defaultPollInterval = 5 * ns_second"
definition timeout_defaultBatchSize :: int where "timeout_defaultBatchSize = 100"

record 'w manager =
  tmStore :: "'w state_store"
  tmJoinCfg :: join_config
  tmProducer :: "'w producer option"
  tmEgressTopic :: string
  tmSetKey :: string
  tmPollInterval :: duration
  tmBatchSize :: int
  tmPartialTracker :: "'w late_tracker option"
  tmLog :: "'w logger"

record 'w timeout_config =
  tcStore :: "'w state_store"
  tcJoinConfig :: join_config
  tcProducer :: "'w producer option"
  tcEgressTopic :: string
  tcSetKey :: string
  tcPollInterval :: duration
  tcBatchSize :: int
  tcPartialTracker :: "'w late_tracker option"
  tcLog :: "'w logger option"

definition timeout_New :: "'w logger \<Rightarrow> 'w timeout_config \<Rightarrow> 'w manager" where
  "timeout_New global cfg = \<lparr>tmStore = tcStore cfg, tmJoinCfg = tcJoinConfig cfg, tmProducer = tcProducer cfg,
     tmEgressTopic = tcEgressTopic cfg,
     tmSetKey = (if tcSetKey cfg = '''' then ''omni_joiner:timeouts'' else tcSetKey cfg),
     tmPollInterval = (if tcPollInterval cfg = 0 then defaultPollInterval else tcPollInterval cfg),
     tmBatchSize = (if tcBatchSize cfg = 0 then timeout_defaultBatchSize else tcBatchSize cfg),
     tmPartialTracker = tcPartialTracker cfg,
     tmLog = (case tcLog cfg of None \<Rightarrow> global | Some l \<Rightarrow> l)\<rparr>"

definition Manager_ScheduleTimeout ::
  "('c, 'r, 'k) ext \<Rightarrow> ('c, 'r, 'k) world manager \<Rightarrow> bytes \<Rightarrow> time \<Rightarrow> ('c, 'r, 'k) world \<Rightarrow>
   go_error option \<times> ('c, 'r, 'k) world"
where
  "Manager_ScheduleTimeout X m joinKeyHash deadline w =
     (let member = hex_EncodeToString joinKeyHash;
          score = f64_int (time_Unix deadline);
          (err, w1) = on_redis (z_add X (tmSetKey m) score member) w
      in case err of
           Some e \<Rightarrow> (Some (ErrWrap ''schedule timeout: %w'' [] e), w1)
         | None \<Rightarrow> (None, w1))"

definition manager_iface :: "('c, 'r, 'k) ext \<Rightarrow> ('c, 'r, 'k) world manager \<Rightarrow> ('c, 'r, 'k) world timeout_scheduler"
where
  "manager_iface X m = \<lparr>tsScheduleTimeout = Manager_ScheduleTimeout X m\<rparr>"

section \<open>processDue\<close>

definition Manager_publish ::
  "'w manager \<Rightarrow> 'w producer \<Rightarrow> bytes \<Rightarrow> bytes option \<Rightarrow> 'w \<Rightarrow> go_error option \<times> 'w" where
  "Manager_publish m producer v key w = prProduceSync producer (tmEgressTopic m) key v w"

text \<open>\<open>m.redis.ZRem(ctx, m.setKey, member)\<close>, whose result the code does not look at.\<close>

definition Manager_ZRem ::
  "('c, 'r, 'k) ext \<Rightarrow> ('c, 'r, 'k) world manager \<Rightarrow> string \<Rightarrow> ('c, 'r, 'k) world \<Rightarrow> ('c, 'r, 'k) world" where
  "Manager_ZRem X m member w = snd (on_redis (z_rem X (tmSetKey m) member) w)"

text \<open>The end of the loop body: the state is deleted, the member removed.\<close>

definition finish_member ::
  "('c, 'r, 'k) ext \<Rightarrow> ('c, 'r, 'k) world manager \<Rightarrow> bytes \<Rightarrow> string \<Rightarrow> ('c, 'r, 'k) world \<Rightarrow> ('c, 'r, 'k) world"
where
  "finish_member X m keyHash member w =
     Manager_ZRem X m member (snd (ssDeleteState (tmStore m) keyHash w))"

text \<open>Publishing the partial result: \<open>None\<close> when the body continues with the next member.\<close>

definition partial_egress ::
  "('c, 'r, 'k) world manager \<Rightarrow> bytes \<Rightarrow> join_state \<Rightarrow> ('c, 'r, 'k) world \<Rightarrow> bool \<times> ('c, 'r, 'k) world"
where
  "partial_egress m keyHash st w =
     (case projection_Apply (ParticipantData st) (Projection (tmJoinCfg m)) of
        Inl err \<Rightarrow> (False, w)
      | Inr partial \<Rightarrow>
          (let (published, w1) = (case tmProducer m of
                 None \<Rightarrow> (True, w)
               | Some producer \<Rightarrow>
                   (case Manager_publish m producer partial (Some keyHash) w of
                      (Some err, w1) \<Rightarrow>
                        (False, lgWarn (tmLog m) ''timeout partial egress produce failed''
                           [KStr ''key'', KBytes (Some keyHash), KStr ''error'', KErr err]
                           (metric (Inc EgressFailuresTotal [cfgName (tmJoinCfg m), ''timeout'']) w1))
                    | (None, w1) \<Rightarrow> (True, w1)))
           in if \<not> published then (False, w1)
              else (case tmPartialTracker m of
                  None \<Rightarrow> (True, w1)
                | Some tracker \<Rightarrow> (True, snd (ltAdd tracker keyHash w1)))))"

definition process_member ::
  "('c, 'r, 'k) ext \<Rightarrow> ('c, 'r, 'k) world manager \<Rightarrow> string \<Rightarrow> ('c, 'r, 'k) world \<Rightarrow> ('c, 'r, 'k) world"
where
  "process_member X m member w = (case hex_DecodeString member of
      Inl err \<Rightarrow> w
    | Inr keyHash \<Rightarrow>
        (case ssGetState (tmStore m) keyHash w of
           (Inr (Some st), w1) \<Rightarrow>
             if int (length (ParticipantData st)) \<ge> join_N (tmJoinCfg m) then Manager_ZRem X m member w1
             else if Egress (tmJoinCfg m) = EgressPartial then
               (let (goes_on, w2) = partial_egress m keyHash st w1
                in if goes_on then finish_member X m keyHash member w2 else w2)
             else finish_member X m keyHash member w1
         | (_, w1) \<Rightarrow> Manager_ZRem X m member w1))"

definition Manager_processDue ::
  "('c, 'r, 'k) ext \<Rightarrow> ('c, 'r, 'k) world manager \<Rightarrow> ('c, 'r, 'k) world \<Rightarrow>
   go_error option \<times> ('c, 'r, 'k) world"
where
  "Manager_processDue X m w =
     (let (t, w1) = time_Now w; now = time_Unix t;
          (res, w2) = on_redis (z_range_by_score X (tmSetKey m) ''-inf'' (int_string now) (tmBatchSize m)) w1
      in case res of
           Inl err \<Rightarrow> (Some err, w2)
         | Inr members \<Rightarrow> (None, fold (process_member X m) members w2))"

text \<open>
  \<open>Run\<close>: one \<open>select\<close> per turn; a tick processes what is due, whatever it returns.  \<open>ticks\<close> bounds the
  number of turns; \<open>None\<close> means that the loop is still running then.
\<close>

fun Manager_Run ::
  "nat \<Rightarrow> ('c, 'r, 'k) ext \<Rightarrow> ('c, 'r, 'k) world manager \<Rightarrow> ('c, 'r, 'k) world \<Rightarrow> ('c, 'r, 'k) world option"
where
  "Manager_Run 0 X m w = None"
| "Manager_Run (Suc ticks) X m w = (case ctx_Err w of
     (Some _, w1) \<Rightarrow> Some w1
   | (None, w1) \<Rightarrow> Manager_Run ticks X m (snd (Manager_processDue X m w1)))"

text \<open>Passes one after the other, as the ticks of \<open>Run\<close> make them.\<close>

fun manager_passes ::
  "nat \<Rightarrow> ('c, 'r, 'k) ext \<Rightarrow> ('c, 'r, 'k) world manager \<Rightarrow> ('c, 'r, 'k) world \<Rightarrow> ('c, 'r, 'k) world"
where
  "manager_passes 0 X m w = w"
| "manager_passes (Suc n) X m w = manager_passes n X m (snd (Manager_processDue X m w))"

section \<open>What the treatment of a member does\<close>

text \<open>The deadlines are kept by member; a member is the hexadecimal form of a key hash.\<close>

record timer_view =
  tvGroups :: "bytes \<rightharpoonup> group"
  tvTracked :: "bytes set"
  tvDeadlines :: "string \<rightharpoonup> f64"
  tvSent :: "sent_message list"

definition timer_abs ::
  "('c \<Rightarrow> bytes \<rightharpoonup> group) \<Rightarrow> ('r \<Rightarrow> bytes set) \<Rightarrow> ('r \<Rightarrow> string \<rightharpoonup> f64) \<Rightarrow> ('k \<Rightarrow> sent_message list) \<Rightarrow>
   ('c, 'r, 'k) world \<Rightarrow> timer_view"
where
  "timer_abs groups tracked dl sent w = \<lparr>tvGroups = groups (wCql w), tvTracked = tracked (wRedis w),
     tvDeadlines = dl (wRedis w), tvSent = sent (wKafka w)\<rparr>"

text \<open>A best-effort removal: it may have failed.\<close>

definition maybe_forgets :: "string \<Rightarrow> (string \<rightharpoonup> f64) \<Rightarrow> (string \<rightharpoonup> f64) \<Rightarrow> bool" where
  "maybe_forgets member d d' \<longleftrightarrow> d' = d(member := None) \<or> d' = d"

definition maybe_removes :: "bytes \<Rightarrow> (bytes \<rightharpoonup> group) \<Rightarrow> (bytes \<rightharpoonup> group) \<Rightarrow> bool" where
  "maybe_removes x g g' \<longleftrightarrow> g' = g(x := None) \<or> g' = g"

inductive timeout_step :: "join_config \<Rightarrow> string \<Rightarrow> string \<Rightarrow> timer_view \<Rightarrow> timer_view \<Rightarrow> bool"
  for cfg out member a
where
  poison: "\<not> is_ok (hex_DecodeString member) \<Longrightarrow> timeout_step cfg out member a a"
| unreadable: "is_ok (hex_DecodeString member) \<Longrightarrow> maybe_forgets member (tvDeadlines a) d \<Longrightarrow>
    timeout_step cfg out member a (a\<lparr>tvDeadlines := d\<rparr>)"
| complete: "hex_DecodeString member = Inr x \<Longrightarrow> tvGroups a x = Some g \<Longrightarrow> group_complete cfg g \<Longrightarrow>
    maybe_forgets member (tvDeadlines a) d \<Longrightarrow>
    timeout_step cfg out member a (a\<lparr>tvDeadlines := d\<rparr>)"
| inner: "hex_DecodeString member = Inr x \<Longrightarrow> tvGroups a x = Some g \<Longrightarrow> \<not> group_complete cfg g \<Longrightarrow>
    Egress cfg \<noteq> EgressPartial \<Longrightarrow> maybe_removes x (tvGroups a) gs \<Longrightarrow>
    maybe_forgets member (tvDeadlines a) d \<Longrightarrow>
    timeout_step cfg out member a (a\<lparr>tvGroups := gs, tvDeadlines := d\<rparr>)"
| project_fault: "hex_DecodeString member = Inr x \<Longrightarrow> tvGroups a x = Some g \<Longrightarrow> \<not> group_complete cfg g \<Longrightarrow>
    Egress cfg = EgressPartial \<Longrightarrow> state_shows st g \<Longrightarrow>
    \<not> is_ok (projection_Apply (ParticipantData st) (Projection cfg)) \<Longrightarrow> timeout_step cfg out member a a"
| publish_fault: "hex_DecodeString member = Inr x \<Longrightarrow> tvGroups a x = Some g \<Longrightarrow> \<not> group_complete cfg g \<Longrightarrow>
    Egress cfg = EgressPartial \<Longrightarrow> group_doc cfg g p \<Longrightarrow>
    s = tvSent a \<or> s = tvSent a @ [(out, Some x, p)] \<Longrightarrow>
    timeout_step cfg out member a (a\<lparr>tvSent := s\<rparr>)"
| partial: "hex_DecodeString member = Inr x \<Longrightarrow> tvGroups a x = Some g \<Longrightarrow> \<not> group_complete cfg g \<Longrightarrow>
    Egress cfg = EgressPartial \<Longrightarrow> group_doc cfg g p \<Longrightarrow>
    s = tvSent a @ [(out, Some x, p)] \<Longrightarrow>
    tr = tvTracked a \<or> tr = insert x (tvTracked a) \<Longrightarrow> maybe_removes x (tvGroups a) gs \<Longrightarrow>
    maybe_forgets member (tvDeadlines a) d \<Longrightarrow>
    timeout_step cfg out member a \<lparr>tvGroups = gs, tvTracked = tr, tvDeadlines = d, tvSent = s\<rparr>"

text \<open>A member that is no key is left as it is.\<close>

lemma timeout_step_poison: "timeout_step cfg out member a b \<Longrightarrow> \<not> is_ok (hex_DecodeString member) \<Longrightarrow> b = a"
  by (auto elim: timeout_step.cases simp: is_ok_def)

text \<open>The treatment of a list of members, one after the other.\<close>

inductive timeout_steps :: "join_config \<Rightarrow> string \<Rightarrow> string list \<Rightarrow> timer_view \<Rightarrow> timer_view \<Rightarrow> bool"
  for cfg out
where
  "timeout_steps cfg out [] a a"
| "timeout_step cfg out member a b \<Longrightarrow> timeout_steps cfg out ms b c \<Longrightarrow>
    timeout_steps cfg out (member # ms) a c"

inductive_cases timeout_stepE: "timeout_step cfg out member a b"

section \<open>What one treatment keeps\<close>

text \<open>At most one message: the document of an incomplete group, under the partial policy.\<close>

lemma timeout_step_sent:
  assumes "timeout_step cfg out member a b"
  obtains (none) "tvSent b = tvSent a"
  | (partial) x g d where "tvSent b = tvSent a @ [(out, Some x, d)]" "Egress cfg = EgressPartial"
      "hex_DecodeString member = Inr x" "tvGroups a x = Some g" "\<not> group_complete cfg g" "group_doc cfg g d"
  using assms by (cases rule: timeout_step.cases) (use that in auto)

text \<open>A group changes only by being removed: that of the member, incomplete, and published under the
  partial policy.\<close>

lemma timeout_step_group:
  assumes "timeout_step cfg out member a b" and "tvGroups b y \<noteq> tvGroups a y"
  obtains g where "hex_DecodeString member = Inr y" "tvGroups a y = Some g" "tvGroups b y = None" "\<not> group_complete cfg g"
    "Egress cfg = EgressPartial \<longrightarrow> (\<exists>d. group_doc cfg g d \<and> tvSent b = tvSent a @ [(out, Some y, d)])"
  using assms by (cases rule: timeout_step.cases) (use that in \<open>auto simp: maybe_removes_def split: if_splits\<close>)

lemma timeout_step_deadline:
  assumes "timeout_step cfg out member a b" and "k \<noteq> member"
  shows "tvDeadlines b k = tvDeadlines a k"
  using assms by (cases rule: timeout_step.cases) (auto simp: maybe_forgets_def)

section \<open>What a pass keeps\<close>

inductive_simps timeout_steps_Nil [simp]: "timeout_steps cfg out [] a b"
inductive_simps timeout_steps_Cons: "timeout_steps cfg out (member # ms) a c"

lemma timeout_steps_poison:
  "timeout_steps cfg out ms a b \<Longrightarrow> \<forall>k\<in>set ms. \<not> is_ok (hex_DecodeString k) \<Longrightarrow> b = a"
  by (induction rule: timeout_steps.induct) (auto dest: timeout_step_poison)

text \<open>The deadlines of the members that a pass does not treat stay.\<close>

lemma timeout_steps_deadline:
  "timeout_steps cfg out ms a b \<Longrightarrow> k \<notin> set ms \<Longrightarrow> tvDeadlines b k = tvDeadlines a k"
  by (induction rule: timeout_steps.induct) (auto simp: timeout_step_deadline)

definition partial_of :: "join_config \<Rightarrow> string \<Rightarrow> string list \<Rightarrow> (bytes \<rightharpoonup> group) \<Rightarrow> sent_message \<Rightarrow> bool" where
  "partial_of cfg out ms gs s \<longleftrightarrow> (\<exists>member\<in>set ms. \<exists>x g d. s = (out, Some x, d) \<and> Egress cfg = EgressPartial
     \<and> hex_DecodeString member = Inr x \<and> gs x = Some g \<and> \<not> group_complete cfg g \<and> group_doc cfg g d)"

lemma timeout_steps_shrink:
  assumes "timeout_steps cfg out ms a b"
  shows "tvGroups b y = tvGroups a y \<or> tvGroups b y = None"
  using assms
proof (induction rule: timeout_steps.induct)
  case (2 member a b ms c)
  show ?case
  proof (cases "tvGroups b y = tvGroups a y")
    case True
    with 2 show ?thesis by simp
  next
    case False
    with 2 show ?thesis by (auto elim: timeout_step_group)
  qed
qed simp

lemma timeout_steps_sent:
  assumes "timeout_steps cfg out ms a b"
  shows "\<exists>ss. tvSent b = tvSent a @ ss \<and> length ss \<le> length ms \<and> (\<forall>s\<in>set ss. partial_of cfg out ms (tvGroups a) s)"
  using assms
proof (induction rule: timeout_steps.induct)
  case (2 member a b ms c)
  from 2(3) obtain ss where ss: "tvSent c = tvSent b @ ss" "length ss \<le> length ms"
    "\<forall>s\<in>set ss. partial_of cfg out ms (tvGroups b) s" by blast
  have "timeout_steps cfg out [member] a b" using 2(1) by (auto intro: timeout_steps.intros)
  from timeout_steps_shrink [OF this] have sub: "tvGroups b x = Some g \<Longrightarrow> tvGroups a x = Some g" for x g
    by (metis option.distinct(1))
  have rest: "\<forall>s\<in>set ss. partial_of cfg out (member # ms) (tvGroups a) s"
    using ss(3) sub unfolding partial_of_def by fastforce
  from 2(1) show ?case
  proof (cases rule: timeout_step_sent)
    case none
    with ss rest show ?thesis by (intro exI [of _ ss]) auto
  next
    case (partial x g d)
    then have "partial_of cfg out (member # ms) (tvGroups a) (out, Some x, d)" by (auto simp: partial_of_def)
    with partial(1) ss rest show ?thesis by (intro exI [of _ "(out, Some x, d) # ss"]) auto
  qed
qed simp

lemma timeout_steps_group:
  assumes "timeout_steps cfg out ms a b" and "tvGroups a y = Some g" and "tvGroups b y = None"
  shows "\<not> group_complete cfg g \<and> (\<exists>member\<in>set ms. hex_DecodeString member = Inr y)
    \<and> (Egress cfg = EgressPartial \<longrightarrow> (\<exists>d ss. group_doc cfg g d \<and> tvSent b = tvSent a @ ss \<and> (out, Some y, d) \<in> set ss))"
  using assms
proof (induction rule: timeout_steps.induct)
  case (2 member a b ms c)
  obtain s1 where s1: "tvSent b = tvSent a @ s1"
    using timeout_steps_sent [of cfg out "[member]" a b] 2(1) by (auto intro: timeout_steps.intros)
  obtain s2 where s2: "tvSent c = tvSent b @ s2" using timeout_steps_sent [OF 2(2)] by blast
  show ?case
  proof (cases "tvGroups b y = tvGroups a y")
    case True
    with 2 s1 show ?thesis by fastforce
  next
    case False
    from timeout_step_group [OF 2(1) False] obtain g' where g': "hex_DecodeString member = Inr y"
      "tvGroups a y = Some g'" "\<not> group_complete cfg g'"
      "Egress cfg = EgressPartial \<longrightarrow> (\<exists>d. group_doc cfg g' d \<and> tvSent b = tvSent a @ [(out, Some y, d)])" by metis
    with 2(4) s2 show ?thesis by auto
  qed
qed simp

text \<open>A complete group stays, and no partial result is sent for it.\<close>

lemma timeout_steps_complete:
  assumes "timeout_steps cfg out ms a b" and "tvGroups a x = Some g" and "group_complete cfg g"
  shows "tvGroups b x = Some g \<and> (\<exists>ss. tvSent b = tvSent a @ ss \<and> (\<forall>m\<in>set ss. fst (snd m) \<noteq> Some x))"
proof
  show "tvGroups b x = Some g"
    using timeout_steps_shrink [OF assms(1), of x] timeout_steps_group [OF assms(1,2)] assms(2,3) by auto
  show "\<exists>ss. tvSent b = tvSent a @ ss \<and> (\<forall>m\<in>set ss. fst (snd m) \<noteq> Some x)"
    using timeout_steps_sent [OF assms(1)] assms(2,3) by (fastforce simp: partial_of_def)
qed

section \<open>The simulation\<close>

locale manager_services =
  store: state_store_laws "tmStore m" groups + log: logger_laws "tmLog m" + prod: producer_laws P sent +
  redis: redis_server X db
  for m :: "('c, 'r, 'k) world manager" and groups :: "'c \<Rightarrow> bytes \<Rightarrow> group option"
    and P :: "('c, 'r, 'k) world producer" and sent :: "'k \<Rightarrow> sent_message list"
    and X :: "('c, 'r, 'k) ext" and db :: "'r \<Rightarrow> string \<Rightarrow> redis_value" +
  fixes tracked :: "'r \<Rightarrow> bytes set"
  assumes producer: "tmProducer m = Some P"
    and tracker: "tmPartialTracker m = Some T \<Longrightarrow> tracker_laws T tracked"
    and tracker_key: "tmPartialTracker m = Some T \<Longrightarrow> ltAdd T x w = (oe, w') \<Longrightarrow>
      db (wRedis w') (tmSetKey m) = db (wRedis w) (tmSetKey m)"
    and tracked_apart: "(\<And>k. k \<noteq> tmSetKey m \<Longrightarrow> db r' k = db r k) \<Longrightarrow> tracked r' = tracked r"
begin

abbreviation "deadline_of \<equiv> (\<lambda>r. r_zset (db r (tmSetKey m)))"
abbreviation "view \<equiv> timer_abs groups tracked deadline_of sent"
abbreviation "step \<equiv> timeout_step (tmJoinCfg m) (tmEgressTopic m)"

lemma ZRem_view:
  obtains d where "view (Manager_ZRem X m member w) = (view w)\<lparr>tvDeadlines := d\<rparr>"
    and "maybe_forgets member (tvDeadlines (view w)) d"
proof -
  obtain oe r' where z: "z_rem X (tmSetKey m) member (wRedis w) = (oe, r')" by fastforce
  have e: "db r' = (db (wRedis w))(tmSetKey m := RZSet ((r_zset (db (wRedis w) (tmSetKey m)))(member := None)))
      \<or> db r' = db (wRedis w)"
    using redis.z_rem_ok [of "tmSetKey m" member "wRedis w" r']
      redis.z_rem_err [of "tmSetKey m" member "wRedis w" _ r'] z by (cases oe) auto
  then have t: "tracked r' = tracked (wRedis w)" by (intro tracked_apart) auto
  show ?thesis
    by (rule that [of "deadline_of r'"])
      (use e t in \<open>auto simp: Manager_ZRem_def on_redis_def z timer_abs_def maybe_forgets_def\<close>)
qed

lemma view_log [simp]: "view (lgWarn (tmLog m) msg kvs w) = view w"
  using log_onlyD [OF log.warn_only] by (simp add: timer_abs_def)

text \<open>A read that fails costs the member its deadline.\<close>

lemma read_fault_forgets:
  assumes "hex_DecodeString member = Inr x" and "ssGetState (tmStore m) x w = (Inl err, w1)"
    and "z_rem X (tmSetKey m) member (wRedis w1) = (None, r')"
  shows "view (process_member X m member w) = (view w)\<lparr>tvDeadlines := (tvDeadlines (view w))(member := None)\<rparr>"
proof -
  have w1: "view w1 = view w" using store.get_frame [OF assms(2)] store.get_groups [OF assms(2)]
    by (simp add: timer_abs_def cql_only_def)
  have d: "db r' = (db (wRedis w1))(tmSetKey m := RZSet ((r_zset (db (wRedis w1) (tmSetKey m)))(member := None)))"
    by (rule redis.z_rem_ok [OF assms(3)])
  then have t: "tracked r' = tracked (wRedis w1)" by (intro tracked_apart) simp
  have "process_member X m member w = w1\<lparr>wRedis := r'\<rparr>"
    using assms by (simp add: process_member_def Manager_ZRem_def on_redis_def)
  moreover have "view (w1\<lparr>wRedis := r'\<rparr>) = (view w1)\<lparr>tvDeadlines := (tvDeadlines (view w1))(member := None)\<rparr>"
    using d t by (simp add: timer_abs_def)
  ultimately show ?thesis using w1 by simp
qed

lemma view_metric [simp]: "view (metric c w) = view w"
  by (simp add: timer_abs_def)

lemma view_get: "ssGetState (tmStore m) x w = (r, w') \<Longrightarrow> view w' = view w"
  using store.get_frame store.get_groups by (auto simp: timer_abs_def cql_only_def)

lemma finish_view:
  obtains gs d where "view (finish_member X m x member w) = (view w)\<lparr>tvGroups := gs, tvDeadlines := d\<rparr>"
    and "maybe_removes x (tvGroups (view w)) gs" and "maybe_forgets member (tvDeadlines (view w)) d"
proof -
  obtain oe w1 where s: "ssDeleteState (tmStore m) x w = (oe, w1)" by fastforce
  note f = store.delete_frame [OF s]
  have g: "maybe_removes x (groups (wCql w)) (groups (wCql w1))"
    using store.delete_ok [of x w w1] store.delete_err [of x w _ w1] s
    by (cases oe) (auto simp: maybe_removes_def)
  have v: "view w1 = (view w)\<lparr>tvGroups := groups (wCql w1)\<rparr>"
    using f by (simp add: timer_abs_def cql_only_def)
  obtain d where d: "view (Manager_ZRem X m member w1) = (view w1)\<lparr>tvDeadlines := d\<rparr>"
    "maybe_forgets member (tvDeadlines (view w1)) d" by (rule ZRem_view)
  show ?thesis
    by (rule that [where gs = "groups (wCql w1)" and d = d])
      (use d g v in \<open>simp_all add: finish_member_def s timer_abs_def\<close>)
qed

lemma partial_egress_view:
  assumes "partial_egress m x st w = (b, w')" and "state_shows st g"
  shows "b \<longrightarrow> (\<exists>p tr. group_doc (tmJoinCfg m) g p \<and> (tr = tvTracked (view w) \<or> tr = insert x (tvTracked (view w)))
      \<and> view w' = (view w)\<lparr>tvSent := tvSent (view w) @ [(tmEgressTopic m, Some x, p)], tvTracked := tr\<rparr>)"
    and "\<not> b \<longrightarrow> \<not> is_ok (projection_Apply (ParticipantData st) (Projection (tmJoinCfg m))) \<and> view w' = view w
      \<or> (\<exists>p s. group_doc (tmJoinCfg m) g p
          \<and> (s = tvSent (view w) \<or> s = tvSent (view w) @ [(tmEgressTopic m, Some x, p)])
          \<and> view w' = (view w)\<lparr>tvSent := s\<rparr>)"
proof -
  have "(b \<longrightarrow> (\<exists>p tr. group_doc (tmJoinCfg m) g p \<and> (tr = tvTracked (view w) \<or> tr = insert x (tvTracked (view w)))
      \<and> view w' = (view w)\<lparr>tvSent := tvSent (view w) @ [(tmEgressTopic m, Some x, p)], tvTracked := tr\<rparr>))
    \<and> (\<not> b \<longrightarrow> \<not> is_ok (projection_Apply (ParticipantData st) (Projection (tmJoinCfg m))) \<and> view w' = view w
      \<or> (\<exists>p s. group_doc (tmJoinCfg m) g p
          \<and> (s = tvSent (view w) \<or> s = tvSent (view w) @ [(tmEgressTopic m, Some x, p)])
          \<and> view w' = (view w)\<lparr>tvSent := s\<rparr>))"
  proof (cases "projection_Apply (ParticipantData st) (Projection (tmJoinCfg m))")
    case (Inl err)
    then show ?thesis using assms(1) by (simp add: partial_egress_def)
  next
    case (Inr p)
    note doc = state_shows_doc [OF assms(2) Inr]
    obtain o1 w1 where pr: "prProduceSync P (tmEgressTopic m) (Some x) p w = (o1, w1)" by fastforce
    have v1: "view w1 = (view w)\<lparr>tvSent := sent (wKafka w1)\<rparr>"
      using prod.produce_frame [OF pr] by (simp add: timer_abs_def kafka_only_def)
    have s1: "sent (wKafka w1) = tvSent (view w) @ [(tmEgressTopic m, Some x, p)]
        \<or> o1 \<noteq> None \<and> sent (wKafka w1) = tvSent (view w)"
      using prod.produce_cases [OF pr] by (simp add: timer_abs_def)
    show ?thesis
    proof (cases o1)
      case (Some err)
      with assms(1) Inr pr have "\<not> b" "view w' = view w1"
        by (auto simp: partial_egress_def producer Manager_publish_def)
      with v1 s1 doc show ?thesis by auto
    next
      case None
      have s1: "sent (wKafka w1) = tvSent (view w) @ [(tmEgressTopic m, Some x, p)]" using s1 None by simp
      show ?thesis
      proof (cases "tmPartialTracker m")
        case None
        with assms(1) Inr pr \<open>o1 = None\<close> have "b" "w' = w1"
          by (auto simp: partial_egress_def producer Manager_publish_def)
        with v1 s1 doc show ?thesis by (auto simp: timer_abs_def)
      next
        case (Some T)
        obtain o2 w2 where t: "ltAdd T x w1 = (o2, w2)" by fastforce
        note laws = tracker [OF Some]
        have b: "b" "w' = w2" using assms(1) Inr pr \<open>o1 = None\<close> Some t
          by (auto simp: partial_egress_def producer Manager_publish_def)
        have "tracked (wRedis w2) = tracked (wRedis w1) \<or> tracked (wRedis w2) = insert x (tracked (wRedis w1))"
          using tracker_laws.add_ok [OF laws, of x w1 w2] tracker_laws.add_err [OF laws, of x w1 _ w2] t
          by (cases o2) auto
        moreover have "view w2 = (view w1)\<lparr>tvTracked := tracked (wRedis w2)\<rparr>"
          using tracker_laws.add_frame [OF laws t] tracker_key [OF Some t]
          by (simp add: timer_abs_def redis_only_def)
        moreover have "tracked (wRedis w1) = tvTracked (view w)"
          using prod.produce_frame [OF pr] by (simp add: timer_abs_def kafka_only_def)
        ultimately show ?thesis using b doc v1 s1 by auto
      qed
    qed
  qed
  then show "b \<longrightarrow> (\<exists>p tr. group_doc (tmJoinCfg m) g p \<and> (tr = tvTracked (view w) \<or> tr = insert x (tvTracked (view w)))
      \<and> view w' = (view w)\<lparr>tvSent := tvSent (view w) @ [(tmEgressTopic m, Some x, p)], tvTracked := tr\<rparr>)"
    and "\<not> b \<longrightarrow> \<not> is_ok (projection_Apply (ParticipantData st) (Projection (tmJoinCfg m))) \<and> view w' = view w
      \<or> (\<exists>p s. group_doc (tmJoinCfg m) g p
          \<and> (s = tvSent (view w) \<or> s = tvSent (view w) @ [(tmEgressTopic m, Some x, p)])
          \<and> view w' = (view w)\<lparr>tvSent := s\<rparr>)" by blast+
qed

lemma process_member_sim: "step member (view w) (view (process_member X m member w))"
proof (cases "hex_DecodeString member")
  case (Inl err)
  then show ?thesis by (simp add: process_member_def timeout_step.poison)
next
  case (Inr x)
  obtain r w1 where g: "ssGetState (tmStore m) x w = (r, w1)" by fastforce
  note v1 = view_get [OF g]
  have drop: "step member (view w) (view (Manager_ZRem X m member w1))"
    by (rule ZRem_view [of member w1]) (use v1 timeout_step.unreadable [of member] Inr in \<open>metis is_ok_simps(1)\<close>)
  show ?thesis
  proof (cases "\<exists>st. r = Inr (Some st)")
    case False
    then have "process_member X m member w = Manager_ZRem X m member w1"
      using Inr g by (auto simp: process_member_def split: sum.split option.split)
    then show ?thesis using drop by simp
  next
    case True
    then obtain st where st: "r = Inr (Some st)" by blast
    obtain gr where gr: "groups (wCql w) x = Some gr" "state_shows st gr"
      using store.get_some g st by blast
    have vg: "tvGroups (view w) x = Some gr" using gr by (simp add: timer_abs_def)
    show ?thesis
    proof (cases "int (length (ParticipantData st)) \<ge> join_N (tmJoinCfg m)")
      case True
      then have "process_member X m member w = Manager_ZRem X m member w1"
        using Inr g st by (simp add: process_member_def)
      then show ?thesis using drop by simp
    next
      case False
      then have nc: "\<not> group_complete (tmJoinCfg m) gr"
        using state_shows_complete [OF gr(2)] by simp
      show ?thesis
      proof (cases "Egress (tmJoinCfg m) = EgressPartial")
        case ne: False
        then have "process_member X m member w = finish_member X m x member w1"
          using Inr g st False by (simp add: process_member_def)
        moreover obtain gs d where "view (finish_member X m x member w1) = (view w1)\<lparr>tvGroups := gs, tvDeadlines := d\<rparr>"
          "maybe_removes x (tvGroups (view w1)) gs" "maybe_forgets member (tvDeadlines (view w1)) d"
          by (rule finish_view)
        ultimately show ?thesis using v1 timeout_step.inner [OF Inr vg nc ne] by simp
      next
        case pe: True
        obtain b w2 where e: "partial_egress m x st w1 = (b, w2)" by fastforce
        have pm: "process_member X m member w = (if b then finish_member X m x member w2 else w2)"
          using Inr g st False pe e by (simp add: process_member_def)
        note ev = partial_egress_view [OF e gr(2)]
        show ?thesis
        proof (cases b)
          case True
          then obtain p tr where p: "group_doc (tmJoinCfg m) gr p"
            "tr = tvTracked (view w) \<or> tr = insert x (tvTracked (view w))"
            "view w2 = (view w)\<lparr>tvSent := tvSent (view w) @ [(tmEgressTopic m, Some x, p)], tvTracked := tr\<rparr>"
            using ev(1) v1 by auto
          obtain gs d where f: "view (finish_member X m x member w2) = (view w2)\<lparr>tvGroups := gs, tvDeadlines := d\<rparr>"
            "maybe_removes x (tvGroups (view w2)) gs" "maybe_forgets member (tvDeadlines (view w2)) d"
            by (rule finish_view)
          have "step member (view w) \<lparr>tvGroups = gs, tvTracked = tr, tvDeadlines = d,
              tvSent = tvSent (view w) @ [(tmEgressTopic m, Some x, p)]\<rparr>"
            using f(2,3) p(3) by (intro timeout_step.partial [OF Inr vg nc pe p(1) refl p(2)]) simp_all
          moreover have "view (finish_member X m x member w2) = \<lparr>tvGroups = gs, tvTracked = tr, tvDeadlines = d,
              tvSent = tvSent (view w) @ [(tmEgressTopic m, Some x, p)]\<rparr>"
            unfolding f(1) p(3) by simp
          ultimately show ?thesis using pm True by simp
        next
          case False
          with ev(2) v1 have "\<not> is_ok (projection_Apply (ParticipantData st) (Projection (tmJoinCfg m)))
              \<and> view w2 = view w \<or> (\<exists>p s. group_doc (tmJoinCfg m) gr p
                \<and> (s = tvSent (view w) \<or> s = tvSent (view w) @ [(tmEgressTopic m, Some x, p)])
                \<and> view w2 = (view w)\<lparr>tvSent := s\<rparr>)" by simp
          then have "step member (view w) (view w2)"
          proof (elim disjE [of "_ \<and> _"] exE conjE)
            fix p s
            assume "group_doc (tmJoinCfg m) gr p" "view w2 = (view w)\<lparr>tvSent := s\<rparr>"
              "s = tvSent (view w) \<or> s = tvSent (view w) @ [(tmEgressTopic m, Some x, p)]"
            then show "step member (view w) (view w2)"
              using timeout_step.publish_fault [OF Inr vg nc pe] by metis
          qed (simp add: timeout_step.project_fault [OF Inr vg nc pe gr(2)])
          with pm False show ?thesis by simp
        qed
      qed
    qed
  qed
qed

lemma process_members_sim: "timeout_steps (tmJoinCfg m) (tmEgressTopic m) ms (view w)
    (view (fold (process_member X m) ms w))"
  by (induction ms arbitrary: w) (auto intro: timeout_steps.intros process_member_sim)

text \<open>A pass whose query fails treats no member.\<close>

lemma processDue_steps:
  assumes "Manager_processDue X m w = (oe, w')"
  shows "\<exists>ms. timeout_steps (tmJoinCfg m) (tmEgressTopic m) ms (view w) (view w')"
proof -
  let ?now = "time_Unix (wClock w (wTick w))"
  obtain r r' where z: "z_range_by_score X (tmSetKey m) ''-inf'' (int_string ?now) (tmBatchSize m) (wRedis w) = (r, r')"
    by fastforce
  let ?w2 = "w\<lparr>wTick := Suc (wTick w), wRedis := r'\<rparr>"
  have d: "db r' = db (wRedis w)" by (rule redis.z_range_frame [OF z])
  then have "tracked r' = tracked (wRedis w)" by (intro tracked_apart) simp
  with d have v: "view ?w2 = view w" by (simp add: timer_abs_def)
  show ?thesis
  proof (cases r)
    case (Inl err)
    then have "w' = ?w2" using assms z by (simp add: Manager_processDue_def time_Now_def on_redis_def Let_def)
    with v show ?thesis by (intro exI [of _ "[]"]) simp
  next
    case (Inr ms)
    then have "w' = fold (process_member X m) ms ?w2"
      using assms z by (simp add: Manager_processDue_def time_Now_def on_redis_def Let_def)
    with v process_members_sim [of ms ?w2] show ?thesis by auto
  qed
qed

text \<open>
  A pass whose query succeeds treats the members that are due, one after the other, in the state that
  follows the clock reading and the query.
\<close>

lemma processDue_members:
  assumes "Manager_processDue X m w = (None, w')" and "0 < tmBatchSize m"
  obtains ms r where "w' = fold (process_member X m) ms (w\<lparr>wTick := Suc (wTick w), wRedis := r\<rparr>)"
    and "db r = db (wRedis w)" and "view (w\<lparr>wTick := Suc (wTick w), wRedis := r\<rparr>) = view w"
    and "distinct ms" and "int (length ms) \<le> tmBatchSize m"
    and "\<forall>k\<in>set ms. \<exists>s. tvDeadlines (view w) k = Some s \<and> score_le s (time_Unix (wClock w (wTick w)))"
    and "int (length ms) < tmBatchSize m \<Longrightarrow>
      \<forall>k s. tvDeadlines (view w) k = Some s \<and> score_le s (time_Unix (wClock w (wTick w))) \<longrightarrow> k \<in> set ms"
proof -
  let ?now = "time_Unix (wClock w (wTick w))"
  obtain ms r' where z: "z_range_by_score X (tmSetKey m) ''-inf'' (int_string ?now) (tmBatchSize m) (wRedis w)
      = (Inr ms, r')" and w': "w' = fold (process_member X m) ms (w\<lparr>wTick := Suc (wTick w), wRedis := r'\<rparr>)"
    using assms(1)
    by (auto simp: Manager_processDue_def time_Now_def on_redis_def Let_def split: prod.splits sum.splits)
  have d: "db r' = db (wRedis w)" by (rule redis.z_range_frame [OF z])
  then have "tracked r' = tracked (wRedis w)" by (intro tracked_apart) simp
  with d have v: "view (w\<lparr>wTick := Suc (wTick w), wRedis := r'\<rparr>) = view w" by (simp add: timer_abs_def)
  show ?thesis
    by (rule that [OF w' d v]) (use redis.z_range_ok [OF z assms(2)] in \<open>auto simp: timer_abs_def\<close>)
qed

end

section \<open>The scheduler\<close>

definition manager_deadlines ::
  "('r \<Rightarrow> string \<Rightarrow> redis_value) \<Rightarrow> ('c, 'r, 'k) world manager \<Rightarrow> 'r \<Rightarrow> bytes \<rightharpoonup> f64" where
  "manager_deadlines db m r h = r_zset (db r (tmSetKey m)) (hex_EncodeToString h)"

context redis_server
begin

lemma ScheduleTimeout_effect:
  assumes "Manager_ScheduleTimeout X m h d w = (oe, w')"
  shows "redis_only w w'"
    and "db (wRedis w') = (db (wRedis w))(tmSetKey m :=
        RZSet ((r_zset (db (wRedis w) (tmSetKey m)))(hex_EncodeToString h \<mapsto> f64_int (time_Unix d))))
      \<or> oe \<noteq> None \<and> db (wRedis w') = db (wRedis w)"
  using assms
  by (auto simp: Manager_ScheduleTimeout_def on_redis_def redis_only_def Let_def
      split: prod.splits option.splits dest: z_add_ok z_add_err)

lemma scheduler_keeps_contract: "scheduler_laws (manager_iface X m) (manager_deadlines db m)"
proof -
  have e: "manager_deadlines db m (wRedis w') = (manager_deadlines db m (wRedis w))(h \<mapsto> f64_int (time_Unix d))
      \<or> oe \<noteq> None \<and> manager_deadlines db m (wRedis w') = manager_deadlines db m (wRedis w)"
    if "Manager_ScheduleTimeout X m h d w = (oe, w')" for h d oe and w w' :: "('c, 'r, 'k) world"
    using ScheduleTimeout_effect(2) [OF that] by (auto simp: manager_deadlines_def fun_eq_iff hex_inject)
  show ?thesis
  proof (unfold_locales, goal_cases)
    case (1 h d w oe w')
    then show ?case by (simp add: manager_iface_def ScheduleTimeout_effect(1))
  next
    case (2 h d w w')
    then show ?case using e [of h d w None w'] by (simp add: manager_iface_def)
  next
    case (3 h d w err w')
    then show ?case using e [of h d w "Some err" w'] by (auto simp: manager_iface_def)
  qed
qed

end

end
