(* ===== verification/Json_Flat.thy ===== *)
theory Json_Flat
  imports Go_Json
begin

text \<open>
  Reading back flat JSON objects of plain strings, as the delay queue and small messages use them.  A
  plain character is written as it is.
\<close>

definition plain :: "string \<Rightarrow> bool" where
  "plain s \<longleftrightarrow> list_all html_safe s"

lemma plain_simps [simp]: "plain []" "plain (c # s) \<longleftrightarrow> html_safe c \<and> plain s"
  by (simp_all add: plain_def)

lemma html_safeD:
  assumes "html_safe c"
  shows "(of_char c :: nat) < 128" "\<not> (of_char c :: nat) < 32" "c \<noteq> dquote" "c \<noteq> bslash"
  using assms by (auto simp: html_safe_def)

lemma quote_body_plain: "plain s \<Longrightarrow> quote_body s = s"
  by (induction s) (simp_all add: html_safeD)

lemma scan_string_plain: "plain s \<Longrightarrow> scan_string (s @ dquote # r) = Some (s, r)"
  by (induction s) (simp_all add: html_safeD prepend_def)

lemma unquote_plain: "plain s \<Longrightarrow> unquote s = s"
  by (induction s) (simp_all add: html_safeD)

lemma json_quote_plain: "plain s \<Longrightarrow> json_quote s = dquote # s @ [dquote]"
  by (simp add: json_quote_def quote_body_plain)

lemma is_ws_dquote [simp]: "\<not> is_ws dquote"
  by (simp add: is_ws_def)

lemma parse_value_plain: "plain s \<Longrightarrow> parse_value d (dquote # s @ dquote # r) = Some (JStr s, r)"
  by (subst parse_value.simps) (simp add: scan_string_plain unquote_plain)

text \<open>The text of the members after the first brace, and what the parser makes of it.\<close>

fun members_text :: "(string \<times> string) list \<Rightarrow> string" where
  "members_text [] = []"
| "members_text [(k, v)] = json_quote k @ '':'' @ json_quote v @ ''}''"
| "members_text ((k, v) # kv # kvs) = json_quote k @ '':'' @ json_quote v @ '','' @ members_text (kv # kvs)"

lemma json_object_text_members:
  "kvs \<noteq> [] \<Longrightarrow> json_object_text (map (\<lambda>(k, v). (k, json_quote v)) kvs) = ''{'' @ members_text kvs"
proof -
  have "join_with '','' (map (\<lambda>(k, v). json_quote k @ '':'' @ json_quote v) kvs) @ ''}'' = members_text kvs"
    if "kvs \<noteq> []"
    using that by (induction kvs rule: members_text.induct) auto
  then show "kvs \<noteq> [] \<Longrightarrow> ?thesis" by (simp add: json_object_text_def comp_def case_prod_unfold)
qed

lemma parse_members_step:
  assumes "plain k" and "plain v" and "\<not> is_ws e"
  shows "parse_members d (json_quote k @ '':'' @ json_quote v @ e # r) =
    (if e = CHR ''}'' then Some ([(k, JStr v)], r)
     else if e = CHR '','' then map_option (\<lambda>(ms, t). ((k, JStr v) # ms, t)) (parse_members d r)
     else None)"
proof -
  have p: "parse_value d (dquote # v @ dquote # e # r) = Some (JStr v, e # r)"
    using assms(2) by (rule parse_value_plain)
  have c: "\<not> is_ws (CHR '':'')" by (simp add: is_ws_def)
  show ?thesis
    unfolding json_quote_plain [OF assms(1)] json_quote_plain [OF assms(2)]
    by (subst parse_members.simps)
      (simp add: scan_string_plain [OF assms(1)] unquote_plain [OF assms(1)] c p assms(3))
qed

lemma parse_members_flat:
  assumes "kvs \<noteq> []" and "\<forall>(k, v)\<in>set kvs. plain k \<and> plain v"
  shows "parse_members d (members_text kvs @ r) = Some (map (\<lambda>(k, v). (k, JStr v)) kvs, r)"
  using assms
proof (induction kvs rule: members_text.induct)
  case 1
  then show ?case by simp
next
  case (2 k v)
  then show ?case using parse_members_step [of k v "CHR ''}''" d r] by (simp add: is_ws_def)
next
  case (3 k v kv kvs)
  then show ?case
    using parse_members_step [of k v "CHR '',''" d "members_text (kv # kvs) @ r"] by (simp add: is_ws_def)
qed

lemma json_parse_flat:
  assumes "kvs \<noteq> []" and "\<forall>(k, v)\<in>set kvs. plain k \<and> plain v"
  shows "json_parse (json_object_text (map (\<lambda>(k, v). (k, json_quote v)) kvs)) =
    Inr (JObj (map (\<lambda>(k, v). (k, JStr v)) kvs))"
proof -
  have o: "\<not> is_ws (CHR ''{'')" by (simp add: is_ws_def)
  obtain k v rest where kvs: "kvs = (k, v) # rest" using assms(1) by (cases kvs) auto
  then obtain t where t: "members_text kvs = dquote # t"
    using assms(2) by (cases rest) (auto simp: json_quote_plain)
  have s: "skip_ws (dquote # t) = dquote # t" by simp
  have m: "max_depth \<noteq> 0" by (simp add: max_depth_def)
  have "parse_members (max_depth - 1) (dquote # t) = Some (map (\<lambda>(k, v). (k, JStr v)) kvs, [])"
    using parse_members_flat [OF assms, of "max_depth - 1" "[]"] t by simp
  then have "parse_value max_depth (CHR ''{'' # members_text kvs) = Some (JObj (map (\<lambda>(k, v). (k, JStr v)) kvs), [])"
    unfolding t by (subst parse_value.simps) (simp add: o s m)
  then show ?thesis
    by (simp add: json_parse_def json_object_text_members [OF assms(1)])
qed

end
