(* ===== verification/Delay.thy ===== *)
theory Delay
  imports Timeout Json_Flat
begin

text \<open>
  \<open>internal/delay/queue.go\<close>: completed joins that wait for the settle delay, in memory or in a Redis
  sorted set whose members are JSON objects of base64 fields.
\<close>

section \<open>Items\<close>

text \<open>\<open>delayedItem\<close>.  A struct marshals its fields in the order declared.\<close>

record delayed_item =
  diH :: string
  diJ :: string
  diK :: string

definition delayedItem_Marshal :: "delayed_item \<Rightarrow> bytes result" where
  "delayedItem_Marshal d = Inr (json_object_text
     [(''h'', json_quote (diH d)), (''j'', json_quote (diJ d)), (''k'', json_quote (diK d))])"

text \<open>
  \<open>Unmarshal\<close> into the struct: the field is found by its name up to case (the Kelvin sign folds to k);
  unknown names are ignored, \<open>null\<close> leaves the field, any other value that is not a string is an error,
  reported after the rest has been decoded.
\<close>

definition item_field :: "string \<Rightarrow> ((string \<Rightarrow> string) \<Rightarrow> delayed_item \<Rightarrow> delayed_item) option" where
  "item_field k =
     (if k = ''h'' \<or> k = ''H'' then Some diH_update
      else if k = ''j'' \<or> k = ''J'' then Some diJ_update
      else if k = ''k'' \<or> k = ''K'' \<or> k = [CHR 0xE2, CHR 0x84, CHR 0xAA] then Some diK_update
      else None)"

fun item_fields :: "(string \<times> literal json) list \<Rightarrow> delayed_item \<Rightarrow> bool \<Rightarrow> delayed_item \<times> bool" where
  "item_fields [] d bad = (d, bad)"
| "item_fields ((k, v) # kvs) d bad = (case item_field k of
      None \<Rightarrow> item_fields kvs d bad
    | Some upd \<Rightarrow> (case v of
          JStr s \<Rightarrow> item_fields kvs (upd (\<lambda>_. s) d) bad
        | JNull \<Rightarrow> item_fields kvs d bad
        | _ \<Rightarrow> item_fields kvs d True))"

definition delayedItem_Unmarshal :: "bytes \<Rightarrow> delayed_item result" where
  "delayedItem_Unmarshal b =
     (let zero = \<lparr>diH = [], diJ = [], diK = []\<rparr> in
      case json_parse b of
        Inl err \<Rightarrow> Inl err
      | Inr (JObj kvs) \<Rightarrow>
          (let (d, bad) = item_fields kvs zero False in if bad then Inl json_type_error else Inr d)
      | Inr JNull \<Rightarrow> Inr zero
      | Inr _ \<Rightarrow> Inl json_type_error)"

section \<open>The queue\<close>

text \<open>
  \<open>dqRedis\<close> says whether the interface value \<open>redis\<close> is not nil, and \<open>dqId\<close> identifies the object, whose
  field \<open>pending\<close> is \<open>wPending w (dqId q)\<close>.
\<close>

record 'w queue =
  dqStore :: "'w state_store option"
  dqProducer :: "'w producer option"
  dqTopic :: string
  dqConfigName :: string
  dqLog :: "'w logger"
  dqRedis :: bool
  dqRedisKey :: string
  dqTick :: duration
  dqId :: nat

definition NewQueue ::
  "nat \<Rightarrow> 'w logger \<Rightarrow> 'w state_store option \<Rightarrow> 'w producer option \<Rightarrow> string \<Rightarrow> string \<Rightarrow> 'w logger option \<Rightarrow>
   bool \<Rightarrow> string \<Rightarrow> 'w queue"
where
  "NewQueue ident global stateStore producer topic configName log redis redisKey =
     \<lparr>dqStore = stateStore, dqProducer = producer, dqTopic = topic, dqConfigName = configName,
      dqLog = (case log of None \<Rightarrow> global | Some l \<Rightarrow> l), dqRedis = redis, dqRedisKey = redisKey,
      dqTick = 50 * 1000000, dqId = ident\<rparr>"

definition delay_defaultBatchSize :: int where "delay_defaultBatchSize = 100"

text \<open>\<open>copyBytes\<close> gives a slice of the same bytes; nil stays nil.\<close>

definition copyBytes :: "bytes option \<Rightarrow> bytes option" where
  "copyBytes b = (case b of None \<Rightarrow> None | Some x \<Rightarrow> Some (take (length x) x))"

definition Queue_scheduleRedis ::
  "('c, 'r, 'k) ext \<Rightarrow> ('c, 'r, 'k) world queue \<Rightarrow> bytes \<Rightarrow> bytes \<Rightarrow> bytes option \<Rightarrow> time \<Rightarrow>
   ('c, 'r, 'k) world \<Rightarrow> ('c, 'r, 'k) world"
where
  "Queue_scheduleRedis X q joinKeyHash joinedBytes msgKey publishAt w =
     (let payload = \<lparr>diH = b64_EncodeToString joinKeyHash, diJ = b64_EncodeToString joinedBytes,
            diK = b64_EncodeToString (case msgKey of None \<Rightarrow> [] | Some k \<Rightarrow> k)\<rparr>
      in case delayedItem_Marshal payload of
           Inl err \<Rightarrow> metric (Inc EgressFailuresTotal [dqConfigName q, ''delay''])
             (lgError (dqLog q) ''delay queue marshal failed'' [KStr ''error'', KErr err] w)
         | Inr b \<Rightarrow>
             (let score = f64_int (time_UnixNano publishAt)
              in case on_redis (z_add X (dqRedisKey q) score b) w of
                   (Some err, w1) \<Rightarrow> metric (Inc EgressFailuresTotal [dqConfigName q, ''delay''])
                     (lgError (dqLog q) ''delay queue ZADD failed'' [KStr ''error'', KErr err] w1)
                 | (None, w1) \<Rightarrow> w1))"

definition set_pending :: "nat \<Rightarrow> pending list \<Rightarrow> ('c, 'r, 'k) world \<Rightarrow> ('c, 'r, 'k) world" where
  "set_pending i ps w = w\<lparr>wPending := (wPending w)(i := ps)\<rparr>"

definition Queue_Schedule ::
  "('c, 'r, 'k) ext \<Rightarrow> ('c, 'r, 'k) world queue \<Rightarrow> bytes \<Rightarrow> bytes \<Rightarrow> bytes option \<Rightarrow> time \<Rightarrow>
   ('c, 'r, 'k) world \<Rightarrow> ('c, 'r, 'k) world"
where
  "Queue_Schedule X q joinKeyHash joinedBytes msgKey publishAt w =
     (if dqRedis q \<and> dqRedisKey q \<noteq> '''' then
        Queue_scheduleRedis X q joinKeyHash joinedBytes msgKey publishAt w
      else
        set_pending (dqId q) (wPending w (dqId q) @
          [\<lparr>pdKeyHash = take (length joinKeyHash) joinKeyHash,
            pdJoined = take (length joinedBytes) joinedBytes,
            pdMsgKey = copyBytes msgKey, pdPublishAt = publishAt\<rparr>]) w)"

definition delay_iface :: "('c, 'r, 'k) ext \<Rightarrow> ('c, 'r, 'k) world queue \<Rightarrow> ('c, 'r, 'k) world delay_publisher" where
  "delay_iface X q = \<lparr>dpSchedule = Queue_Schedule X q\<rparr>"

definition Queue_publishAndCleanup ::
  "('c, 'r, 'k) world queue \<Rightarrow> bytes \<Rightarrow> bytes \<Rightarrow> bytes option \<Rightarrow> ('c, 'r, 'k) world \<Rightarrow> ('c, 'r, 'k) world"
where
  "Queue_publishAndCleanup q joinKeyHash joinedBytes msgKey w =
     (let (produced, w1) = (case dqProducer q of
            None \<Rightarrow> (True, w)
          | Some producer \<Rightarrow>
              (case prProduceSync producer (dqTopic q) msgKey joinedBytes w of
                 (Some err, w1) \<Rightarrow> (False, lgWarn (dqLog q) ''delay queue produce failed''
                   [KStr ''key'', KBytes msgKey, KStr ''error'', KErr err]
                   (metric (Inc EgressFailuresTotal [dqConfigName q, ''delay'']) w1))
               | (None, w1) \<Rightarrow> (True, w1)))
      in if \<not> produced then w1
         else (case dqStore q of None \<Rightarrow> w1 | Some s \<Rightarrow> snd (ssDeleteState s joinKeyHash w1)))"

text \<open>The first loop of \<open>flushDueMemory\<close>.\<close>

fun split_due :: "time \<Rightarrow> pending list \<Rightarrow> pending list \<Rightarrow> pending list \<Rightarrow> pending list \<times> pending list" where
  "split_due now due keep [] = (due, keep)"
| "split_due now due keep (p # ps) =
     (if \<not> now < pdPublishAt p then split_due now (due @ [p]) keep ps
      else split_due now due (keep @ [p]) ps)"

definition publish_pending ::
  "('c, 'r, 'k) world queue \<Rightarrow> pending \<Rightarrow> ('c, 'r, 'k) world \<Rightarrow> ('c, 'r, 'k) world" where
  "publish_pending q p = Queue_publishAndCleanup q (pdKeyHash p) (pdJoined p) (pdMsgKey p)"

definition Queue_flushDueMemory ::
  "('c, 'r, 'k) world queue \<Rightarrow> ('c, 'r, 'k) world \<Rightarrow> ('c, 'r, 'k) world" where
  "Queue_flushDueMemory q w =
     (let (now, w1) = time_Now w;
          (due, keep) = split_due now [] [] (wPending w1 (dqId q));
          w2 = set_pending (dqId q) keep w1
      in fold (publish_pending q) due w2)"

definition flush_member ::
  "('c, 'r, 'k) ext \<Rightarrow> ('c, 'r, 'k) world queue \<Rightarrow> string \<Rightarrow> ('c, 'r, 'k) world \<Rightarrow> ('c, 'r, 'k) world"
where
  "flush_member X q member w = (case delayedItem_Unmarshal member of
      Inl err \<Rightarrow> snd (on_redis (z_rem X (dqRedisKey q) member)
        (lgWarn (dqLog q) ''delay queue unmarshal failed'' [KStr ''error'', KErr err] w))
    | Inr payload \<Rightarrow>
        (let joinKeyHash = fst (b64_DecodeString (diH payload));
             joinedBytes = fst (b64_DecodeString (diJ payload));
             msgKey = fst (b64_DecodeString (diK payload));
             w1 = Queue_publishAndCleanup q joinKeyHash joinedBytes (Some msgKey) w
         in case on_redis (z_rem X (dqRedisKey q) member) w1 of
              (Some err, w2) \<Rightarrow> lgWarn (dqLog q) ''delay queue ZREM failed'' [KStr ''error'', KErr err] w2
            | (None, w2) \<Rightarrow> w2))"

definition Queue_flushDueRedis ::
  "('c, 'r, 'k) ext \<Rightarrow> ('c, 'r, 'k) world queue \<Rightarrow> ('c, 'r, 'k) world \<Rightarrow> ('c, 'r, 'k) world" where
  "Queue_flushDueRedis X q w =
     (let (t, w1) = time_Now w; now = time_UnixNano t
      in case on_redis (z_range_by_score X (dqRedisKey q) ''-inf'' (int_string now) delay_defaultBatchSize) w1 of
           (Inl err, w2) \<Rightarrow> lgWarn (dqLog q) ''delay queue ZRANGEBYSCORE failed'' [KStr ''error'', KErr err] w2
         | (Inr members, w2) \<Rightarrow> fold (flush_member X q) members w2)"

definition Queue_flushDue ::
  "('c, 'r, 'k) ext \<Rightarrow> ('c, 'r, 'k) world queue \<Rightarrow> ('c, 'r, 'k) world \<Rightarrow> ('c, 'r, 'k) world" where
  "Queue_flushDue X q w =
     (if dqRedis q \<and> dqRedisKey q \<noteq> '''' then Queue_flushDueRedis X q w else Queue_flushDueMemory q w)"

text \<open>\<open>Run\<close>; \<open>ticks\<close> bounds the turns of its loop, and \<open>None\<close> means that it is still running then.\<close>

fun Queue_Run ::
  "nat \<Rightarrow> ('c, 'r, 'k) ext \<Rightarrow> ('c, 'r, 'k) world queue \<Rightarrow> ('c, 'r, 'k) world \<Rightarrow> ('c, 'r, 'k) world option"
where
  "Queue_Run 0 X q w = None"
| "Queue_Run (Suc ticks) X q w = (case ctx_Err w of
     (Some _, w1) \<Rightarrow> Some w1
   | (None, w1) \<Rightarrow> Queue_Run ticks X q (Queue_flushDue X q w1))"

section \<open>Memory mode\<close>

lemma copyBytes_id [simp]: "copyBytes b = b"
  by (simp add: copyBytes_def split: option.split)

lemma split_due_filter:
  "split_due now due keep ps =
     (due @ filter (\<lambda>p. pdPublishAt p \<le> now) ps, keep @ filter (\<lambda>p. now < pdPublishAt p) ps)"
  by (induction ps arbitrary: due keep) (auto simp: not_less)

text \<open>
  Every pending item is either due or kept, none is lost or doubled by the split, and the items keep
  their order.
\<close>

lemma flush_memory_step:
  "Queue_flushDueMemory q w =
    fold (publish_pending q) (filter (\<lambda>p. pdPublishAt p \<le> wClock w (wTick w)) (wPending w (dqId q)))
      (set_pending (dqId q) (filter (\<lambda>p. wClock w (wTick w) < pdPublishAt p) (wPending w (dqId q)))
        (w\<lparr>wTick := Suc (wTick w)\<rparr>))"
  by (simp add: Queue_flushDueMemory_def time_Now_def split_due_filter Let_def)

section \<open>Redis mode: members read back\<close>

lemma b64_alphabet_plain: "plain b64_alphabet"
  by (simp add: b64_alphabet_def html_safe_def)

lemma b64_digit_plain: "n < 64 \<Longrightarrow> html_safe (b64_digit n)"
proof -
  have "length b64_alphabet = 64" by (simp add: b64_alphabet_def)
  then show "n < 64 \<Longrightarrow> ?thesis"
    using b64_alphabet_plain by (simp add: b64_digit_def plain_def list_all_length)
qed

lemma pack_div_less: "a < 256 \<Longrightarrow> b < 256 \<Longrightarrow> c < 256 \<Longrightarrow> (a * 65536 + b * 256 + c) div 262144 < (64 :: nat)"
  by (simp add: div_less_iff_less_mult)

lemma b64_plain: "plain (b64_EncodeToString bs)"
proof (induction bs rule: b64_EncodeToString.induct)
  case 1
  then show ?case by simp
next
  case (2 a)
  have "html_safe CHR ''=''" by (simp add: html_safe_def)
  with pack_div_less [of "of_char a" 0 0] show ?case by (simp add: Let_def b64_digit_plain)
next
  case (3 a b)
  have "html_safe CHR ''=''" by (simp add: html_safe_def)
  with pack_div_less [of "of_char a" "of_char b" 0] show ?case by (simp add: Let_def b64_digit_plain)
next
  case (4 a b c r)
  with pack_div_less [of "of_char a" "of_char b" "of_char c"] show ?case
    by (simp add: Let_def b64_digit_plain)
qed

lemma delayedItem_roundtrip:
  assumes "plain (diH d)" "plain (diJ d)" "plain (diK d)" and "delayedItem_Marshal d = Inr b"
  shows "delayedItem_Unmarshal b = Inr d"
proof -
  have p: "html_safe (CHR ''h'')" "html_safe (CHR ''j'')" "html_safe (CHR ''k'')"
    by (simp_all add: html_safe_def)
  have "json_parse b = Inr (JObj (map (\<lambda>(k, v). (k, JStr v)) [(''h'', diH d), (''j'', diJ d), (''k'', diK d)]))"
    using json_parse_flat [of "[(''h'', diH d), (''j'', diJ d), (''k'', diK d)]"] assms p
    by (simp add: delayedItem_Marshal_def)
  then show ?thesis by (simp add: delayedItem_Unmarshal_def item_field_def)
qed

text \<open>The member stored for a completed join; reading it back gives the bytes it was made of.\<close>

definition queue_member :: "bytes \<Rightarrow> bytes \<Rightarrow> bytes option \<Rightarrow> bytes" where
  "queue_member joinKeyHash joinedBytes msgKey =
     (case delayedItem_Marshal \<lparr>diH = b64_EncodeToString joinKeyHash, diJ = b64_EncodeToString joinedBytes,
            diK = b64_EncodeToString (case msgKey of None \<Rightarrow> [] | Some k \<Rightarrow> k)\<rparr> of
        Inl _ \<Rightarrow> [] | Inr b \<Rightarrow> b)"

lemma scheduleRedis_member:
  "Queue_scheduleRedis X q h j k at w =
     (case on_redis (z_add X (dqRedisKey q) (f64_int (time_UnixNano at)) (queue_member h j k)) w of
        (Some err, w1) \<Rightarrow> metric (Inc EgressFailuresTotal [dqConfigName q, ''delay''])
          (lgError (dqLog q) ''delay queue ZADD failed'' [KStr ''error'', KErr err] w1)
      | (None, w1) \<Rightarrow> w1)"
  by (simp add: Queue_scheduleRedis_def queue_member_def delayedItem_Marshal_def)

lemma flush_queue_member:
  "flush_member X q (queue_member h j k) w =
    (case on_redis (z_rem X (dqRedisKey q) (queue_member h j k))
        (Queue_publishAndCleanup q h j (Some (case k of None \<Rightarrow> [] | Some x \<Rightarrow> x)) w) of
       (Some err, w2) \<Rightarrow> lgWarn (dqLog q) ''delay queue ZREM failed'' [KStr ''error'', KErr err] w2
     | (None, w2) \<Rightarrow> w2)"
proof -
  define d where "d = \<lparr>diH = b64_EncodeToString h, diJ = b64_EncodeToString j,
            diK = b64_EncodeToString (case k of None \<Rightarrow> [] | Some k \<Rightarrow> k)\<rparr>"
  have "delayedItem_Unmarshal (queue_member h j k) = Inr d"
    by (rule delayedItem_roundtrip)
      (simp_all add: queue_member_def delayedItem_Marshal_def d_def b64_plain)
  then show ?thesis by (simp add: flush_member_def d_def b64_roundtrip)
qed

lemma queue_member_inject:
  "queue_member h j k = queue_member h' j' k' \<Longrightarrow>
    h = h' \<and> j = j' \<and> (case k of None \<Rightarrow> [] | Some x \<Rightarrow> x) = (case k' of None \<Rightarrow> [] | Some x \<Rightarrow> x)"
proof -
  have u: "delayedItem_Unmarshal (queue_member h j k) = Inr \<lparr>diH = b64_EncodeToString h,
      diJ = b64_EncodeToString j, diK = b64_EncodeToString (case k of None \<Rightarrow> [] | Some x \<Rightarrow> x)\<rparr>" for h j k
    by (rule delayedItem_roundtrip) (simp_all add: queue_member_def delayedItem_Marshal_def b64_plain)
  assume "queue_member h j k = queue_member h' j' k'"
  with u [of h j k] u [of h' j' k'] show ?thesis by (simp add: sum.inject) (metis b64_roundtrip prod.inject)
qed

section \<open>What a flush does\<close>

text \<open>
  One due item: published and its state removed, or the produce call failed.  In the second case the
  item is gone from the queue all the same; the message may be lost.
\<close>

record flush_view =
  fvGroups :: "bytes \<rightharpoonup> group"
  fvSent :: "sent_message list"

definition flush_abs ::
  "('c \<Rightarrow> bytes \<rightharpoonup> group) \<Rightarrow> ('k \<Rightarrow> sent_message list) \<Rightarrow> ('c, 'r, 'k) world \<Rightarrow> flush_view" where
  "flush_abs groups sent w = \<lparr>fvGroups = groups (wCql w), fvSent = sent (wKafka w)\<rparr>"

inductive flush_step :: "bytes \<Rightarrow> sent_message \<Rightarrow> flush_view \<Rightarrow> flush_view \<Rightarrow> bool"
  for h msg a
where
  published: "maybe_removes h (fvGroups a) gs \<Longrightarrow>
    flush_step h msg a \<lparr>fvGroups = gs, fvSent = fvSent a @ [msg]\<rparr>"
| failed: "s = fvSent a \<or> s = fvSent a @ [msg] \<Longrightarrow> flush_step h msg a (a\<lparr>fvSent := s\<rparr>)"

locale queue_services =
  store: state_store_laws S groups + log: logger_laws "dqLog q" + prod: producer_laws P sent
  for q :: "('c, 'r, 'k) world queue" and S :: "('c, 'r, 'k) world state_store"
    and groups :: "'c \<Rightarrow> bytes \<Rightarrow> group option"
    and P :: "('c, 'r, 'k) world producer" and sent :: "'k \<Rightarrow> sent_message list" +
  assumes store: "dqStore q = Some S" and producer: "dqProducer q = Some P"
begin

abbreviation "view \<equiv> flush_abs groups sent"

lemma publish_sim:
  "flush_step h (dqTopic q, k, j) (view w) (view (Queue_publishAndCleanup q h j k w))"
  and publish_frame: "wPending (Queue_publishAndCleanup q h j k w) = wPending w"
    "wClock (Queue_publishAndCleanup q h j k w) = wClock w"
    "wRedis (Queue_publishAndCleanup q h j k w) = wRedis w"
proof -
  obtain o1 w1 where p: "prProduceSync P (dqTopic q) k j w = (o1, w1)" by fastforce
  note fr = prod.produce_frame [OF p]
  have s1: "sent (wKafka w1) = sent (wKafka w) @ [(dqTopic q, k, j)] \<or> o1 \<noteq> None \<and> sent (wKafka w1) = sent (wKafka w)"
    by (rule prod.produce_cases [OF p])
  obtain o2 w2 where d: "ssDeleteState S h w1 = (o2, w2)" by fastforce
  note fd = store.delete_frame [OF d]
  have g: "maybe_removes h (groups (wCql w1)) (groups (wCql w2))"
    using store.delete_ok [of h w1 w2] store.delete_err [of h w1 _ w2] d
    by (cases o2) (auto simp: maybe_removes_def)
  have "flush_step h (dqTopic q, k, j) (view w) (view (Queue_publishAndCleanup q h j k w))
    \<and> wPending (Queue_publishAndCleanup q h j k w) = wPending w
    \<and> wClock (Queue_publishAndCleanup q h j k w) = wClock w
    \<and> wRedis (Queue_publishAndCleanup q h j k w) = wRedis w"
  proof (cases o1)
    case (Some err)
    define w' where "w' = metric (Inc EgressFailuresTotal [dqConfigName q, ''delay'']) w1"
    have e: "Queue_publishAndCleanup q h j k w = lgWarn (dqLog q) ''delay queue produce failed''
        [KStr ''key'', KBytes k, KStr ''error'', KErr err] w'"
      by (simp add: Queue_publishAndCleanup_def producer p Some w'_def)
    note lg = log_onlyD [OF log.warn_only [of w' "''delay queue produce failed''" "[KStr ''key'', KBytes k, KStr ''error'', KErr err]"]]
    have "view (Queue_publishAndCleanup q h j k w) = (view w)\<lparr>fvSent := sent (wKafka w1)\<rparr>"
      unfolding e using fr by (simp add: flush_abs_def lg) (simp add: w'_def kafka_only_def)
    moreover have "flush_step h (dqTopic q, k, j) (view w) ((view w)\<lparr>fvSent := sent (wKafka w1)\<rparr>)"
      using s1 by (intro flush_step.failed) (auto simp: flush_abs_def)
    moreover have "wPending w' = wPending w" "wClock w' = wClock w" "wRedis w' = wRedis w"
      using fr by (simp_all add: w'_def kafka_only_def)
    ultimately show ?thesis unfolding e by (simp add: lg)
  next
    case None
    have e: "Queue_publishAndCleanup q h j k w = w2"
      by (simp add: Queue_publishAndCleanup_def producer p None store d)
    have "view w2 = \<lparr>fvGroups = groups (wCql w2), fvSent = fvSent (view w) @ [(dqTopic q, k, j)]\<rparr>"
      using s1 None fd by (simp add: flush_abs_def cql_only_def)
    moreover have "maybe_removes h (fvGroups (view w)) (groups (wCql w2))"
      using g fr by (simp add: flush_abs_def kafka_only_def)
    ultimately show ?thesis
      unfolding e using fr fd flush_step.published by (simp add: kafka_only_def cql_only_def)
  qed
  then show "flush_step h (dqTopic q, k, j) (view w) (view (Queue_publishAndCleanup q h j k w))"
    "wPending (Queue_publishAndCleanup q h j k w) = wPending w"
    "wClock (Queue_publishAndCleanup q h j k w) = wClock w"
    "wRedis (Queue_publishAndCleanup q h j k w) = wRedis w" by simp_all
qed

lemma flush_memory_pending:
  "wPending (Queue_flushDueMemory q w) =
    (wPending w)(dqId q := filter (\<lambda>p. wClock w (wTick w) < pdPublishAt p) (wPending w (dqId q)))"
proof -
  have "wPending (fold (publish_pending q) ps v) = wPending v" for ps and v :: "('c, 'r, 'k) world"
    by (induction ps arbitrary: v) (simp_all add: publish_pending_def publish_frame)
  then show ?thesis by (simp add: flush_memory_step set_pending_def)
qed

end

text \<open>The queue is a delay publisher that keeps its contract.\<close>

context redis_server
begin

lemma Schedule_frame:
  assumes "logger_laws (dqLog q)"
  shows "wCql (Queue_Schedule X q h j k at w) = wCql w" "wKafka (Queue_Schedule X q h j k at w) = wKafka w"
    "wClock (Queue_Schedule X q h j k at w) = wClock w" "wCancel (Queue_Schedule X q h j k at w) = wCancel w"
    "key \<noteq> dqRedisKey q \<Longrightarrow> db (wRedis (Queue_Schedule X q h j k at w)) key = db (wRedis w) key"
proof -
  obtain oe r' where z: "z_add X (dqRedisKey q) (f64_int (time_UnixNano at)) (queue_member h j k) (wRedis w) = (oe, r')"
    by fastforce
  have d: "db r' = (db (wRedis w))(dqRedisKey q := RZSet ((r_zset (db (wRedis w) (dqRedisKey q)))
      (queue_member h j k \<mapsto> f64_int (time_UnixNano at)))) \<or> db r' = db (wRedis w)"
    using z_add_ok [of "dqRedisKey q" _ _ "wRedis w" r'] z_add_err [of "dqRedisKey q" _ _ "wRedis w" _ r'] z
    by (cases oe) blast+
  note lg = log_onlyD [OF logger_laws.error_only [OF assms]]
  have "wCql (Queue_Schedule X q h j k at w) = wCql w \<and> wKafka (Queue_Schedule X q h j k at w) = wKafka w
    \<and> wClock (Queue_Schedule X q h j k at w) = wClock w \<and> wCancel (Queue_Schedule X q h j k at w) = wCancel w
    \<and> (wRedis (Queue_Schedule X q h j k at w) = wRedis w \<or> wRedis (Queue_Schedule X q h j k at w) = r')"
    by (auto simp: Queue_Schedule_def scheduleRedis_member on_redis_def z set_pending_def lg split: option.split)
  with d show "wCql (Queue_Schedule X q h j k at w) = wCql w" "wKafka (Queue_Schedule X q h j k at w) = wKafka w"
    "wClock (Queue_Schedule X q h j k at w) = wClock w" "wCancel (Queue_Schedule X q h j k at w) = wCancel w"
    "key \<noteq> dqRedisKey q \<Longrightarrow> db (wRedis (Queue_Schedule X q h j k at w)) key = db (wRedis w) key"
    by auto
qed

lemma delay_keeps_contract: "logger_laws (dqLog q) \<Longrightarrow> delay_laws (delay_iface X q)"
  by unfold_locales (simp add: delay_iface_def Schedule_frame)

end

end
