(* ===== verification/Health.thy ===== *)
theory Health
  imports Kafka_Client
begin

text \<open>
  \<open>internal/health/health.go\<close>: liveness and readiness.  A pinger interface is its method; a response is
  a status code with a body.  The text of a failure is the prefix with the error, kept as a pair.
\<close>

type_synonym 'w pinger = "'w \<Rightarrow> go_error option \<times> 'w"

record 'w checker =
  ckStore :: "'w pinger option"
  ckKafka :: "'w pinger option"
  ckRedis :: "'w pinger option"
  ckTimeout :: duration

definition NewChecker :: "'w pinger option \<Rightarrow> 'w pinger option \<Rightarrow> 'w pinger option \<Rightarrow> 'w checker" where
  "NewChecker st kafka redis = \<lparr>ckStore = st, ckKafka = kafka, ckRedis = redis, ckTimeout = 3 * ns_second\<rparr>"

datatype body = NotFoundBody | StatusBody string | NotReadyBody "(string \<times> go_error) list"

record response =
  rsCode :: int
  rsBody :: body

definition http_NotFound :: response where
  "http_NotFound = \<lparr>rsCode = 404, rsBody = NotFoundBody\<rparr>"

definition liveness :: response where
  "liveness = \<lparr>rsCode = 200, rsBody = StatusBody ''ok''\<rparr>"

text \<open>One optional check; a failure is appended.\<close>

definition check_dependency ::
  "string \<Rightarrow> 'w pinger option \<Rightarrow> (string \<times> go_error) list \<times> 'w \<Rightarrow> (string \<times> go_error) list \<times> 'w"
where
  "check_dependency prefix p acc = (case (p, acc) of
      (None, _) \<Rightarrow> acc
    | (Some ping, (failures, w)) \<Rightarrow>
        (case ping w of
           (None, w1) \<Rightarrow> (failures, w1)
         | (Some err, w1) \<Rightarrow> (failures @ [(prefix, err)], w1)))"

definition readiness :: "'w checker \<Rightarrow> 'w \<Rightarrow> response \<times> 'w" where
  "readiness c w =
     (let (failures, w') = check_dependency ''redis: '' (ckRedis c)
            (check_dependency ''kafka: '' (ckKafka c)
              (check_dependency ''store: '' (ckStore c) ([], w)))
      in if length failures > 0 then (\<lparr>rsCode = 503, rsBody = NotReadyBody failures\<rparr>, w')
         else (\<lparr>rsCode = 200, rsBody = StatusBody ''ready''\<rparr>, w'))"

definition ServeHTTP :: "'w checker \<Rightarrow> string \<Rightarrow> string \<Rightarrow> 'w \<Rightarrow> response \<times> 'w" where
  "ServeHTTP c httpMethod path w =
     (if httpMethod \<noteq> ''GET'' then (http_NotFound, w)
      else if path = ''/health'' \<or> path = ''/live'' then (liveness, w)
      else if path = ''/ready'' then readiness c w
      else (http_NotFound, w))"

definition Store_Ping :: "('c, 'r, 'k) ext \<Rightarrow> ('c, 'r, 'k) world pinger" where
  "Store_Ping X w =
     (let (err, w1) = on_cql (cql_ping X) w
      in case err of
           Some e \<Rightarrow> (Some (ErrWrap ''scylla ping: %w'' [] e), w1)
         | None \<Rightarrow> (None, w1))"

text \<open>\<open>redisPingerAdapter\<close> of \<open>cmd/processor/main.go\<close>.\<close>

definition redisPingerAdapter_Ping :: "('c, 'r, 'k) ext \<Rightarrow> ('c, 'r, 'k) world pinger" where
  "redisPingerAdapter_Ping X = on_redis (redis_ping X)"

section \<open>Readiness\<close>

text \<open>The pingers that are there, in the order they are asked.\<close>

definition dependencies :: "'w checker \<Rightarrow> (string \<times> 'w pinger) list" where
  "dependencies c =
     (case ckStore c of None \<Rightarrow> [] | Some p \<Rightarrow> [(''store: '', p)])
     @ (case ckKafka c of None \<Rightarrow> [] | Some p \<Rightarrow> [(''kafka: '', p)])
     @ (case ckRedis c of None \<Rightarrow> [] | Some p \<Rightarrow> [(''redis: '', p)])"

fun ask :: "(string \<times> 'w pinger) list \<Rightarrow> 'w \<Rightarrow> (string \<times> go_error) list \<times> 'w" where
  "ask [] w = ([], w)"
| "ask ((n, p) # ps) w = (case p w of (oe, w1) \<Rightarrow> (case ask ps w1 of (fs, w2) \<Rightarrow>
     (case oe of None \<Rightarrow> fs | Some e \<Rightarrow> (n, e) # fs, w2)))"

lemma readiness_asks:
  "readiness c w = (case ask (dependencies c) w of (fs, w') \<Rightarrow>
     (if fs = [] then \<lparr>rsCode = 200, rsBody = StatusBody ''ready''\<rparr>
      else \<lparr>rsCode = 503, rsBody = NotReadyBody fs\<rparr>, w'))"
  by (cases "ckStore c"; cases "ckKafka c"; cases "ckRedis c")
    (simp_all add: readiness_def check_dependency_def dependencies_def split: prod.splits option.splits)

text \<open>\<open>answers ps up\<close>: each dependency answers its pings as \<open>up\<close> says, while the probe runs.\<close>

definition answers :: "(string \<times> 'w pinger) list \<Rightarrow> (string \<Rightarrow> bool) \<Rightarrow> bool" where
  "answers ps up \<longleftrightarrow> (\<forall>(n, p)\<in>set ps. \<forall>w. up n = (fst (p w) = None))"

lemma ask_failures:
  "answers ps up \<Longrightarrow> map fst (fst (ask ps w)) = filter (\<lambda>n. \<not> up n) (map fst ps)"
proof (induction ps arbitrary: w)
  case Nil
  then show ?case by simp
next
  case (Cons np ps)
  obtain n p where np: "np = (n, p)" by fastforce
  obtain oe w1 where p: "p w = (oe, w1)" by fastforce
  from Cons.prems have "\<forall>v. up n = (fst (p v) = None)" and a: "answers ps up"
    by (simp_all add: answers_def np)
  then have "up n = (oe = None)" using p by (metis fst_conv)
  with Cons.IH [OF a, of w1] np p show ?case by (auto split: prod.splits option.splits)
qed

text \<open>Ready exactly when every dependency is up; otherwise the ones that are down are named, in order.\<close>

lemma readiness_code:
  assumes "answers (dependencies c) up"
  shows "rsCode (fst (readiness c w)) = (if \<forall>n\<in>fst ` set (dependencies c). up n then 200 else 503)"
proof -
  have "fst (ask (dependencies c) w) = [] \<longleftrightarrow> filter (\<lambda>n. \<not> up n) (map fst (dependencies c)) = []"
    using ask_failures [OF assms, of w] by (metis map_is_Nil_conv)
  then have "fst (ask (dependencies c) w) = [] \<longleftrightarrow> (\<forall>n\<in>fst ` set (dependencies c). up n)"
    by (auto simp: filter_empty_conv)
  then show ?thesis by (auto simp: readiness_asks split: prod.splits)
qed

end
