(* ===== verification/Store_Setup.thy ===== *)
theory Store_Setup
  imports Store
begin

text \<open>
  \<open>internal/store/scylla.go\<close>: creating the keyspace and the tables, and opening the session.  A session is
  identified by its keyspace.
\<close>

definition line_break :: string where "line_break = [CHR 0x0A]"
definition tabs :: "nat \<Rightarrow> string" where "tabs n = replicate n (CHR 0x09)"

text \<open>The statements, with the line breaks and tabs of the source.\<close>

definition create_keyspace_text :: "string \<Rightarrow> string" where
  "create_keyspace_text ks = ''CREATE KEYSPACE IF NOT EXISTS '' @ ks @
     '' WITH replication = {'' @ [CHR 0x27] @ ''class'' @ [CHR 0x27] @ '': '' @ [CHR 0x27] @ ''SimpleStrategy'' @
     [CHR 0x27] @ '', '' @ [CHR 0x27] @ ''replication_factor'' @ [CHR 0x27] @ '': 1}''"

definition statement_lines :: "string list \<Rightarrow> string" where
  "statement_lines ls = concat (map (\<lambda>l. line_break @ tabs 2 @ l) ls) @ line_break @ tabs 1"

definition table_options :: "string list" where
  "table_options = ['') WITH default_time_to_live = 600'',
     ''  AND compaction = {'' @ [CHR 0x27] @ ''class'' @ [CHR 0x27] @ '': '' @ [CHR 0x27] @
       ''LeveledCompactionStrategy'' @ [CHR 0x27] @ ''}'']"

definition create_table_text :: "string \<Rightarrow> string" where
  "create_table_text ks = statement_lines (
     [''CREATE TABLE IF NOT EXISTS '' @ ks @ ''.join_state ('',
      ''    join_key_hash blob,'',
      ''    join_key_raw text,'',
      ''    config_id uuid,'',
      ''    participant_data map<text, blob>,'',
      ''    arrival_timestamps map<text, timestamp>,'',
      ''    is_completed boolean,'',
      ''    PRIMARY KEY (join_key_hash)''] @ table_options)"

definition create_table_v2_text :: "string \<Rightarrow> string" where
  "create_table_v2_text ks = statement_lines (
     [''CREATE TABLE IF NOT EXISTS '' @ ks @ ''.join_state_v2 ('',
      ''    config_id uuid,'',
      ''    join_key_hash blob,'',
      ''    join_key_raw text,'',
      ''    participant_data map<text, blob>,'',
      ''    arrival_timestamps map<text, timestamp>,'',
      ''    is_completed boolean,'',
      ''    PRIMARY KEY (config_id, join_key_hash)''] @ table_options)"

text \<open>A step that may fail, its error wrapped, before the rest.\<close>

definition or_fail ::
  "string \<Rightarrow> ('w \<Rightarrow> go_error option \<times> 'w) \<Rightarrow> ('w \<Rightarrow> go_error option \<times> 'w) \<Rightarrow> 'w \<Rightarrow> go_error option \<times> 'w"
where
  "or_fail what f rest w = (case f w of
      (Some err, w1) \<Rightarrow> (Some (ErrWrap what [] err), w1)
    | (None, w1) \<Rightarrow> rest w1)"

text \<open>The cluster configuration for a keyspace; only \<open>New\<close> asks for the consistency \<open>LocalQuorum\<close>.\<close>

definition cluster_for :: "store_config \<Rightarrow> string \<Rightarrow> bool \<Rightarrow> cluster_config" where
  "cluster_for cfg ks localQuorum = \<lparr>clHosts = stHosts cfg, clKeyspace = ks, clLocalQuorum = localQuorum,
     clTimeout = stTimeout cfg, clProtoVersion = 4, clDisableInitialHostLookup = True\<rparr>"

text \<open>A session that is closed when the function returns.\<close>

definition with_session ::
  "('c, 'r, 'k) ext \<Rightarrow> string \<Rightarrow> store_config \<Rightarrow> string \<Rightarrow>
   (('c, 'r, 'k) world \<Rightarrow> go_error option \<times> ('c, 'r, 'k) world) \<Rightarrow> ('c, 'r, 'k) world \<Rightarrow> go_error option \<times> ('c, 'r, 'k) world"
where
  "with_session X what cfg ks body =
     or_fail what (on_cql (cql_create_session X (cluster_for cfg ks False)))
       (\<lambda>w. let (r, w1) = body w in (r, w1\<lparr>wCql := cql_close X ks (wCql w1)\<rparr>))"

definition EnsureKeyspaceAndTable ::
  "('c, 'r, 'k) ext \<Rightarrow> store_config \<Rightarrow> ('c, 'r, 'k) world \<Rightarrow> go_error option \<times> ('c, 'r, 'k) world"
where
  "EnsureKeyspaceAndTable X cfg0 =
     (let cfg = store_defaults cfg0; ks = stKeyspace cfg in
      with_session X ''create system session: %w'' cfg ''system''
      (or_fail ''create keyspace: %w'' (on_cql (cql_exec_text X ''system'' (create_keyspace_text ks)))
      (with_session X ''create app session: %w'' cfg ks
      (or_fail ''create table: %w'' (on_cql (cql_exec_text X ks (create_table_text ks)))
      (or_fail ''create table join_state_v2: %w'' (on_cql (cql_exec_text X ks (create_table_v2_text ks)))
      (\<lambda>w. (None, w)))))))"

text \<open>The deprecated method of the same effect.\<close>

definition CreateKeyspaceAndTable ::
  "('c, 'r, 'k) ext \<Rightarrow> store \<Rightarrow> ('c, 'r, 'k) world \<Rightarrow> go_error option \<times> ('c, 'r, 'k) world"
where
  "CreateKeyspaceAndTable X s = EnsureKeyspaceAndTable X (stCfg s)"

definition Store_Close :: "('c, 'r, 'k) ext \<Rightarrow> store \<Rightarrow> ('c, 'r, 'k) world \<Rightarrow> ('c, 'r, 'k) world" where
  "Store_Close X s w = w\<lparr>wCql := cql_close X (stKeyspace (stCfg s)) (wCql w)\<rparr>"

definition Store_New ::
  "('c, 'r, 'k) ext \<Rightarrow> store_config \<Rightarrow> ('c, 'r, 'k) world \<Rightarrow> store result \<times> ('c, 'r, 'k) world"
where
  "Store_New X cfg0 w =
     (let cfg = store_defaults cfg0 in
      case on_cql (cql_create_session X (cluster_for cfg (stKeyspace cfg) True)) w of
        (Some err, w1) \<Rightarrow> (Inl (ErrWrap ''create session: %w'' [] err), w1)
      | (None, w1) \<Rightarrow> (Inr \<lparr>stCfg = cfg\<rparr>, w1))"

text \<open>A store that was opened has a keyspace and a time-out.\<close>

lemma store_defaults_set: "stKeyspace (store_defaults cfg) \<noteq> []" "stTimeout (store_defaults cfg) \<noteq> 0"
  by (auto simp: store_defaults_def Let_def ns_second_def)

lemma Store_New_cfg: "Store_New X cfg w = (Inr s, w') \<Longrightarrow> stCfg s = store_defaults cfg"
  by (auto simp: Store_New_def Let_def split: prod.splits option.splits)

text \<open>The set-up succeeds exactly when its five steps do, in order.\<close>

lemma or_fail_None: "or_fail what f rest w = (None, w') \<longleftrightarrow> (\<exists>w1. f w = (None, w1) \<and> rest w1 = (None, w'))"
  by (auto simp: or_fail_def split: prod.splits option.splits)

end
