(* ===== verification/Config_Load.thy ===== *)
theory Config_Load
  imports World
begin

text \<open>
  Loading the configuration: \<open>LoadJoinConfig\<close> of \<open>internal/config/config.go\<close>, and what \<open>encoding/json\<close> does to
  decode an object into the structs of that file.  A decoder takes the parsed value and the old value of
  its target; its flag says that a type error was saved, which fails the call after all has been decoded.
  The errors of \<open>UnmarshalJSON\<close> and \<open>UnmarshalText\<close> end the decoding.
\<close>

section \<open>Decoders\<close>

type_synonym 'a decoder = "literal json \<Rightarrow> 'a \<Rightarrow> ('a \<times> bool) result"

definition dec_string :: "string decoder" where
  "dec_string v old = (case v of JStr s \<Rightarrow> Inr (s, False) | JNull \<Rightarrow> Inr (old, False) | _ \<Rightarrow> Inr (old, True))"

text \<open>An array decodes over the elements the slice has, if any; \<open>z\<close> is the zero value of the others.\<close>

fun dec_elems :: "'a decoder \<Rightarrow> 'a \<Rightarrow> literal json list \<Rightarrow> 'a list \<Rightarrow> ('a list \<times> bool) result" where
  "dec_elems d z [] olds = Inr ([], False)"
| "dec_elems d z (v # vs) olds = (case d v (case olds of [] \<Rightarrow> z | old # _ \<Rightarrow> old) of
     Inl e \<Rightarrow> Inl e
   | Inr (x, bad) \<Rightarrow> (case dec_elems d z vs (tl olds) of
       Inl e \<Rightarrow> Inl e
     | Inr (xs, bads) \<Rightarrow> Inr (x # xs, bad \<or> bads)))"

definition dec_slice :: "'a decoder \<Rightarrow> 'a \<Rightarrow> 'a list decoder" where
  "dec_slice d z v old = (case v of
      JArr vs \<Rightarrow> dec_elems d z vs old | JNull \<Rightarrow> Inr ([], False) | _ \<Rightarrow> Inr (old, True))"

definition dec_pointer :: "'a decoder \<Rightarrow> 'a \<Rightarrow> 'a option decoder" where
  "dec_pointer d z v old = (case v of
      JNull \<Rightarrow> Inr (None, False)
    | _ \<Rightarrow> (case d v (case old of None \<Rightarrow> z | Some x \<Rightarrow> x) of
        Inl e \<Rightarrow> Inl e
      | Inr (x, bad) \<Rightarrow> Inr (Some x, bad)))"

text \<open>
  A field of a struct is found by its name up to case.  Of the runes outside ASCII, the long s and the
  Kelvin sign fold to ASCII letters.
\<close>

definition lower_char :: "char \<Rightarrow> char" where
  "lower_char c = (let n = of_char c :: nat in if 65 \<le> n \<and> n \<le> 90 then char_of (n + 32) else c)"

fun fold_name :: "string \<Rightarrow> string" where
  "fold_name (a # b # c # s) =
     (if a = CHR 0xE2 \<and> b = CHR 0x84 \<and> c = CHR 0xAA then CHR ''k'' # fold_name s
      else if a = CHR 0xC5 \<and> b = CHR 0xBF then CHR ''s'' # fold_name (c # s)
      else lower_char a # fold_name (b # c # s))"
| "fold_name [a, b] = (if a = CHR 0xC5 \<and> b = CHR 0xBF then ''s'' else [lower_char a, lower_char b])"
| "fold_name [a] = [lower_char a]"
| "fold_name [] = []"

text \<open>\<open>at_field get upd d\<close> decodes one field of a record.\<close>

definition at_field :: "('a \<Rightarrow> 'b) \<Rightarrow> (('b \<Rightarrow> 'b) \<Rightarrow> 'a \<Rightarrow> 'a) \<Rightarrow> 'b decoder \<Rightarrow> 'a decoder" where
  "at_field get upd d v old = (case d v (get old) of
      Inl e \<Rightarrow> Inl e
    | Inr (x, bad) \<Rightarrow> Inr (upd (\<lambda>_. x) old, bad))"

fun dec_members :: "(string \<times> 'a decoder) list \<Rightarrow> (string \<times> literal json) list \<Rightarrow> 'a \<Rightarrow> ('a \<times> bool) result" where
  "dec_members fs [] old = Inr (old, False)"
| "dec_members fs ((k, v) # kvs) old = (case map_of fs (fold_name k) of
     None \<Rightarrow> dec_members fs kvs old
   | Some d \<Rightarrow> (case d v old of
       Inl e \<Rightarrow> Inl e
     | Inr (x, bad) \<Rightarrow> (case dec_members fs kvs x of
         Inl e \<Rightarrow> Inl e
       | Inr (y, bads) \<Rightarrow> Inr (y, bad \<or> bads))))"

definition dec_struct :: "(string \<times> 'a decoder) list \<Rightarrow> 'a decoder" where
  "dec_struct fs v old = (case v of
      JObj kvs \<Rightarrow> dec_members fs kvs old | JNull \<Rightarrow> Inr (old, False) | _ \<Rightarrow> Inr (old, True))"

text \<open>\<open>Unmarshal\<close> into a variable that holds \<open>z\<close>.\<close>

definition Unmarshal_into :: "'a decoder \<Rightarrow> 'a \<Rightarrow> bytes \<Rightarrow> 'a result" where
  "Unmarshal_into d z b = (case json_parse b of
      Inl e \<Rightarrow> Inl e
    | Inr v \<Rightarrow> (case d v z of
        Inl e \<Rightarrow> Inl e
      | Inr (x, bad) \<Rightarrow> if bad then Inl json_type_error else Inr x))"

section \<open>The structs\<close>

text \<open>\<open>uuid.UUID\<close> is a \<open>TextUnmarshaler\<close>, which is asked for strings only; \<open>Duration\<close> is an \<open>Unmarshaler\<close>.\<close>

definition dec_uuid :: "('c, 'r, 'k) ext \<Rightarrow> uuid decoder" where
  "dec_uuid X v old = (case v of
      JStr s \<Rightarrow> (case uuid_Parse X s of Inl e \<Rightarrow> Inl e | Inr u \<Rightarrow> Inr (u, False))
    | JNull \<Rightarrow> Inr (old, False)
    | _ \<Rightarrow> Inr (old, True))"

definition dec_duration :: "duration decoder" where
  "dec_duration v old = (case duration_value old (json_value v) of Inl e \<Rightarrow> Inl e | Inr t \<Rightarrow> Inr (t, False))"

definition key_def_zero :: key_def where
  "key_def_zero = \<lparr>kdField = '''', kdFields = []\<rparr>"

definition dec_key_def :: "key_def decoder" where
  "dec_key_def = dec_struct [(''field'', at_field kdField kdField_update dec_string),
     (''fields'', at_field kdFields kdFields_update (dec_slice dec_string ''''))]"

definition projection_field_zero :: projection_field where
  "projection_field_zero = \<lparr>pfOutput = '''', pfStream = '''', pfField = ''''\<rparr>"

definition dec_projection_field :: "projection_field decoder" where
  "dec_projection_field = dec_struct [(''output'', at_field pfOutput pfOutput_update dec_string),
     (''stream'', at_field pfStream pfStream_update dec_string),
     (''field'', at_field pfField pfField_update dec_string)]"

definition join_config_zero :: join_config where
  "join_config_zero = \<lparr>ConfigID = uuid_Nil, cfgName = '''', StreamIDs = [], cfgKey = key_def_zero, cfgTTL = 0,
     Projection = [], Egress = '''', PostJoinDelay = 0\<rparr>"

definition join_config_fields :: "('c, 'r, 'k) ext \<Rightarrow> (string \<times> join_config decoder) list" where
  "join_config_fields X =
    [(''config_id'', at_field ConfigID ConfigID_update (dec_uuid X)),
     (''name'', at_field cfgName cfgName_update dec_string),
     (''stream_ids'', at_field StreamIDs StreamIDs_update (dec_slice dec_string '''')),
     (''key'', at_field cfgKey cfgKey_update dec_key_def),
     (''ttl'', at_field cfgTTL cfgTTL_update dec_duration),
     (''projection'', at_field Projection Projection_update (dec_slice dec_projection_field projection_field_zero)),
     (''egress'', at_field Egress Egress_update dec_string),
     (''post_join_delay'', at_field PostJoinDelay PostJoinDelay_update dec_duration)]"

definition dec_join_config :: "('c, 'r, 'k) ext \<Rightarrow> join_config decoder" where
  "dec_join_config X = dec_struct (join_config_fields X)"

definition processor_config_zero :: processor_config where
  "processor_config_zero = \<lparr>KafkaBrokers = [], InputTopic = '''', EgressTopic = '''', ConfigPath = '''',
     JoinConfig = None, ConfigPaths = [], JoinConfigs = [], ScyllaHosts = [], ScyllaKeyspace = '''',
     RedisAddr = '''', RedisBloomKey = '''', CorrectionsTopic = ''''\<rparr>"

definition processor_config_fields :: "('c, 'r, 'k) ext \<Rightarrow> (string \<times> processor_config decoder) list" where
  "processor_config_fields X =
    [(''kafka_brokers'', at_field KafkaBrokers KafkaBrokers_update (dec_slice dec_string '''')),
     (''input_topic'', at_field InputTopic InputTopic_update dec_string),
     (''egress_topic'', at_field EgressTopic EgressTopic_update dec_string),
     (''config_path'', at_field ConfigPath ConfigPath_update dec_string),
     (''join_config'', at_field JoinConfig JoinConfig_update (dec_pointer (dec_join_config X) join_config_zero)),
     (''config_paths'', at_field ConfigPaths ConfigPaths_update (dec_slice dec_string '''')),
     (''join_configs'', at_field JoinConfigs JoinConfigs_update
        (dec_slice (dec_pointer (dec_join_config X) join_config_zero) None)),
     (''scylla_hosts'', at_field ScyllaHosts ScyllaHosts_update (dec_slice dec_string '''')),
     (''scylla_keyspace'', at_field ScyllaKeyspace ScyllaKeyspace_update dec_string),
     (''redis_addr'', at_field RedisAddr RedisAddr_update dec_string),
     (''redis_bloom_key'', at_field RedisBloomKey RedisBloomKey_update dec_string),
     (''corrections_topic'', at_field CorrectionsTopic CorrectionsTopic_update dec_string)]"

definition dec_processor_config :: "('c, 'r, 'k) ext \<Rightarrow> processor_config decoder" where
  "dec_processor_config X = dec_struct (processor_config_fields X)"

section \<open>LoadJoinConfig\<close>

definition LoadJoinConfig :: "('c, 'r, 'k) ext \<Rightarrow> string \<Rightarrow> join_config result" where
  "LoadJoinConfig X path = (case os_ReadFile X path of
      Inl err \<Rightarrow> Inl (ErrWrap ''load join config from %s: %w'' [FStr path] err)
    | Inr data \<Rightarrow> (case Unmarshal_into (dec_join_config X) join_config_zero data of
        Inl err \<Rightarrow> Inl (ErrWrap ''load join config from %s: %w'' [FStr path] err)
      | Inr c \<Rightarrow> Inr c))"

text \<open>\<open>loadProcessorConfig\<close> of \<open>cmd/processor/main.go\<close>.\<close>

definition load_path :: "('c, 'r, 'k) ext \<Rightarrow> string \<Rightarrow> join_config option result" where
  "load_path X p = (case LoadJoinConfig X p of
      Inl err \<Rightarrow> Inl (ErrWrap ''load %s: %w'' [FStr p] err)
    | Inr jc \<Rightarrow> Inr (Some jc))"

definition load_single :: "('c, 'r, 'k) ext \<Rightarrow> processor_config \<Rightarrow> processor_config result" where
  "load_single X cfg =
     (if JoinConfig cfg = None \<and> ConfigPath cfg \<noteq> '''' then
        (case LoadJoinConfig X (ConfigPath cfg) of
           Inl err \<Rightarrow> Inl err
         | Inr jc \<Rightarrow> Inr (cfg\<lparr>JoinConfig := Some jc\<rparr>))
      else Inr cfg)"

definition load_multi :: "('c, 'r, 'k) ext \<Rightarrow> processor_config \<Rightarrow> processor_config result" where
  "load_multi X cfg =
     (if length (JoinConfigs cfg) = 0 \<and> 0 < length (ConfigPaths cfg) then
        (case map_result (load_path X) (ConfigPaths cfg) of
           Inl err \<Rightarrow> Inl err
         | Inr jcs \<Rightarrow> Inr (cfg\<lparr>JoinConfigs := jcs\<rparr>))
      else Inr cfg)"

definition loadProcessorConfig :: "('c, 'r, 'k) ext \<Rightarrow> string \<Rightarrow> processor_config result" where
  "loadProcessorConfig X path = (case os_ReadFile X path of
      Inl err \<Rightarrow> Inl err
    | Inr data \<Rightarrow> (case Unmarshal_into (dec_processor_config X) processor_config_zero data of
        Inl err \<Rightarrow> Inl err
      | Inr cfg \<Rightarrow> (case load_single X cfg of
          Inl err \<Rightarrow> Inl err
        | Inr cfg1 \<Rightarrow> load_multi X cfg1)))"

end
