(* ===== verification/Processor.thy ===== *)
theory Processor
  imports Consumer_Run Delay Health Store_Setup Config_Load
begin

text \<open>
  \<open>cmd/processor/main.go\<close>: retries of the start-up, the wiring of the components for one join
  configuration or several, the routes of the HTTP server, \<open>run\<close> with its deferred calls, and \<open>main\<close>.  The
  goroutines of the timeout managers and delay queues run beside the consumer; the wiring says which
  there are, and \<open>System\<close> interleaves their steps.
\<close>

section \<open>retry\<close>

definition next_backoff :: "duration \<Rightarrow> duration" where
  "next_backoff b = (if b < 10 * ns_second then b + 2 * ns_second else b)"

text \<open>\<open>n\<close> bounds the turns of the loop; \<open>None\<close> means that it has not returned by then.\<close>

fun retry_loop ::
  "nat \<Rightarrow> string \<Rightarrow> ('c, 'r, 'k) world logger \<Rightarrow> (('c, 'r, 'k) world \<Rightarrow> go_error option \<times> ('c, 'r, 'k) world) \<Rightarrow>
   time \<Rightarrow> duration \<Rightarrow> ('c, 'r, 'k) world \<Rightarrow> (go_error option \<times> ('c, 'r, 'k) world) option"
where
  "retry_loop 0 name log fn deadline backoff w = None"
| "retry_loop (Suc n) name log fn deadline backoff w = (case fn w of
     (None, w1) \<Rightarrow> Some (None, w1)
   | (Some err, w1) \<Rightarrow> (case ctx_Err w1 of
        (Some e, w2) \<Rightarrow> Some (Some e, w2)
      | (None, w2) \<Rightarrow>
          (let (now, w3) = time_Now w2 in
           if deadline < now then Some (Some err, w3)
           else (case ctx_Err (lgWarn log ''dependency not ready, retrying''
                     [KStr ''name'', KStr name, KStr ''error'', KErr err, KStr ''backoff'', KDuration backoff] w3) of
               (Some e, w4) \<Rightarrow> Some (Some e, w4)
             | (None, w4) \<Rightarrow> retry_loop n name log fn deadline (next_backoff backoff) w4))))"

definition retry ::
  "nat \<Rightarrow> ('c, 'r, 'k) world logger \<Rightarrow> duration \<Rightarrow> string \<Rightarrow> ('c, 'r, 'k) world logger option \<Rightarrow>
   (('c, 'r, 'k) world \<Rightarrow> go_error option \<times> ('c, 'r, 'k) world) \<Rightarrow> ('c, 'r, 'k) world \<Rightarrow>
   (go_error option \<times> ('c, 'r, 'k) world) option"
where
  "retry n global maxDur name log fn w =
     (let l = (case log of None \<Rightarrow> global | Some l \<Rightarrow> l);
          (now, w1) = time_Now w
      in retry_loop n name l fn (now + maxDur) (2 * ns_second) w1)"

section \<open>Wiring\<close>

text \<open>\<open>uuid.UUID.String\<close>.\<close>

definition uuid_String :: "uuid \<Rightarrow> string" where
  "uuid_String u = (let h = hex_EncodeToString u in
     take 8 h @ ''-'' @ take 4 (drop 8 h) @ ''-'' @ take 4 (drop 12 h) @ ''-'' @ take 4 (drop 16 h) @ ''-'' @ drop 20 h)"

record 'w wiring =
  wgHandler :: "'w handler"
  wgManager :: "'w manager option"
  wgQueue :: "'w queue option"

text \<open>
  What both modes build: \<open>suffix\<close> is appended to the Redis keys, and \<open>i\<close> identifies the delay queue.  An
  empty \<open>RedisAddr\<close> leaves out what needs Redis; the queue then gets a nil client in a non-nil
  interface and an empty key, so that it stays in memory.
\<close>

definition wire ::
  "('c, 'r, 'k) ext \<Rightarrow> processor_config \<Rightarrow> ('c, 'r, 'k) world logger \<Rightarrow> ('c, 'r, 'k) world logger \<Rightarrow>
   ('c, 'r, 'k) world state_store \<Rightarrow> string \<Rightarrow> nat \<Rightarrow> join_config \<Rightarrow> ('c, 'r, 'k) world wiring"
where
  "wire X cfg global log stateStore suffix i jc =
     (let rdb = RedisAddr cfg \<noteq> ''''; kclient = kafka_producer X;
          bloomFilter = (if rdb then Some (bloom_iface X (bloom_New (RedisBloomKey cfg @ suffix))) else None);
          tracker = (if rdb \<and> CorrectionsTopic cfg \<noteq> ''''
            then Some (tracker_iface X (NewRedisPartialTracker (''omni_joiner:partial'' @ suffix))) else None);
          tm = (if rdb then Some (timeout_New global \<lparr>tcStore = stateStore, tcJoinConfig = jc,
              tcProducer = Some kclient, tcEgressTopic = EgressTopic cfg,
              tcSetKey = ''omni_joiner:timeouts'' @ suffix, tcPollInterval = 0, tcBatchSize = 0,
              tcPartialTracker = tracker, tcLog = Some log\<rparr>) else None);
          dq = (if PostJoinDelay jc > 0
            then Some (NewQueue i global (Some stateStore) (Some kclient) (EgressTopic cfg) (cfgName jc)
                   (Some log) True (if rdb then ''omni_joiner:delay:'' @ cfgName jc else ''''))
            else None)
      in \<lparr>wgHandler = NewHandler global stateStore jc (Some kclient) (EgressTopic cfg) bloomFilter
             (map_option (manager_iface X) tm) (map_option (delay_iface X) dq) tracker (CorrectionsTopic cfg) (Some log),
          wgManager = tm, wgQueue = dq\<rparr>)"

definition single_wiring ::
  "('c, 'r, 'k) ext \<Rightarrow> processor_config \<Rightarrow> ('c, 'r, 'k) world logger \<Rightarrow> ('c, 'r, 'k) world logger \<Rightarrow> store \<Rightarrow>
   join_config \<Rightarrow> ('c, 'r, 'k) world wiring"
where
  "single_wiring X cfg global log st jc = wire X cfg global log (store_iface X st) '''' 0 jc"

definition multi_wiring ::
  "('c, 'r, 'k) ext \<Rightarrow> processor_config \<Rightarrow> ('c, 'r, 'k) world logger \<Rightarrow> ('c, 'r, 'k) world logger \<Rightarrow> store \<Rightarrow>
   nat \<Rightarrow> join_config \<Rightarrow> ('c, 'r, 'k) world wiring"
where
  "multi_wiring X cfg global log st i jc =
     wire X cfg global log (scoped_iface X (NewScopedStore st (ConfigID jc)))
       ('':'' @ uuid_String (ConfigID jc)) i jc"

text \<open>
  The loop of \<open>runMultiConfig\<close>: a later configuration with the same id replaces an earlier one.  The checks
  of \<open>run\<close> let no nil pointer through.
\<close>

definition multi_handlers ::
  "('c, 'r, 'k) ext \<Rightarrow> processor_config \<Rightarrow> ('c, 'r, 'k) world logger \<Rightarrow> ('c, 'r, 'k) world logger \<Rightarrow> store \<Rightarrow>
   uuid \<rightharpoonup> ('c, 'r, 'k) world handler"
where
  "multi_handlers X cfg global log st =
     fold (\<lambda>(i, ojc) m. case ojc of None \<Rightarrow> m
         | Some jc \<Rightarrow> m(ConfigID jc \<mapsto> wgHandler (multi_wiring X cfg global log st i jc)))
       (enumerate 0 (JoinConfigs cfg)) Map.empty"

section \<open>run\<close>

datatype outcome = Fatal go_error | Panicked | Returned "go_error option" | Running

text \<open>
  The checks before anything is opened; an error here ends the process (\<open>log.Fatal\<close>).  For a nil
  configuration in the list, the message of that error reads the field of a nil pointer.
\<close>

definition run_checks :: "processor_config \<Rightarrow> outcome option" where
  "run_checks cfg =
     (if MultiConfig cfg then
        (if length (JoinConfigs cfg) = 0 then
           Some (Fatal (ErrFmt ''join_configs or config_paths required for multi-config'' []))
         else (case List.find (\<lambda>ojc. ValidateJoinConfig ojc \<noteq> None) (JoinConfigs cfg) of
            None \<Rightarrow> None
          | Some None \<Rightarrow> Some Panicked
          | Some (Some jc) \<Rightarrow> map_option (\<lambda>err. Fatal (ErrWrap ''invalid join config %q: %v'' [FStr (cfgName jc)] err))
              (ValidateJoinConfig (Some jc))))
      else (case JoinConfig cfg of
          None \<Rightarrow> Some (Fatal (ErrFmt ''join_config or config_path required'' []))
        | Some jc \<Rightarrow> map_option (\<lambda>err. Fatal (ErrWrap ''invalid join config: %v'' [] err)) (ValidateJoinConfig (Some jc))))"

definition connect_scylla ::
  "('c, 'r, 'k) ext \<Rightarrow> store_config \<Rightarrow> ('c, 'r, 'k) world \<Rightarrow> go_error option \<times> ('c, 'r, 'k) world"
where
  "connect_scylla X storeCfg w = (case EnsureKeyspaceAndTable X storeCfg w of
      (Some e, w1) \<Rightarrow> (Some e, w1)
    | (None, w1) \<Rightarrow> (case Store_New X storeCfg w1 of
        (Inl e, w2) \<Rightarrow> (Some e, w2)
      | (Inr s, w2) \<Rightarrow> (None, w2)))"

definition scylla_config :: "processor_config \<Rightarrow> store_config" where
  "scylla_config cfg = \<lparr>stHosts = ScyllaHosts cfg, stKeyspace = ScyllaKeyspace cfg, stTimeout = 10 * ns_second\<rparr>"

text \<open>
  \<open>run\<close> up to the consumer loop, and the loop.  \<open>n\<close> bounds the turns of each of its loops.  The store that
  \<open>connect_scylla\<close> opened is the one of \<open>Store_New_cfg\<close>.
\<close>

definition the_store :: "processor_config \<Rightarrow> store" where
  "the_store cfg = \<lparr>stCfg = store_defaults (scylla_config cfg)\<rparr>"

text \<open>The HTTP server: \<open>None\<close> stands for the page of the Prometheus library, and paths are clean ones.\<close>

definition health_checker :: "('c, 'r, 'k) ext \<Rightarrow> processor_config \<Rightarrow> ('c, 'r, 'k) world checker" where
  "health_checker X cfg = NewChecker (Some (Store_Ping X)) (Some (kafka_Ping X))
     (if RedisAddr cfg \<noteq> '''' then Some (redisPingerAdapter_Ping X) else None)"

definition serve_mux ::
  "('c, 'r, 'k) ext \<Rightarrow> processor_config \<Rightarrow> string \<Rightarrow> string \<Rightarrow> ('c, 'r, 'k) world \<Rightarrow>
   response option \<times> ('c, 'r, 'k) world"
where
  "serve_mux X cfg httpMethod path w =
     (if path = ''/metrics'' then (None, w)
      else if path \<in> {''/health'', ''/ready'', ''/live''} then
        (let (r, w1) = ServeHTTP (health_checker X cfg) httpMethod path w in (Some r, w1))
      else (Some http_NotFound, w))"

text \<open>What is deferred: Redis, Kafka and the store are closed, in this order.\<close>

definition close_all :: "('c, 'r, 'k) ext \<Rightarrow> processor_config \<Rightarrow> ('c, 'r, 'k) world \<Rightarrow> ('c, 'r, 'k) world" where
  "close_all X cfg w =
     Store_Close X (the_store cfg) (kafka_Close X
       (if RedisAddr cfg \<noteq> '''' then w\<lparr>wRedis := redis_close X (wRedis w)\<rparr> else w))"

definition processor_resolver ::
  "('c, 'r, 'k) ext \<Rightarrow> processor_config \<Rightarrow> ('c, 'r, 'k) world logger \<Rightarrow> ('c, 'r, 'k) world resolver"
where
  "processor_resolver X cfg log =
     (let st = the_store cfg in
      if MultiConfig cfg then HandlerResolverFromMap X (multi_handlers X cfg log log st)
      else (case JoinConfig cfg of
          None \<Rightarrow> (\<lambda>_. Inl (ErrFmt ''join_config or config_path required'' []))
        | Some jc \<Rightarrow> HandlerResolverFromSingle (wgHandler (single_wiring X cfg log log st jc))))"

definition processor_run ::
  "nat \<Rightarrow> ('c, 'r, 'k) ext \<Rightarrow> string \<Rightarrow> string \<Rightarrow> processor_config \<Rightarrow> ('c, 'r, 'k) world \<Rightarrow>
   outcome \<times> ('c, 'r, 'k) world"
where
  "processor_run n X env_level env_format cfg w = (case run_checks cfg of
      Some out \<Rightarrow> (out, w)
    | None \<Rightarrow>
        (let log = impl_logger (logger_NewFromEnv env_level env_format) in
         case retry n log (30 * ns_second) ''Scylla'' (Some log) (connect_scylla X (scylla_config cfg)) w of
           None \<Rightarrow> (Running, w)
         | Some (Some e, w1) \<Rightarrow> (Returned (Some e), w1)
         | Some (None, w1) \<Rightarrow>
             (case retry n log (30 * ns_second) ''Kafka'' (Some log)
                 (kafka_NewClient X (KafkaBrokers cfg) ''omni-joiner-processor'' (InputTopic cfg)) w1 of
                None \<Rightarrow> (Running, w1)
              | Some (Some e, w2) \<Rightarrow>
                  (Returned (Some (ErrWrap ''connect to Kafka at %v: %w (is Redpanda running? try: docker compose up -d)''
                     [FStrs (KafkaBrokers cfg)] e)), Store_Close X (the_store cfg) w2)
              | Some (None, w2) \<Rightarrow>
                  (let w3 = lgInfo log ''processor starting''
                         [KStr ''input'', KStr (InputTopic cfg), KStr ''egress'', KStr (EgressTopic cfg),
                          KStr ''group'', KStr ''omni-joiner-processor''] w2
                   in case consumer_Run n X (processor_resolver X cfg log) log w3 of
                        None \<Rightarrow> (Running, w3)
                      | Some (e, w4) \<Rightarrow> (Returned (Some e), close_all X cfg w4)))))"

text \<open>
  \<open>main\<close> with the path of the flag: a failure to load ends the process, and so does an error of \<open>run\<close>
  unless the context has been cancelled by a signal.
\<close>

definition processor_main ::
  "nat \<Rightarrow> ('c, 'r, 'k) ext \<Rightarrow> string \<Rightarrow> string \<Rightarrow> string \<Rightarrow> ('c, 'r, 'k) world \<Rightarrow> outcome \<times> ('c, 'r, 'k) world"
where
  "processor_main n X env_level env_format cfgPath w = (case loadProcessorConfig X cfgPath of
      Inl err \<Rightarrow> (Fatal (ErrWrap ''load config: %v'' [] err), w)
    | Inr cfg \<Rightarrow> (case processor_run n X env_level env_format cfg w of
        (Returned (Some err), w1) \<Rightarrow> (case ctx_Err w1 of
            (None, w2) \<Rightarrow> (Fatal (ErrWrap ''run: %v'' [] err), w2)
          | (Some _, w2) \<Rightarrow> (Returned None, w2))
      | (out, w1) \<Rightarrow> (out, w1)))"

section \<open>The retries end\<close>

lemma next_backoff_power: "(next_backoff ^^ n) (2 * ns_second) = min (2 * (int n + 1)) 10 * ns_second"
  by (induction n) (auto simp: next_backoff_def ns_second_def min_def)

text \<open>
  With a clock that passes the deadline from some reading on, the loop returns: every turn reads the
  clock, so as many turns as there are readings before that one are enough.
\<close>

lemma retry_loop_returns:
  assumes "logger_laws log"
    and fn: "\<And>v oe v'. fn v = (oe, v') \<Longrightarrow> wClock v' = wClock v \<and> wTick v \<le> wTick v'"
    and "\<And>t. late \<le> t \<Longrightarrow> deadline < wClock w t" and "late \<le> wTick w + n"
  shows "\<exists>r. retry_loop (Suc n) name log fn deadline backoff w = Some r"
  using assms(3,4)
proof (induction n arbitrary: backoff w)
  case 0
  obtain oe w1 where f: "fn w = (oe, w1)" by fastforce
  from fn [OF f] 0 have "deadline < wClock w1 (Suc (wTick w1))" by simp
  then show ?case using f by (auto simp: ctx_Err_def time_Now_def Let_def split: option.split prod.split)
next
  case (Suc n)
  obtain oe w1 where f: "fn w = (oe, w1)" by fastforce
  define w3 where "w3 = w1\<lparr>wTick := Suc (Suc (wTick w1))\<rparr>"
  have e: "retry_loop (Suc (Suc n)) name log fn deadline backoff w =
      (case oe of None \<Rightarrow> Some (None, w1)
       | Some err \<Rightarrow> if wCancel w1 (wTick w1) then Some (Some ctx_Canceled, w1\<lparr>wTick := Suc (wTick w1)\<rparr>)
           else if deadline < wClock w1 (Suc (wTick w1)) then Some (Some err, w3)
           else (let w4 = lgWarn log ''dependency not ready, retrying''
                     [KStr ''name'', KStr name, KStr ''error'', KErr err, KStr ''backoff'', KDuration backoff] w3
             in if wCancel w4 (wTick w4) then Some (Some ctx_Canceled, w4\<lparr>wTick := Suc (wTick w4)\<rparr>)
                else retry_loop (Suc n) name log fn deadline (next_backoff backoff) (w4\<lparr>wTick := Suc (wTick w4)\<rparr>)))"
    unfolding retry_loop.simps(2) [of "Suc n"] f
    by (simp add: ctx_Err_def time_Now_def Let_def w3_def del: retry_loop.simps split: option.split)
  show ?case
  proof (cases oe)
    case None
    then show ?thesis unfolding e by simp
  next
    case (Some err)
    define w4 where "w4 = lgWarn log ''dependency not ready, retrying''
       [KStr ''name'', KStr name, KStr ''error'', KErr err, KStr ''backoff'', KDuration backoff] w3"
    note lg = log_onlyD [OF logger_laws.warn_only [OF assms(1)]]
    have c: "wClock w4 = wClock w" and t: "wTick w \<le> wTick w4"
      using fn [OF f] lg(8) [of w3 "''dependency not ready, retrying''"
        "[KStr ''name'', KStr name, KStr ''error'', KErr err, KStr ''backoff'', KDuration backoff]"]
      by (simp_all add: w4_def lg w3_def)
    have "\<exists>r. retry_loop (Suc n) name log fn deadline (next_backoff backoff) (w4\<lparr>wTick := Suc (wTick w4)\<rparr>) = Some r"
      by (rule Suc.IH) (use Suc.prems c t in simp_all)
    then show ?thesis unfolding e Some by (simp add: Let_def w4_def [symmetric] del: retry_loop.simps)
  qed
qed

text \<open>Success is what the last call of \<open>fn\<close> returned.\<close>

lemma retry_loop_success:
  "retry_loop n name log fn deadline backoff w = Some (None, w') \<Longrightarrow> \<exists>v. fn v = (None, w')"
  by (induction n arbitrary: backoff w)
    (auto simp: ctx_Err_def time_Now_def Let_def split: prod.splits option.splits if_splits)


text \<open>The two calls that are retried touch their service only.\<close>

lemma or_fail_same:
  assumes "\<And>v oe v'. f v = (oe, v') \<Longrightarrow> wClock v' = wClock v \<and> wTick v' = wTick v"
    and "\<And>v oe v'. g v = (oe, v') \<Longrightarrow> wClock v' = wClock v \<and> wTick v' = wTick v"
    and "or_fail what f g w = (oe, w')"
  shows "wClock w' = wClock w \<and> wTick w' = wTick w"
  using assms(3) by (auto simp: or_fail_def split: prod.splits option.splits dest!: assms(1,2))

lemma on_cql_same: "on_cql f w = (r, w') \<Longrightarrow> wClock w' = wClock w \<and> wTick w' = wTick w"
  by (auto simp: on_cql_def split: prod.splits)

lemma with_session_same:
  assumes "\<And>v oe v'. body v = (oe, v') \<Longrightarrow> wClock v' = wClock v \<and> wTick v' = wTick v"
    and "with_session X what cfg ks body w = (oe, w')"
  shows "wClock w' = wClock w \<and> wTick w' = wTick w"
  using assms(2) unfolding with_session_def
  by (rule or_fail_same [rotated 2]) (auto simp: on_cql_def Let_def split: prod.splits dest: assms(1))

lemma EnsureKeyspaceAndTable_same:
  assumes "EnsureKeyspaceAndTable X cfg w = (oe, w')"
  shows "wClock w' = wClock w \<and> wTick w' = wTick w"
  using assms unfolding EnsureKeyspaceAndTable_def Let_def
  by (elim with_session_same [rotated] or_fail_same [rotated 2]) (auto dest: on_cql_same)

lemma connect_scylla_same: "connect_scylla X c w = (oe, w') \<Longrightarrow> wClock w' = wClock w \<and> wTick w' = wTick w"
  by (auto simp: connect_scylla_def Store_New_def Let_def split: prod.splits option.splits sum.splits
      dest!: EnsureKeyspaceAndTable_same on_cql_same)

lemma kafka_NewClient_same:
  "kafka_NewClient X bs g t w = (oe, w') \<Longrightarrow> wClock w' = wClock w \<and> wTick w' = wTick w"
  by (auto simp: kafka_NewClient_def on_kafka_def Let_def split: prod.splits option.splits)

lemma retry_returns:
  assumes "\<And>v oe v'. fn v = (oe, v') \<Longrightarrow> wClock v' = wClock v \<and> wTick v' = wTick v"
    and "\<And>t. late \<le> t \<Longrightarrow> wClock w (wTick w) + maxDur < wClock w t" and "late \<le> Suc (wTick w) + n"
  shows "\<exists>r. retry (Suc n) global maxDur name (Some (impl_logger l)) fn w = Some r"
  unfolding retry_def Let_def time_Now_def prod.case option.case
  by (rule retry_loop_returns [where late = late, OF impl_logs.logger_laws_axioms])
    (use assms in \<open>auto simp del: retry_loop.simps\<close>)

end
