(* ===== verification/Deployment.thy ===== *)
theory Deployment
  imports Processor
begin

text \<open>
  The processor as it is deployed: the components that \<open>Processor.wire\<close> builds, on services that keep
  their promises.  \<open>handler_of\<close>, \<open>manager_of\<close> and \<open>queue_of\<close> are the handler, timeout manager and delay
  queue of a join configuration, in single-configuration mode or as one of several; \<open>view_of\<close> and
  \<open>timer_view_of\<close> are what an observer of the services sees of them.
\<close>

section \<open>Components of a configuration\<close>

datatype mode = Single | Multi nat

definition wiring_of ::
  "('c, 'r, 'k) ext \<Rightarrow> processor_config \<Rightarrow> impl \<Rightarrow> mode \<Rightarrow> join_config \<Rightarrow> ('c, 'r, 'k) world wiring"
where
  "wiring_of X cfg lg mode jc = (let log = impl_logger lg in case mode of
      Single \<Rightarrow> single_wiring X cfg log log (the_store cfg) jc
    | Multi i \<Rightarrow> multi_wiring X cfg log log (the_store cfg) i jc)"

definition handler_of ::
  "('c, 'r, 'k) ext \<Rightarrow> processor_config \<Rightarrow> impl \<Rightarrow> mode \<Rightarrow> join_config \<Rightarrow> ('c, 'r, 'k) world handler" where
  "handler_of X cfg lg mode jc = wgHandler (wiring_of X cfg lg mode jc)"

definition store_of ::
  "('c, 'r, 'k) ext \<Rightarrow> processor_config \<Rightarrow> mode \<Rightarrow> join_config \<Rightarrow> ('c, 'r, 'k) world state_store" where
  "store_of X cfg mode jc = (case mode of
      Single \<Rightarrow> store_iface X (the_store cfg)
    | Multi i \<Rightarrow> scoped_iface X (NewScopedStore (the_store cfg) (ConfigID jc)))"

definition groups_of ::
  "('c \<Rightarrow> cql_db) \<Rightarrow> processor_config \<Rightarrow> mode \<Rightarrow> join_config \<Rightarrow> 'c \<Rightarrow> bytes \<Rightarrow> group option" where
  "groups_of rows cfg mode jc = (case mode of
      Single \<Rightarrow> groups_v1 rows (the_store cfg)
    | Multi i \<Rightarrow> groups_v2 rows (NewScopedStore (the_store cfg) (ConfigID jc)))"

definition suffix_of :: "mode \<Rightarrow> join_config \<Rightarrow> string" where
  "suffix_of mode jc = (case mode of Single \<Rightarrow> '''' | Multi i \<Rightarrow> '':'' @ uuid_String (ConfigID jc))"

definition bloom_key :: "processor_config \<Rightarrow> mode \<Rightarrow> join_config \<Rightarrow> string" where
  "bloom_key cfg mode jc = RedisBloomKey cfg @ suffix_of mode jc"

definition timeouts_key :: "mode \<Rightarrow> join_config \<Rightarrow> string" where
  "timeouts_key mode jc = ''omni_joiner:timeouts'' @ suffix_of mode jc"

definition partial_key :: "mode \<Rightarrow> join_config \<Rightarrow> string" where
  "partial_key mode jc = ''omni_joiner:partial'' @ suffix_of mode jc"

definition delay_key :: "join_config \<Rightarrow> string" where
  "delay_key jc = ''omni_joiner:delay:'' @ cfgName jc"

definition manager_of ::
  "('c, 'r, 'k) ext \<Rightarrow> processor_config \<Rightarrow> impl \<Rightarrow> mode \<Rightarrow> join_config \<Rightarrow> ('c, 'r, 'k) world manager" where
  "manager_of X cfg lg mode jc = timeout_New (impl_logger lg)
     \<lparr>tcStore = store_of X cfg mode jc, tcJoinConfig = jc, tcProducer = Some (kafka_producer X),
      tcEgressTopic = EgressTopic cfg, tcSetKey = timeouts_key mode jc, tcPollInterval = 0, tcBatchSize = 0,
      tcPartialTracker = (if CorrectionsTopic cfg \<noteq> ''''
        then Some (tracker_iface X (NewRedisPartialTracker (partial_key mode jc))) else None),
      tcLog = Some (impl_logger lg)\<rparr>"

definition queue_of ::
  "('c, 'r, 'k) ext \<Rightarrow> processor_config \<Rightarrow> impl \<Rightarrow> mode \<Rightarrow> join_config \<Rightarrow> ('c, 'r, 'k) world queue" where
  "queue_of X cfg lg mode jc = NewQueue (case mode of Single \<Rightarrow> 0 | Multi i \<Rightarrow> i) (impl_logger lg)
     (Some (store_of X cfg mode jc)) (Some (kafka_producer X)) (EgressTopic cfg) (cfgName jc)
     (Some (impl_logger lg)) True (if RedisAddr cfg \<noteq> '''' then delay_key jc else '''')"

lemmas wiring_defs = wiring_of_def single_wiring_def multi_wiring_def wire_def store_of_def suffix_of_def
  bloom_key_def timeouts_key_def partial_key_def delay_key_def Let_def

lemma wiring_manager:
  "wgManager (wiring_of X cfg lg mode jc) = (if RedisAddr cfg \<noteq> '''' then Some (manager_of X cfg lg mode jc) else None)"
  by (cases mode) (simp_all add: wiring_defs manager_of_def)

lemma wiring_queue:
  "wgQueue (wiring_of X cfg lg mode jc) = (if 0 < PostJoinDelay jc then Some (queue_of X cfg lg mode jc) else None)"
  by (cases mode) (simp_all add: wiring_defs queue_of_def)

lemma handler_of_simps:
  "hStore (handler_of X cfg lg mode jc) = store_of X cfg mode jc"
  "hJoinCfg (handler_of X cfg lg mode jc) = jc"
  "hEngine (handler_of X cfg lg mode jc) = engine_New jc"
  "hProducer (handler_of X cfg lg mode jc) = Some (kafka_producer X)"
  "hEgressTopic (handler_of X cfg lg mode jc) = EgressTopic cfg"
  "hCorrectionsTopic (handler_of X cfg lg mode jc) = CorrectionsTopic cfg"
  "hLog (handler_of X cfg lg mode jc) = impl_logger lg"
  "hBloom (handler_of X cfg lg mode jc) = (if RedisAddr cfg \<noteq> ''''
     then Some (bloom_iface X (bloom_New (bloom_key cfg mode jc))) else None)"
  "hLateTracker (handler_of X cfg lg mode jc) = (if RedisAddr cfg \<noteq> '''' \<and> CorrectionsTopic cfg \<noteq> ''''
     then Some (tracker_iface X (NewRedisPartialTracker (partial_key mode jc))) else None)"
  "hTimeoutSched (handler_of X cfg lg mode jc) = (if RedisAddr cfg \<noteq> ''''
     then Some (manager_iface X (manager_of X cfg lg mode jc)) else None)"
  "hDelayQueue (handler_of X cfg lg mode jc) = (if 0 < PostJoinDelay jc
     then Some (delay_iface X (queue_of X cfg lg mode jc)) else None)"
  by (cases mode; simp add: handler_of_def wiring_defs NewHandler_def manager_of_def queue_of_def)+

section \<open>Redis keys\<close>

text \<open>The Bloom filter must not share its key; the other keys differ by their names.\<close>

definition keys_apart :: "processor_config \<Rightarrow> mode \<Rightarrow> join_config \<Rightarrow> bool" where
  "keys_apart cfg mode jc \<longleftrightarrow> bloom_key cfg mode jc \<notin> {timeouts_key mode jc, partial_key mode jc, delay_key jc}"

lemma keys_distinct:
  "timeouts_key mode jc \<noteq> partial_key mode jc" "timeouts_key mode jc \<noteq> delay_key jc"
  "partial_key mode jc \<noteq> delay_key jc" "partial_key mode jc \<noteq> []" "delay_key jc \<noteq> []"
  "timeouts_key mode jc \<noteq> []"
  by (simp_all add: timeouts_key_def partial_key_def delay_key_def)

lemma manager_of_simps:
  "tmStore (manager_of X cfg lg mode jc) = store_of X cfg mode jc"
  "tmJoinCfg (manager_of X cfg lg mode jc) = jc"
  "tmLog (manager_of X cfg lg mode jc) = impl_logger lg"
  "tmProducer (manager_of X cfg lg mode jc) = Some (kafka_producer X)"
  "tmEgressTopic (manager_of X cfg lg mode jc) = EgressTopic cfg"
  "tmSetKey (manager_of X cfg lg mode jc) = timeouts_key mode jc"
  "tmBatchSize (manager_of X cfg lg mode jc) = 100"
  "tmPartialTracker (manager_of X cfg lg mode jc) = (if CorrectionsTopic cfg \<noteq> ''''
      then Some (tracker_iface X (NewRedisPartialTracker (partial_key mode jc))) else None)"
  by (simp_all add: manager_of_def timeout_New_def keys_distinct timeout_defaultBatchSize_def)

lemma queue_of_simps:
  "dqStore (queue_of X cfg lg mode jc) = Some (store_of X cfg mode jc)"
  "dqProducer (queue_of X cfg lg mode jc) = Some (kafka_producer X)"
  "dqTopic (queue_of X cfg lg mode jc) = EgressTopic cfg"
  "dqLog (queue_of X cfg lg mode jc) = impl_logger lg"
  "dqRedis (queue_of X cfg lg mode jc)"
  "dqRedisKey (queue_of X cfg lg mode jc) = (if RedisAddr cfg \<noteq> '''' then delay_key jc else '''')"
  "dqConfigName (queue_of X cfg lg mode jc) = cfgName jc"
  by (simp_all add: queue_of_def NewQueue_def)

section \<open>What an observer sees\<close>

definition seen_of ::
  "('r \<Rightarrow> string \<Rightarrow> redis_value) \<Rightarrow> processor_config \<Rightarrow> mode \<Rightarrow> join_config \<Rightarrow> 'r \<Rightarrow> bytes set" where
  "seen_of db cfg mode jc = (if RedisAddr cfg \<noteq> '''' then bloom_seen db (bloom_New (bloom_key cfg mode jc))
     else (\<lambda>_. UNIV))"

definition tracked_of :: "('r \<Rightarrow> string \<Rightarrow> redis_value) \<Rightarrow> mode \<Rightarrow> join_config \<Rightarrow> 'r \<Rightarrow> bytes set" where
  "tracked_of db mode jc = tracked_keys db (NewRedisPartialTracker (partial_key mode jc))"

definition view_of ::
  "('c \<Rightarrow> cql_db) \<Rightarrow> ('r \<Rightarrow> string \<Rightarrow> redis_value) \<Rightarrow> ('k \<Rightarrow> sent_message list) \<Rightarrow> processor_config \<Rightarrow> mode \<Rightarrow>
   join_config \<Rightarrow> ('c, 'r, 'k) world \<Rightarrow> join_view"
where
  "view_of rows db sent cfg mode jc =
     join_abs (groups_of rows cfg mode jc) (seen_of db cfg mode jc) (tracked_of db mode jc) sent"

definition timer_view_of ::
  "('c \<Rightarrow> cql_db) \<Rightarrow> ('r \<Rightarrow> string \<Rightarrow> redis_value) \<Rightarrow> ('k \<Rightarrow> sent_message list) \<Rightarrow> processor_config \<Rightarrow> mode \<Rightarrow>
   join_config \<Rightarrow> ('c, 'r, 'k) world \<Rightarrow> timer_view"
where
  "timer_view_of rows db sent cfg mode jc =
     timer_abs (groups_of rows cfg mode jc) (tracked_of db mode jc)
       (\<lambda>r. r_zset (db r (timeouts_key mode jc))) sent"

section \<open>The deployment\<close>

locale deployment = scylla X rows + redis_server X db + kafka_group X sent commits
  for X :: "('c, 'r, 'k) ext" and rows :: "'c \<Rightarrow> cql_db" and db :: "'r \<Rightarrow> string \<Rightarrow> redis_value"
    and sent :: "'k \<Rightarrow> sent_message list" and commits :: "'k \<Rightarrow> kgo_record list"
begin

lemma store_of_laws: "state_store_laws (store_of X cfg mode jc) (groups_of rows cfg mode jc)"
  using store_keeps_contract scoped_keeps_contract
  by (cases mode) (simp_all add: store_of_def groups_of_def)

text \<open>The tag of \<open>produce_view\<close> is any view of the broker that producing does not change.\<close>

lemma producer_tagged:
  assumes "\<And>topic key v k oe k'. kgo_produce X topic key v k = (oe, k') \<Longrightarrow> tag k' = tag k"
  shows "producer_laws (kafka_producer X) (\<lambda>k. tag k @ sent k)"
proof (unfold_locales, goal_cases)
  case (1 topic key v w oe w')
  then show ?case by (rule client.produce_frame)
next
  case (2 topic key v w w')
  then obtain k' where "kgo_produce X topic key v (wKafka w) = (None, k')" "wKafka w' = k'"
    by (auto simp: kafka_producer_def kafka_ProduceSync_def on_kafka_def Let_def split: prod.splits option.splits)
  with assms produce_ok show ?case by simp
next
  case (3 topic key v w e w')
  then obtain e' k' where "kgo_produce X topic key v (wKafka w) = (Some e', k')" "wKafka w' = k'"
    by (auto simp: kafka_producer_def kafka_ProduceSync_def on_kafka_def Let_def split: prod.splits option.splits)
  with assms produce_err show ?case by fastforce
qed

lemma handler_meets:
  assumes "keys_apart cfg mode jc" and "producer_laws (kafka_producer X) snt"
  shows "handler_services (handler_of X cfg lg mode jc) (groups_of rows cfg mode jc) (kafka_producer X) snt
    (seen_of db cfg mode jc) (tracked_of db mode jc)"
proof -
  have [simp]: "bloom_key cfg mode jc \<noteq> timeouts_key mode jc" "bloom_key cfg mode jc \<noteq> partial_key mode jc"
    "bloom_key cfg mode jc \<noteq> delay_key jc" "timeouts_key mode jc \<noteq> bloom_key cfg mode jc"
    "partial_key mode jc \<noteq> bloom_key cfg mode jc" "delay_key jc \<noteq> bloom_key cfg mode jc"
    using assms(1) by (auto simp: keys_apart_def)
  note [simp] = keys_distinct keys_distinct [symmetric] handler_of_simps
  have tk: "ptKey (NewRedisPartialTracker (partial_key mode jc)) = partial_key mode jc"
    by (simp add: NewRedisPartialTracker_def)
  note mk = manager_of_simps(6)
  note dk = queue_of_simps(4,6)
  have seen: "seen_of db cfg mode jc r' = seen_of db cfg mode jc r"
    if "db r' (bloom_key cfg mode jc) = db r (bloom_key cfg mode jc)" for r r'
    using that by (simp add: seen_of_def bloom_seen_def bloom_New_def)
  have tracked: "tracked_of db mode jc r' = tracked_of db mode jc r"
    if "db r' (partial_key mode jc) = db r (partial_key mode jc)" for r r'
    using that by (simp add: tracked_of_def tracked_keys_def tk)
  show ?thesis
  proof (intro handler_services.intro handler_services_axioms.intro, goal_cases)
    case 1
    then show ?case by (simp add: store_of_laws)
  next
    case 2
    then show ?case by (simp add: impl_logs.logger_laws_axioms)
  next
    case 3
    then show ?case by (rule assms(2))
  next
    case (6 B)
    then have "RedisAddr cfg \<noteq> ''''" "B = bloom_iface X (bloom_New (bloom_key cfg mode jc))"
      by (simp_all split: if_splits)
    then show ?case using bloom_keeps_contract by (simp add: seen_of_def)
  next
    case (7 r)
    then show ?case by (simp add: seen_of_def split: if_splits)
  next
    case (8 T)
    then show ?case using tracker_keeps_contract by (auto simp: tracked_of_def split: if_splits)
  next
    case (9 M x d w oe w')
    then have "Manager_ScheduleTimeout X (manager_of X cfg lg mode jc) x d w = (oe, w')"
      by (auto simp: manager_iface_def split: if_splits)
    from ScheduleTimeout_effect [OF this] show ?case
      by (auto simp: mk intro!: seen tracked)
  next
    case (10 D)
    then show ?case using delay_keeps_contract [of "queue_of X cfg lg mode jc"]
      by (simp add: dk impl_logs.logger_laws_axioms split: if_splits)
  next
    case (11 D w' x j k d w)
    have q: "db (wRedis (Queue_Schedule X (queue_of X cfg lg mode jc) x j k d w)) key = db (wRedis w) key"
      if "key \<noteq> delay_key jc" for key
    proof (cases "RedisAddr cfg = ''''")
      case True
      then show ?thesis by (simp add: Queue_Schedule_def dk set_pending_def)
    next
      case False
      then show ?thesis using that
        by (intro Schedule_frame(5)) (simp_all add: dk impl_logs.logger_laws_axioms)
    qed
    have "w' = Queue_Schedule X (queue_of X cfg lg mode jc) x j k d w"
      using 11 by (auto simp: delay_iface_def split: if_splits)
    with q show ?case by (auto intro!: seen tracked)
  next
    case (12 B x w br w')
    then have "Filter_Exists X (bloom_New (bloom_key cfg mode jc)) x w = (br, w')"
      by (auto simp: bloom_iface_def split: if_splits)
    from Filter_Exists_same [OF this] show ?case by (auto intro!: tracked)
  next
    case (13 B x w oe w')
    then have "Filter_Add X (bloom_New (bloom_key cfg mode jc)) x w = (oe, w')"
      by (auto simp: bloom_iface_def split: if_splits)
    from Filter_Add_effect(2) [OF this] show ?case
      by (auto simp: bloom_New_def intro!: tracked)
  next
    case (14 T x w br w')
    then have "Tracker_Contains X (NewRedisPartialTracker (partial_key mode jc)) x w = (br, w')"
      by (auto simp: tracker_iface_def split: if_splits)
    from Tracker_Contains_same [OF this] show ?case by (auto intro!: seen)
  next
    case (15 T x w oe w')
    then have "Tracker_Remove X (NewRedisPartialTracker (partial_key mode jc)) x w = (oe, w')"
      by (auto simp: tracker_iface_def split: if_splits)
    from Tracker_Remove_effect(2) [OF this] show ?case by (auto simp: tk intro!: seen)
  qed simp_all
qed

text \<open>Each run of \<open>Handle\<close> is one step of the specification.\<close>

lemma Handle_view:
  assumes "keys_apart cfg mode jc" and "Handle X (handler_of X cfg lg mode jc) rec w = (oe, w')"
  shows "case event_of jc rec of
      None \<Rightarrow> oe \<noteq> None \<and> view_of rows db sent cfg mode jc w' = view_of rows db sent cfg mode jc w
    | Some e \<Rightarrow> handle_step jc (EgressTopic cfg) (CorrectionsTopic cfg) e
        (view_of rows db sent cfg mode jc w) oe (view_of rows db sent cfg mode jc w')"
proof -
  have "producer_laws (kafka_producer X) sent" by (rule client.producer_laws_axioms)
  from handler_services.Handle_sim [OF handler_meets [OF assms(1) this] assms(2)]
  show ?thesis unfolding handler_of_simps view_of_def .
qed

text \<open>A handler leaves the committed offsets alone: they make a view that only grows at the other end.\<close>

lemma Handle_commits:
  assumes "keys_apart cfg mode jc" and "Handle X (handler_of X cfg lg mode jc) rec w = (oe, w')"
  shows "commits (wKafka w') = commits (wKafka w)"
proof -
  define mark :: "bool \<Rightarrow> sent_message list" where "mark b = [(if b then ''same'' else ''other'', None, [])]" for b
  define tag where "tag k = mark (commits k = commits (wKafka w))" for k
  have "producer_laws (kafka_producer X) (\<lambda>k. tag k @ sent k)"
    by (rule producer_tagged) (simp add: tag_def produce_commits)
  from handler_services.Handle_sim [OF handler_meets [OF assms(1) this] assms(2)]
  have "\<exists>ms. tag (wKafka w') @ sent (wKafka w') = (tag (wKafka w) @ sent (wKafka w)) @ ms"
    by (auto simp: join_abs_def split: option.splits dest!: handle_step_sent_prefix)
  then show ?thesis by (auto simp: tag_def mark_def split: if_splits)
qed

lemma manager_meets:
  assumes "keys_apart cfg mode jc"
  shows "manager_services (manager_of X cfg lg mode jc) (groups_of rows cfg mode jc) (kafka_producer X) sent X db
    (tracked_of db mode jc)"
proof -
  note [simp] = keys_distinct keys_distinct [symmetric]
  have tk: "ptKey (NewRedisPartialTracker (partial_key mode jc)) = partial_key mode jc"
    by (simp add: NewRedisPartialTracker_def)
  note [simp] = manager_of_simps
  show ?thesis
  proof (intro manager_services.intro manager_services_axioms.intro, goal_cases)
    case 1
    then show ?case by (simp add: store_of_laws)
  next
    case 2
    then show ?case by (simp add: impl_logs.logger_laws_axioms)
  next
    case 3
    then show ?case by (rule client.producer_laws_axioms)
  next
    case 4
    then show ?case by (rule redis_server_axioms)
  next
    case (6 T)
    then show ?case using tracker_keeps_contract by (auto simp: tracked_of_def split: if_splits)
  next
    case (7 T x w oe w')
    then have "Tracker_Add X (NewRedisPartialTracker (partial_key mode jc)) x w = (oe, w')"
      by (auto simp: tracker_iface_def split: if_splits)
    from Tracker_Add_effect(2) [OF this] show ?case by (auto simp: tk)
  next
    case (8 r' r)
    then have "db r' (partial_key mode jc) = db r (partial_key mode jc)" by simp
    then show ?case by (simp add: tracked_of_def tracked_keys_def tk)
  qed simp_all
qed

lemma process_member_view:
  assumes "keys_apart cfg mode jc"
  shows "timeout_step jc (EgressTopic cfg) member (timer_view_of rows db sent cfg mode jc w)
    (timer_view_of rows db sent cfg mode jc (process_member X (manager_of X cfg lg mode jc) member w))"
  using manager_services.process_member_sim [OF manager_meets [OF assms], of lg member w]
  by (simp add: manager_of_simps timer_view_of_def)

text \<open>A pass of the timeout manager, and the members that a pass selects.\<close>

lemma processDue_view:
  assumes "keys_apart cfg mode jc" and "Manager_processDue X (manager_of X cfg lg mode jc) w = (oe, w')"
  obtains ms where "timeout_steps jc (EgressTopic cfg) ms (timer_view_of rows db sent cfg mode jc w)
    (timer_view_of rows db sent cfg mode jc w')"
  using manager_services.processDue_steps [OF manager_meets [OF assms(1)] assms(2)] that
  by (auto simp: manager_of_simps timer_view_of_def)

lemma processDue_members:
  assumes "keys_apart cfg mode jc" and "Manager_processDue X (manager_of X cfg lg mode jc) w = (None, w')"
  obtains ms r where
      "w' = fold (process_member X (manager_of X cfg lg mode jc)) ms (w\<lparr>wTick := Suc (wTick w), wRedis := r\<rparr>)"
    and "db r = db (wRedis w)"
    and "timeout_steps jc (EgressTopic cfg) ms (timer_view_of rows db sent cfg mode jc w)
      (timer_view_of rows db sent cfg mode jc w')"
    and "distinct ms" and "length ms \<le> 100"
    and "\<forall>k\<in>set ms. \<exists>s. tvDeadlines (timer_view_of rows db sent cfg mode jc w) k = Some s
      \<and> score_le s (time_Unix (wClock w (wTick w)))"
    and "length ms < 100 \<Longrightarrow> \<forall>k s. tvDeadlines (timer_view_of rows db sent cfg mode jc w) k = Some s
      \<and> score_le s (time_Unix (wClock w (wTick w))) \<longrightarrow> k \<in> set ms"
proof (rule manager_services.processDue_members [OF manager_meets [OF assms(1)] assms(2)], goal_cases)
  case 1
  then show ?case by (simp add: manager_of_simps)
next
  case (2 ms r)
  have t: "timeout_steps jc (EgressTopic cfg) ms (timer_view_of rows db sent cfg mode jc w)
      (timer_view_of rows db sent cfg mode jc w')"
    using manager_services.process_members_sim [OF manager_meets [OF assms(1)], of lg ms
        "w\<lparr>wTick := Suc (wTick w), wRedis := r\<rparr>"] 2(2,4)
    by (simp add: manager_of_simps timer_view_of_def)
  show ?case
    by (rule that [OF 2(2,3) t]) (use 2(5-8) in \<open>simp_all add: manager_of_simps timer_view_of_def\<close>)
qed

text \<open>However many passes there are, a complete group stays in the store and nothing is sent for it.\<close>

lemma passes_keep_complete:
  assumes "keys_apart cfg mode jc" and "jGroups (view_of rows db sent cfg mode jc w) x = Some g"
    and "group_complete jc g"
  shows "\<exists>ss. (\<forall>m\<in>set ss. fst (snd m) \<noteq> Some x)
    \<and> jGroups (view_of rows db sent cfg mode jc (manager_passes n X (manager_of X cfg lg mode jc) w)) x = Some g
    \<and> jSent (view_of rows db sent cfg mode jc (manager_passes n X (manager_of X cfg lg mode jc) w)) =
      jSent (view_of rows db sent cfg mode jc w) @ ss"
  using assms(2)
proof (induction n arbitrary: w)
  case 0
  then show ?case by (intro exI [of _ "[]"]) simp
next
  case (Suc n)
  let ?v = "snd (Manager_processDue X (manager_of X cfg lg mode jc) w)"
  have t: "jGroups (view_of rows db sent cfg mode jc u) = tvGroups (timer_view_of rows db sent cfg mode jc u)"
    "jSent (view_of rows db sent cfg mode jc u) = tvSent (timer_view_of rows db sent cfg mode jc u)" for u
    by (simp_all add: view_of_def join_abs_def timer_view_of_def timer_abs_def)
  obtain ms where "timeout_steps jc (EgressTopic cfg) ms (timer_view_of rows db sent cfg mode jc w)
      (timer_view_of rows db sent cfg mode jc ?v)"
    by (rule processDue_view [OF assms(1) surjective_pairing])
  from timeout_steps_complete [OF this _ assms(3), of x] Suc.prems
  obtain s1 where s1: "jGroups (view_of rows db sent cfg mode jc ?v) x = Some g"
    "jSent (view_of rows db sent cfg mode jc ?v) = jSent (view_of rows db sent cfg mode jc w) @ s1"
    "\<forall>m\<in>set s1. fst (snd m) \<noteq> Some x" by (auto simp: t)
  from Suc.IH [OF s1(1)] obtain s2 where "\<forall>m\<in>set s2. fst (snd m) \<noteq> Some x"
    "jGroups (view_of rows db sent cfg mode jc (manager_passes n X (manager_of X cfg lg mode jc) ?v)) x = Some g"
    "jSent (view_of rows db sent cfg mode jc (manager_passes n X (manager_of X cfg lg mode jc) ?v)) =
      jSent (view_of rows db sent cfg mode jc ?v) @ s2" by blast
  with s1 show ?case by (intro exI [of _ "s1 @ s2"]) auto
qed

lemma read_fault_forgets:
  assumes "keys_apart cfg mode jc" and "hex_DecodeString member = Inr x"
    and "ssGetState (store_of X cfg mode jc) x w = (Inl err, w1)"
    and "z_rem X (timeouts_key mode jc) member (wRedis w1) = (None, r')"
  shows "timer_view_of rows db sent cfg mode jc (process_member X (manager_of X cfg lg mode jc) member w) =
    (timer_view_of rows db sent cfg mode jc w)\<lparr>tvDeadlines :=
      (tvDeadlines (timer_view_of rows db sent cfg mode jc w))(member := None)\<rparr>"
  using manager_services.read_fault_forgets [OF manager_meets [OF assms(1)], of member x lg w err w1 r'] assms(2-4)
  by (simp add: manager_of_simps timer_view_of_def)

lemma queue_meets:
  "queue_services (queue_of X cfg lg mode jc) (store_of X cfg mode jc) (groups_of rows cfg mode jc)
    (kafka_producer X) sent"
  by (intro queue_services.intro queue_services_axioms.intro)
    (simp_all add: store_of_laws impl_logs.logger_laws_axioms
      client.producer_laws_axioms queue_of_simps)

end

end
