(* ===== verification/Reference_Services.thy ===== *)
theory Reference_Services
  imports Deployment
begin

text \<open>
  In-memory services that keep the promises of \<open>World\<close>, with scripts of faults and of fetches.  They
  interpret the locales of the services, so that what is proved under those contracts applies to
  something, and the concrete runs of the witnesses are made with them.
\<close>

section \<open>States\<close>

text \<open>A fault script says for each call in turn whether it fails; an empty script has no more faults.\<close>

record ref_cql =
  rcRows :: "((table \<times> cql_value list) \<times> (string \<times> cell) list) list"
  rcFaults :: "bool list"

datatype rval = RvBloom "string list" | RvSet "string list" | RvZ "(string \<times> f64) list"

record ref_redis =
  rrVals :: "(string \<times> rval) list"
  rrFaults :: "bool list"

record ref_kafka =
  rkSent :: "sent_message list"
  rkCommits :: "kgo_record list"
  rkPolls :: "fetches list"
  rkFaults :: "bool list"

type_synonym ref_world = "(ref_cql, ref_redis, ref_kafka) world"

definition ref_error :: go_error where
  "ref_error = ErrSentinel ''unavailable''"

text \<open>\<open>faulty faults f g\<close>: the call fails without effect when the script says so.\<close>

definition ref_fault :: "bool list \<Rightarrow> bool" where
  "ref_fault fs = (case fs of [] \<Rightarrow> False | b # _ \<Rightarrow> b)"

section \<open>ScyllaDB\<close>

definition cell_blobs :: "cell option \<Rightarrow> bytes gomap" where
  "cell_blobs c = (case c of Some (CBlobMap m) \<Rightarrow> m | _ \<Rightarrow> [])"

definition cell_times :: "cell option \<Rightarrow> time gomap" where
  "cell_times c = (case c of Some (CTimeMap m) \<Rightarrow> m | _ \<Rightarrow> [])"

fun ref_assign :: "cql_assign \<Rightarrow> (string \<times> cell) list \<Rightarrow> (string \<times> cell) list" where
  "ref_assign (SetCol c v) r = AList.update c (CVal v) r"
| "ref_assign (SetBlobAt c k v) r = AList.update c (CBlobMap (AList.update k v (cell_blobs (map_of r c)))) r"
| "ref_assign (SetTimeAt c k t) r =
     AList.update c (CTimeMap (AList.update k (cql_millis t) (cell_times (map_of r c)))) r"

definition ref_effect ::
  "cql \<Rightarrow> ((table \<times> cql_value list) \<times> (string \<times> cell) list) list \<Rightarrow>
   ((table \<times> cql_value list) \<times> (string \<times> cell) list) list" where
  "ref_effect q rs = (case q of
      CqlUpdate t sets wh \<Rightarrow>
        AList.update (t, map snd wh)
          (fold ref_assign sets (case map_of rs (t, map snd wh) of Some r \<Rightarrow> r | None \<Rightarrow> [])) rs
    | CqlDelete t wh \<Rightarrow> AList.delete (t, map snd wh) rs
    | CqlSelect cols t wh \<Rightarrow> rs)"

definition ref_exec :: "cql \<Rightarrow> ref_cql \<Rightarrow> go_error option \<times> ref_cql" where
  "ref_exec q c = (if ref_fault (rcFaults c) then (Some ref_error, c\<lparr>rcFaults := tl (rcFaults c)\<rparr>)
     else (None, c\<lparr>rcRows := ref_effect q (rcRows c), rcFaults := tl (rcFaults c)\<rparr>))"

definition clean_cell :: "cell option \<Rightarrow> cell" where
  "clean_cell c = (case c of None \<Rightarrow> CNull
     | Some (CBlobMap m) \<Rightarrow> CBlobMap (AList.clearjunk m)
     | Some (CTimeMap m) \<Rightarrow> CTimeMap (AList.clearjunk m)
     | Some x \<Rightarrow> x)"

definition ref_scan :: "cql \<Rightarrow> ref_cql \<Rightarrow> cell list result \<times> ref_cql" where
  "ref_scan q c = (if ref_fault (rcFaults c) then (Inl ref_error, c\<lparr>rcFaults := tl (rcFaults c)\<rparr>)
     else (case q of
         CqlSelect cols t wh \<Rightarrow> (case map_of (rcRows c) (t, map snd wh) of
             None \<Rightarrow> Inl gocql_ErrNotFound
           | Some r \<Rightarrow> Inr (map (\<lambda>col. case map_of wh col of Some v \<Rightarrow> CVal v
                 | None \<Rightarrow> clean_cell (map_of r col)) cols))
       | _ \<Rightarrow> Inl (ErrFmt ''not a query'' []), c\<lparr>rcFaults := tl (rcFaults c)\<rparr>))"

section \<open>Redis\<close>

definition rv_bloom :: "rval option \<Rightarrow> string list" where
  "rv_bloom v = (case v of Some (RvBloom xs) \<Rightarrow> xs | _ \<Rightarrow> [])"

definition rv_set :: "rval option \<Rightarrow> string list" where
  "rv_set v = (case v of Some (RvSet xs) \<Rightarrow> xs | _ \<Rightarrow> [])"

definition rv_z :: "rval option \<Rightarrow> (string \<times> f64) list" where
  "rv_z v = (case v of Some (RvZ xs) \<Rightarrow> xs | _ \<Rightarrow> [])"

definition ref_put :: "string \<Rightarrow> (rval option \<Rightarrow> rval) \<Rightarrow> ref_redis \<Rightarrow> go_error option \<times> ref_redis" where
  "ref_put key f r = (if ref_fault (rrFaults r) then (Some ref_error, r\<lparr>rrFaults := tl (rrFaults r)\<rparr>)
     else (None, r\<lparr>rrVals := AList.update key (f (map_of (rrVals r) key)) (rrVals r),
                   rrFaults := tl (rrFaults r)\<rparr>))"

definition ref_ask :: "string \<Rightarrow> (rval option \<Rightarrow> 'a) \<Rightarrow> ref_redis \<Rightarrow> 'a result \<times> ref_redis" where
  "ref_ask key f r = (if ref_fault (rrFaults r) then (Inl ref_error, r\<lparr>rrFaults := tl (rrFaults r)\<rparr>)
     else (Inr (f (map_of (rrVals r) key)), r\<lparr>rrFaults := tl (rrFaults r)\<rparr>))"

text \<open>The integer a decimal text denotes.\<close>

definition int_of_text :: "string \<Rightarrow> int" where
  "int_of_text s = (case s of [] \<Rightarrow> 0
     | c # cs \<Rightarrow> if c = CHR ''-'' then - int (digits_value cs) else int (digits_value s))"

definition ref_range :: "int \<Rightarrow> int \<Rightarrow> (string \<times> f64) list \<Rightarrow> string list" where
  "ref_range hi n z = take (nat n) (map fst (filter (\<lambda>(m, s). score_le s hi) (AList.clearjunk z)))"

section \<open>Kafka\<close>

definition ref_produce :: "string \<Rightarrow> bytes option \<Rightarrow> bytes \<Rightarrow> ref_kafka \<Rightarrow> go_error option \<times> ref_kafka" where
  "ref_produce topic key v k =
     (if ref_fault (rkFaults k) then (Some ref_error, k\<lparr>rkFaults := tl (rkFaults k)\<rparr>)
      else (None, k\<lparr>rkSent := rkSent k @ [(topic, key, v)], rkFaults := tl (rkFaults k)\<rparr>))"

definition ref_commit :: "kgo_record \<Rightarrow> ref_kafka \<Rightarrow> go_error option \<times> ref_kafka" where
  "ref_commit rec k =
     (if ref_fault (rkFaults k) then (Some ref_error, k\<lparr>rkFaults := tl (rkFaults k)\<rparr>)
      else (None, k\<lparr>rkCommits := rkCommits k @ [rec], rkFaults := tl (rkFaults k)\<rparr>))"

definition ref_poll :: "ref_kafka \<Rightarrow> fetches \<times> ref_kafka" where
  "ref_poll k = (case rkPolls k of
      [] \<Rightarrow> (\<lparr>fErrors = [], fPartitions = []\<rparr>, k)
    | f # fs \<Rightarrow> (f, k\<lparr>rkPolls := fs\<rparr>))"

section \<open>All of them\<close>

definition ref_ext :: "(ref_cql, ref_redis, ref_kafka) ext" where
  "ref_ext = \<lparr>cql_exec = ref_exec, cql_scan = ref_scan,
     bf_exists = (\<lambda>key item. ref_ask key (\<lambda>v. item \<in> set (rv_bloom v))),
     bf_add = (\<lambda>key item. ref_put key (\<lambda>v. RvBloom (item # rv_bloom v))),
     bf_reserve = (\<lambda>key rate cap. ref_put key (\<lambda>v. RvBloom (rv_bloom v))),
     set_add = (\<lambda>key m. ref_put key (\<lambda>v. RvSet (m # rv_set v))),
     set_rem = (\<lambda>key m. ref_put key (\<lambda>v. RvSet (filter (\<lambda>x. x \<noteq> m) (rv_set v)))),
     set_ismember = (\<lambda>key m. ref_ask key (\<lambda>v. m \<in> set (rv_set v))),
     z_add = (\<lambda>key s m. ref_put key (\<lambda>v. RvZ (AList.update m s (rv_z v)))),
     z_rem = (\<lambda>key m. ref_put key (\<lambda>v. RvZ (AList.delete m (rv_z v)))),
     z_range_by_score = (\<lambda>key lo up n. ref_ask key (\<lambda>v. ref_range (int_of_text up) n (rv_z v))),
     kgo_produce = ref_produce, kgo_commit = ref_commit, kgo_poll = ref_poll,
     kgo_allow_rebalance = (\<lambda>k. k),
     uuid_Parse = (\<lambda>s. if length s = 16 then Inr s else Inl ref_error),
     uuid_FromBytes = (\<lambda>b. if length b = 16 then Inr b else Inl ref_error),
     cql_create_session = (\<lambda>cl c. (None, c)), cql_exec_text = (\<lambda>ks s c. (None, c)),
     cql_close = (\<lambda>ks c. c), cql_ping = (\<lambda>c. (None, c)), redis_ping = (\<lambda>r. (None, r)), kgo_ping = (\<lambda>k. (None, k)),
     kgo_new_client = (\<lambda>opts k. (None, k)), kgo_close = (\<lambda>k. k), redis_close = (\<lambda>r. r),
     os_ReadFile = (\<lambda>p. Inl ref_error), tz_offset = (\<lambda>t. 0)\<rparr>"

definition ref_world :: "ref_cql \<Rightarrow> ref_redis \<Rightarrow> ref_kafka \<Rightarrow> ref_world" where
  "ref_world c r k = \<lparr>wCql = c, wRedis = r, wKafka = k, wClock = (\<lambda>_. 0), wCancel = (\<lambda>_. False), wTick = 0,
     wPending = (\<lambda>_. []), wMetrics = [], wLog = []\<rparr>"

definition ref_empty :: ref_world where
  "ref_empty = ref_world \<lparr>rcRows = [], rcFaults = []\<rparr> \<lparr>rrVals = [], rrFaults = []\<rparr>
     \<lparr>rkSent = [], rkCommits = [], rkPolls = [], rkFaults = []\<rparr>"

section \<open>Views\<close>

definition vcell_of :: "cell option \<Rightarrow> vcell" where
  "vcell_of c = (case c of None \<Rightarrow> VNull | Some CNull \<Rightarrow> VNull | Some (CVal v) \<Rightarrow> VVal v
     | Some (CBlobMap m) \<Rightarrow> VBlobs (map_of m) | Some (CTimeMap m) \<Rightarrow> VTimes (map_of m))"

definition row_view :: "(string \<times> cell) list \<Rightarrow> row" where
  "row_view r col = vcell_of (map_of r col)"

definition ref_rows :: "ref_cql \<Rightarrow> cql_db" where
  "ref_rows c t key = map_option row_view (map_of (rcRows c) (t, key))"

definition ref_db :: "ref_redis \<Rightarrow> string \<Rightarrow> redis_value" where
  "ref_db r key = (case map_of (rrVals r) key of None \<Rightarrow> RNone
     | Some (RvBloom xs) \<Rightarrow> RBloom (set xs) | Some (RvSet xs) \<Rightarrow> RSet (set xs) | Some (RvZ z) \<Rightarrow> RZSet (map_of z))"

section \<open>The contracts hold\<close>

lemma row_view_assign: "row_view (ref_assign a r) = assign_row a (row_view r)"
  by (cases a)
    (auto simp: row_view_def fun_eq_iff update_conv' vcell_of_def v_blobs_def v_times_def cell_blobs_def
      cell_times_def split: option.splits cell.splits)

lemma row_view_fold: "row_view (fold ref_assign as r) = fold assign_row as (row_view r)"
  by (induction as arbitrary: r) (simp_all add: row_view_assign)

lemma row_view_Nil: "row_view [] = (\<lambda>_. VNull)"
  by (simp add: row_view_def vcell_of_def fun_eq_iff)

lemma ref_effect_view:
  "ref_rows (c\<lparr>rcRows := ref_effect q (rcRows c), rcFaults := fs\<rparr>) = cql_effect q (ref_rows c)"
  by (cases q)
    (auto simp: ref_rows_def ref_effect_def cql_effect_def fun_eq_iff update_conv' delete_conv'
      row_view_fold row_view_Nil split: option.splits)

lemma clean_cell_shows: "cell_shows (clean_cell c) (vcell_of c)"
  by (auto simp: cell_shows_def clean_cell_def vcell_of_def gm_wf_def map_of_clearjunk
      distinct_clearjunk split: option.splits cell.splits)

interpretation ref_scylla: scylla ref_ext ref_rows
proof (unfold_locales, goal_cases)
  case (1 q c c')
  then show ?case by (auto simp: ref_ext_def ref_exec_def ref_effect_view split: if_splits)
next
  case (2 q c e c')
  then show ?case by (auto simp: ref_ext_def ref_exec_def ref_rows_def fun_eq_iff split: if_splits)
next
  case (3 q c res c')
  then show ?case by (auto simp: ref_ext_def ref_scan_def ref_rows_def fun_eq_iff split: if_splits)
next
  case (4 cols t wh c cells c')
  then obtain r where r: "map_of (rcRows c) (t, map snd wh) = Some r"
    and cells: "cells = map (\<lambda>col. case map_of wh col of Some v \<Rightarrow> CVal v | None \<Rightarrow> clean_cell (map_of r col)) cols"
    by (auto simp: ref_ext_def ref_scan_def split: if_splits option.splits)
  have "cell_shows (case map_of wh col of Some v \<Rightarrow> CVal v | None \<Rightarrow> clean_cell (map_of r col))
      (row_cell wh (row_view r) col)" for col
  proof (cases "map_of wh col")
    case None
    then show ?thesis by (simp add: row_cell_def row_view_def clean_cell_shows)
  next
    case (Some v)
    then show ?thesis by (simp add: row_cell_def cell_shows_def)
  qed
  then show ?case
    by (intro exI [of _ "row_view r"]) (simp add: ref_rows_def r cells list_all2_conv_all_nth)
next
  case (5 cols t wh c e c')
  then show ?case
    by (auto simp: ref_ext_def ref_scan_def ref_rows_def ref_error_def gocql_ErrNotFound_def
        split: if_splits option.splits)
qed

text \<open>Bounds written in decimal read back.\<close>

lemma int_of_text_string: "int_of_text (int_string i) = i"
proof (cases "i < 0")
  case True
  then show ?thesis by (simp add: int_of_text_def int_string_def digits_value_nat_string)
next
  case False
  then show ?thesis using nat_string_hd [of "nat i"]
    by (auto simp: int_of_text_def int_string_def digits_value_nat_string split: list.splits)
      (metis digits_value_nat_string int_nat_eq not_le)
qed

lemma ref_put_effect:
  assumes "ref_put key f r = (oe, r')"
  shows "ref_db r' = (if oe = None then (ref_db r)(key := (case f (map_of (rrVals r) key) of
      RvBloom xs \<Rightarrow> RBloom (set xs) | RvSet xs \<Rightarrow> RSet (set xs) | RvZ z \<Rightarrow> RZSet (map_of z))) else ref_db r)"
  using assms
  by (auto simp: ref_put_def ref_db_def fun_eq_iff update_conv' split: if_splits rval.splits)

lemma ref_ask_effect:
  assumes "ref_ask key f r = (res, r')"
  shows "ref_db r' = ref_db r" and "res = Inr x \<Longrightarrow> x = f (map_of (rrVals r) key)"
  using assms by (auto simp: ref_ask_def ref_db_def fun_eq_iff split: if_splits)

lemma ref_db_values:
  "r_bloom (ref_db r key) = set (rv_bloom (map_of (rrVals r) key))"
  "r_set (ref_db r key) = set (rv_set (map_of (rrVals r) key))"
  "r_zset (ref_db r key) = map_of (rv_z (map_of (rrVals r) key))"
  by (simp_all add: ref_db_def rv_bloom_def rv_set_def rv_z_def r_bloom_def r_set_def r_zset_def
      split: option.split rval.split)

lemma ref_range_members:
  fixes z :: "(string \<times> f64) list"
  shows "distinct (ref_range hi n z)" and "0 < n \<Longrightarrow> int (length (ref_range hi n z)) \<le> n"
    and "m \<in> set (ref_range hi n z) \<Longrightarrow> \<exists>s. map_of z m = Some s \<and> score_le s hi"
    and "int (length (ref_range hi n z)) < n \<Longrightarrow> map_of z m = Some s \<Longrightarrow> score_le s hi \<Longrightarrow>
      m \<in> set (ref_range hi n z)"
proof -
  let ?f = "filter (\<lambda>(m, s). score_le s hi) (AList.clearjunk z)"
  have d: "distinct (map fst (AList.clearjunk z))" by (rule distinct_clearjunk)
  then have df: "distinct (map fst ?f)" by (simp add: distinct_map_filter)
  then show "distinct (ref_range hi n z)" unfolding ref_range_def by (rule distinct_take)
  show "0 < n \<Longrightarrow> int (length (ref_range hi n z)) \<le> n" by (simp add: ref_range_def)
  have mem: "(m, s) \<in> set ?f \<longleftrightarrow> map_of z m = Some s \<and> score_le s hi" for m s
    using map_of_eq_Some_iff [OF d, of m s] by (auto simp: map_of_clearjunk)
  show "m \<in> set (ref_range hi n z) \<Longrightarrow> \<exists>s. map_of z m = Some s \<and> score_le s hi"
  proof -
    assume "m \<in> set (ref_range hi n z)"
    then have "m \<in> set (map fst ?f)" unfolding ref_range_def by (rule in_set_takeD)
    then obtain s where "(m, s) \<in> set ?f" by auto
    with mem show ?thesis by blast
  qed
  assume "int (length (ref_range hi n z)) < n"
  then have "ref_range hi n z = map fst ?f" by (simp add: ref_range_def)
  then show "map_of z m = Some s \<Longrightarrow> score_le s hi \<Longrightarrow> m \<in> set (ref_range hi n z)"
  proof -
    assume "map_of z m = Some s" "score_le s hi"
    then have "(m, s) \<in> set ?f" using mem by blast
    then show ?thesis unfolding \<open>ref_range hi n z = map fst ?f\<close> by force
  qed
qed

interpretation ref_server: redis_server ref_ext ref_db
proof (unfold_locales, goal_cases)
  case (1 key item r br r')
  then show ?case by (simp add: ref_ext_def ref_ask_effect(1))
next
  case (2 key item r b r')
  then show ?case using ref_ask_effect(2) [of key _ r "Inr b" r' b] by (auto simp: ref_ext_def ref_db_values)
next
  case (3 key item r r')
  then show ?case
    by (intro exI [of _ "insert item (r_bloom (ref_db r key))"])
      (simp add: ref_ext_def ref_db_values ref_put_effect)
next
  case (4 key item r e r')
  then show ?case by (auto simp: ref_ext_def dest!: ref_put_effect)
next
  case (5 key m r r')
  then show ?case by (auto simp: ref_ext_def ref_db_values dest!: ref_put_effect)
next
  case (6 key m r e r')
  then show ?case by (auto simp: ref_ext_def dest!: ref_put_effect)
next
  case (7 key m r r')
  then show ?case by (auto simp: ref_ext_def ref_db_values set_diff_eq dest!: ref_put_effect)
next
  case (8 key m r e r')
  then show ?case by (auto simp: ref_ext_def dest!: ref_put_effect)
next
  case (9 key m r br r')
  then show ?case by (simp add: ref_ext_def ref_ask_effect(1))
next
  case (10 key m r b r')
  then show ?case using ref_ask_effect(2) [of key _ r "Inr b" r' b] by (auto simp: ref_ext_def ref_db_values)
next
  case (11 key s m r r')
  then show ?case by (auto simp: ref_ext_def ref_db_values update_conv' dest!: ref_put_effect)
next
  case (12 key s m r e r')
  then show ?case by (auto simp: ref_ext_def dest!: ref_put_effect)
next
  case (13 key m r r')
  then show ?case by (auto simp: ref_ext_def ref_db_values delete_conv' dest!: ref_put_effect)
next
  case (14 key m r e r')
  then show ?case by (auto simp: ref_ext_def dest!: ref_put_effect)
next
  case (15 key lo up n r res r')
  then show ?case by (simp add: ref_ext_def ref_ask_effect(1))
next
  case (16 key hi n r ms r')
  have "ms = ref_range hi n (rv_z (map_of (rrVals r) key))"
    using ref_ask_effect(2) [of key _ r "Inr ms" r' ms] 16(1) by (simp add: ref_ext_def int_of_text_string)
  then show ?case using ref_range_members 16(2) by (auto simp: ref_db_values)
qed

interpretation ref_group: kafka_group ref_ext rkSent rkCommits
  by unfold_locales (auto simp: ref_ext_def ref_produce_def ref_commit_def split: if_splits)

interpretation ref_deployment: deployment ref_ext ref_rows ref_db rkSent rkCommits
  by unfold_locales

end
