(* ===== verification/Demo.thy ===== *)
theory Demo
  imports Reference_Services
begin

text \<open>
  Concrete runs on the reference services: a join of two streams \<open>a\<close> and \<open>b\<close> by the field \<open>k\<close>, with one
  event of each.  The witnesses of the properties are made of these runs.
\<close>

definition demo_jc :: join_config where
  "demo_jc = \<lparr>ConfigID = uuid_Nil, cfgName = ''demo'', StreamIDs = [''a'', ''b''],
     cfgKey = \<lparr>kdField = ''k'', kdFields = []\<rparr>, cfgTTL = 600 * ns_second,
     Projection = [\<lparr>pfOutput = ''x'', pfStream = ''a'', pfField = ''v''\<rparr>,
                   \<lparr>pfOutput = ''y'', pfStream = ''b'', pfField = ''v''\<rparr>],
     Egress = EgressInner, PostJoinDelay = 0\<rparr>"

definition demo_cfg :: processor_config where
  "demo_cfg = \<lparr>KafkaBrokers = [], InputTopic = ''in'', EgressTopic = ''out'', ConfigPath = [],
     JoinConfig = Some demo_jc, ConfigPaths = [], JoinConfigs = [], ScyllaHosts = [], ScyllaKeyspace = [],
     RedisAddr = ''redis'', RedisBloomKey = ''bloom'', CorrectionsTopic = []\<rparr>"

definition demo_log :: impl where
  "demo_log = logger_Global_default"

definition demo_payload :: "string \<Rightarrow> bytes" where
  "demo_payload v = ''{'' @ [dquote] @ ''k'' @ [dquote] @ '':'' @ [dquote] @ ''1'' @ [dquote] @ '','' @
     [dquote] @ ''v'' @ [dquote] @ '':'' @ [dquote] @ v @ [dquote] @ ''}''"

definition demo_message :: "string \<Rightarrow> string \<Rightarrow> message" where
  "demo_message s v = \<lparr>rcTopic = ''in'', rcKey = None, rcValue = Some (demo_payload v),
     rcHeaders = [(''x-stream-id'', s)]\<rparr>"

lemma demo_json:
  "json_Unmarshal_map (demo_payload ''p'') = Inr [(''k'', JStr ''1''), (''v'', JStr ''p'')]"
  "json_Unmarshal_map (demo_payload ''q'') = Inr [(''k'', JStr ''1''), (''v'', JStr ''q'')]"
  by code_simp+

definition demo_event :: "string \<Rightarrow> string \<Rightarrow> event" where
  "demo_event s v = \<lparr>evStream = s, evHash = HashRaw ''1'', evRaw = ''1'', evPayload = demo_payload v, evKey = None\<rparr>"

lemma demo_event_of:
  "event_of demo_jc (demo_message s ''p'') = Some (demo_event s ''p'')"
  "event_of demo_jc (demo_message s ''q'') = Some (demo_event s ''q'')"
  by (simp_all add: event_of_def demo_message_def getStreamID_def streamIDHeader_def extractKey_def
      demo_jc_def demo_json CompositeKey_def demo_event_def)

text \<open>The row after the first event, and the message after the second.\<close>

definition demo_row :: "(string \<times> cell) list" where
  "demo_row = [(''join_key_raw'', CVal (CText ''1'')), (''config_id'', CVal (CUuid uuid_Nil)),
     (''participant_data'', CBlobMap [(''a'', demo_payload ''p'')]),
     (''arrival_timestamps'', CTimeMap [(''a'', 0)])]"

definition demo_after_a :: ref_world where
  "demo_after_a = ref_empty\<lparr>
     wCql := \<lparr>rcRows = [(((''omni_joiner'', ''join_state''), [CBlob (HashRaw ''1'')]), demo_row)], rcFaults = []\<rparr>,
     wRedis := \<lparr>rrVals = [(''bloom'', RvBloom [hex_EncodeToString (HashRaw ''1'')]),
        (''omni_joiner:timeouts'', RvZ [(hex_EncodeToString (HashRaw ''1''), f64_int 600)])], rrFaults = []\<rparr>,
     wTick := 2,
     wMetrics := [Inc EventsProcessedTotal [''demo'', ''a'']]\<rparr>"

lemmas demo_defs = demo_jc_def demo_cfg_def demo_log_def ref_empty_def ref_world_def demo_message_def

lemmas run_defs = Handle_def getStreamID_def streamIDHeader_def extractKey_def Handle_bloom_def
  handler_of_simps Filter_Exists_def Filter_Add_def bloom_iface_def bloom_New_def bloom_key_def suffix_of_def
  on_redis_def on_cql_def on_kafka_def time_Now_def ref_ext_def ref_ask_def ref_put_def ref_exec_def ref_fault_def
  ref_effect_def rv_bloom_def store_of_def store_iface_def Store_UpsertParticipantOnly_def upsert_statement_def
  CompositeKey_def cell_blobs_def cell_times_def cql_millis_def manager_iface_def Manager_ScheduleTimeout_def
  rv_z_def manager_of_simps timeouts_key_def metric_def Let_def the_store_def store_defaults_def scylla_config_def
  ns_second_def time_Unix_def

lemma demo_run_a:
  "Handle ref_ext (handler_of ref_ext demo_cfg demo_log Single demo_jc) (demo_message ''a'' ''p'') ref_empty =
    (None, demo_after_a)"
  by (simp add: demo_defs demo_json run_defs demo_after_a_def demo_row_def)

definition demo_doc :: bytes where
  "demo_doc = ''{'' @ [dquote] @ ''x'' @ [dquote] @ '':'' @ [dquote] @ ''p'' @ [dquote] @ '','' @
     [dquote] @ ''y'' @ [dquote] @ '':'' @ [dquote] @ ''q'' @ [dquote] @ ''}''"

lemma demo_projection:
  "projection_Apply [(''a'', demo_payload ''p''), (''b'', demo_payload ''q'')] (Projection demo_jc) = Inr demo_doc"
  by code_simp

definition demo_after_b :: ref_world where
  "demo_after_b = demo_after_a\<lparr>
     wCql := \<lparr>rcRows = [], rcFaults = []\<rparr>,
     wKafka := \<lparr>rkSent = [(''out'', None, demo_doc)], rkCommits = [], rkPolls = [], rkFaults = []\<rparr>,
     wTick := 6,
     wMetrics := [Observe StateAgeSeconds [''demo''] 0, Observe JoinLatencySeconds [''demo''] 0,
       Inc JoinSuccessTotal [''demo''], Inc EventsProcessedTotal [''demo'', ''b''],
       Inc EventsProcessedTotal [''demo'', ''a'']]\<rparr>"

lemmas join_defs = Handle_join_def Handle_late_def Handle_publish_def Handler_publish_def Handler_publishTo_def
  Store_UpsertParticipant_def Store_GetState_def Store_DeleteState_def ref_scan_def state_columns_def
  clean_cell_def scan_blob_def scan_text_def scan_uuid_def scan_bool_def scan_blob_map_def scan_time_map_def
  Engine_Process_def Engine_IsComplete_def Engine_Project_def engine_New_def join_N_def len_opt_def
  kafka_producer_def kafka_ProduceSync_def ref_produce_def observe_state_age_def time_Sub_def

lemma demo_run_b:
  "Handle ref_ext (handler_of ref_ext demo_cfg demo_log Single demo_jc) (demo_message ''b'' ''q'') demo_after_a =
    (None, demo_after_b)"
proof -
  have p: "projection_Apply [(''a'', demo_payload ''p''), (''b'', demo_payload ''q'')]
      [\<lparr>pfOutput = ''x'', pfStream = ''a'', pfField = ''v''\<rparr>, \<lparr>pfOutput = ''y'', pfStream = ''b'', pfField = ''v''\<rparr>]
    = Inr demo_doc" using demo_projection by (simp add: demo_jc_def)
  have d: "demo_doc \<noteq> []" by (simp add: demo_doc_def)
  show ?thesis
    by (simp add: demo_defs demo_json run_defs join_defs demo_after_a_def demo_after_b_def demo_row_def p d uuid_Nil_def)
qed

section \<open>Views of the runs\<close>

abbreviation "demo_view \<equiv> view_of ref_rows ref_db rkSent demo_cfg Single demo_jc"

lemma demo_keys_apart: "keys_apart demo_cfg Single demo_jc"
  by (simp add: keys_apart_def bloom_key_def suffix_of_def timeouts_key_def partial_key_def delay_key_def demo_defs)

lemma demo_cfg_facts: "CorrectionsTopic demo_cfg = []" "PostJoinDelay demo_jc = 0" "join_N demo_jc = 2"
  "EgressTopic demo_cfg = ''out''" "RedisAddr demo_cfg \<noteq> []"
  by (simp_all add: demo_defs join_N_def)

lemma demo_groups:
  "groups_of ref_rows demo_cfg Single demo_jc c h = map_option row_group (map_option row_view
     (map_of (rcRows c) ((''omni_joiner'', ''join_state''), [CBlob h])))"
  by (simp add: groups_of_def groups_v1_def the_store_def store_defaults_def scylla_config_def demo_defs
      ref_rows_def Let_def)

lemma demo_seen:
  "seen_of ref_db demo_cfg Single demo_jc r =
    {h. hex_EncodeToString h \<in> set (rv_bloom (map_of (rrVals r) ''bloom''))}"
  by (simp add: seen_of_def demo_cfg_facts bloom_seen_def bloom_New_def bloom_key_def suffix_of_def ref_db_values)
    (simp add: demo_defs)

lemma demo_group_a: "row_group (row_view demo_row) =
    \<lparr>gRaw = ''1'', gData = [''a'' \<mapsto> demo_payload ''p''], gTimes = [''a'' \<mapsto> 0]\<rparr>"
  by (simp add: row_group_def row_view_def demo_row_def vcell_of_def)

lemma demo_view_empty: "jGroups (demo_view ref_empty) = Map.empty" "jSeen (demo_view ref_empty) = {}"
  "jSent (demo_view ref_empty) = []"
  by (simp_all add: view_of_def join_abs_def demo_groups fun_eq_iff demo_seen ref_empty_def ref_world_def rv_bloom_def)

lemma demo_view_a:
  "jGroups (demo_view demo_after_a) = [HashRaw ''1'' \<mapsto>
     \<lparr>gRaw = ''1'', gData = [''a'' \<mapsto> demo_payload ''p''], gTimes = [''a'' \<mapsto> 0]\<rparr>]"
  "jSeen (demo_view demo_after_a) = {HashRaw ''1''}" "jSent (demo_view demo_after_a) = []"
  by (auto simp: view_of_def join_abs_def demo_groups fun_eq_iff demo_seen demo_after_a_def ref_empty_def
      ref_world_def rv_bloom_def demo_group_a hex_inject)

lemma demo_view_b:
  "jGroups (demo_view demo_after_b) = Map.empty"
  "jSeen (demo_view demo_after_b) = {HashRaw ''1''}" "jSent (demo_view demo_after_b) = [(''out'', None, demo_doc)]"
  by (auto simp: view_of_def join_abs_def demo_groups fun_eq_iff demo_seen demo_after_a_def demo_after_b_def ref_empty_def
      ref_world_def rv_bloom_def hex_inject)

lemma demo_marked: "marked (demo_view ref_empty)" "marked (demo_view demo_after_a)"
  by (simp_all add: marked_def demo_view_empty demo_view_a)

end
