(* ===== verification/Invariants.thy ===== *)
theory Invariants
  imports Delay
begin

text \<open>
  Invariants of the services under the operations of the processor.  Each locale lists the calls that a
  component makes and asks that they keep a predicate \<open>I\<close> of the world; its lemma is that the component
  as a whole keeps it.  The ghost parameters say what the calls may be about: \<open>ev\<close> the events that are
  accepted, \<open>shown\<close> the states that a store can return, \<open>doc\<close> the documents that may be sent.
\<close>

section \<open>Predicates of the services\<close>

locale service_invariant =
  fixes I :: "('c, 'r, 'k) world \<Rightarrow> bool"
  assumes quiet: "I w \<Longrightarrow> wCql w' = wCql w \<Longrightarrow> wRedis w' = wRedis w \<Longrightarrow> wKafka w' = wKafka w \<Longrightarrow>
    wPending w' = wPending w \<Longrightarrow> I w'"
begin

lemma keeps_metric [simp]: "I w \<Longrightarrow> I (metric m w)"
  by (erule quiet) simp_all

lemma keeps_now: "I w \<Longrightarrow> time_Now w = (t, w') \<Longrightarrow> I w'"
  by (erule quiet) (auto simp: time_Now_def)

lemma keeps_log: "I w \<Longrightarrow> log_only w w' \<Longrightarrow> I w'"
  by (erule quiet) (simp_all add: log_onlyD)

end

section \<open>The handler\<close>

locale handler_keeps = service_invariant I + log: logger_laws "hLog h"
  for I :: "('c, 'r, 'k) world \<Rightarrow> bool" and h :: "('c, 'r, 'k) world handler" +
  fixes ev :: "bytes \<Rightarrow> string \<Rightarrow> string \<Rightarrow> bytes \<Rightarrow> bool"
    and shown :: "bytes \<Rightarrow> join_state \<Rightarrow> bool"
    and doc :: "bytes \<Rightarrow> bytes \<Rightarrow> bool"
  assumes engine: "hEngine h = engine_New (hJoinCfg h)"
    and only: "I w \<Longrightarrow> ev x raw s p \<Longrightarrow> ssUpsertParticipantOnly (hStore h) x raw cid s p w = (oe, w') \<Longrightarrow> I w'"
    and upsert: "I w \<Longrightarrow> ev x raw s p \<Longrightarrow> ssUpsertParticipant (hStore h) x raw cid s p w = (r, w') \<Longrightarrow> I w'"
    and upsert_shown: "I w \<Longrightarrow> ev x raw s p \<Longrightarrow>
      ssUpsertParticipant (hStore h) x raw cid s p w = (Inr (Some st), w') \<Longrightarrow> shown x st"
    and delete: "I w \<Longrightarrow> ssDeleteState (hStore h) x w = (oe, w') \<Longrightarrow> I w'"
    and project: "shown x st \<Longrightarrow> join_N (hJoinCfg h) \<le> int (length (ParticipantData st)) \<Longrightarrow>
      projection_Apply (ParticipantData st) (Projection (hJoinCfg h)) = Inr d \<Longrightarrow> doc x d"
    and bloom_exists: "hBloom h = Some B \<Longrightarrow> I w \<Longrightarrow> bcExists B x w = (br, w') \<Longrightarrow> I w'"
    and bloom_add: "hBloom h = Some B \<Longrightarrow> I w \<Longrightarrow> bcAdd B x w = (oe, w') \<Longrightarrow> I w'"
    and schedule: "hTimeoutSched h = Some M \<Longrightarrow> I w \<Longrightarrow> tsScheduleTimeout M x t w = (oe, w') \<Longrightarrow> I w'"
    and delay: "hDelayQueue h = Some D \<Longrightarrow> I w \<Longrightarrow> doc x d \<Longrightarrow> I (dpSchedule D x d k t w)"
    and contains: "hLateTracker h = Some T \<Longrightarrow> I w \<Longrightarrow> ltContains T x w = (br, w') \<Longrightarrow> I w'"
    and remove: "hLateTracker h = Some T \<Longrightarrow> I w \<Longrightarrow> ltRemove T x w = (oe, w') \<Longrightarrow> I w'"
    and egress: "hProducer h = Some P \<Longrightarrow> I w \<Longrightarrow> doc x d \<Longrightarrow>
      prProduceSync P (hEgressTopic h) k d w = (oe, w') \<Longrightarrow> I w'"
    and correction: "hProducer h = Some P \<Longrightarrow> I w \<Longrightarrow> hCorrectionsTopic h \<noteq> '''' \<Longrightarrow>
      prProduceSync P (hCorrectionsTopic h) k d w = (oe, w') \<Longrightarrow> I w'"
begin

lemma keeps_warn [simp]: "I w \<Longrightarrow> I (lgWarn (hLog h) msg kvs w)"
  by (erule keeps_log) (rule log.warn_only)

lemma keeps_age: "I w \<Longrightarrow> I (observe_state_age h st w)"
  by (erule quiet) (auto simp: observe_state_age_def time_Now_def Let_def split: option.splits prod.splits)

lemma keeps_publish: "I w \<Longrightarrow> doc x d \<Longrightarrow> Handler_publish h d k w = (oe, w') \<Longrightarrow> I w'"
  by (auto simp: Handler_publish_def Handler_publishTo_def split: option.splits intro: egress)

lemma keeps_correction:
  "I w \<Longrightarrow> hCorrectionsTopic h \<noteq> '''' \<Longrightarrow> Handler_publishTo h (hCorrectionsTopic h) d k w = (oe, w') \<Longrightarrow> I w'"
  by (auto simp: Handler_publishTo_def split: option.splits intro: correction)

lemma Handle_bloom_keeps:
  assumes "I w" and "ev x raw s p" and "Handle_bloom h s x raw p w = (fl, w')"
  shows "I w'"
proof (cases "hBloom h")
  case None
  with assms show ?thesis by (simp add: Handle_bloom_def)
next
  case (Some B)
  obtain br w1 where b: "bcExists B x w = (br, w1)" by fastforce
  have i1: "I w1" by (rule bloom_exists [OF Some assms(1) b])
  obtain o2 w2 where u: "ssUpsertParticipantOnly (hStore h) x raw (ConfigID (hJoinCfg h)) s p w1 = (o2, w2)"
    by fastforce
  have i2: "I w2" by (rule only [OF i1 assms(2) u])
  obtain o3 w3 where a: "bcAdd B x w2 = (o3, w3)" by fastforce
  have i3: "I w3" by (rule bloom_add [OF Some i2 a])
  have i5: "I (snd (tsScheduleTimeout M x t w4))" if "hTimeoutSched h = Some M" "time_Now w3 = (n, w4)" for M t n w4
    using schedule [OF that(1) keeps_now [OF i3 that(2)], of x t] by (metis prod.collapse)
  from assms(3) Some b u a i1 i2 i3 show ?thesis
    by (auto simp: Handle_bloom_def Let_def split: sum.splits bool.splits option.splits prod.splits
        if_splits dest: i5) (metis i5 snd_conv)
qed

lemma Handle_late_keeps:
  assumes "I w" and "Handle_late X h x st w = (fl, w')"
  shows "I w'"
proof (cases "\<exists>s T. st = Some s \<and> hLateTracker h = Some T
    \<and> int (length (ParticipantData s)) < join_N (hJoinCfg h) \<and> hCorrectionsTopic h \<noteq> ''''")
  case False
  with assms show ?thesis by (auto simp: Handle_late_def split: option.splits)
next
  case True
  then obtain s T where T: "st = Some s" "hLateTracker h = Some T"
    and c: "int (length (ParticipantData s)) < join_N (hJoinCfg h)" "hCorrectionsTopic h \<noteq> ''''" by blast
  obtain br w1 where b: "ltContains T x w = (br, w1)" by fastforce
  have i1: "I w1" by (rule contains [OF T(2) assms(1) b])
  obtain n w2 where n: "time_Now w1 = (n, w2)" by fastforce
  have i2: "I w2" by (rule keeps_now [OF i1 n])
  have i3: "I w3" if "Handler_publishTo h (hCorrectionsTopic h) d k w2 = (oe, w3)" for d k oe w3
    by (rule keeps_correction [OF i2 c(2) that])
  have i6: "I (snd (ssDeleteState (hStore h) x (snd (ltRemove T x v))))" if "I v" for v
    using delete [OF remove [OF T(2) that]] by (metis prod.collapse)
  show ?thesis
    using assms(2) c i1 i2
    by (auto simp: Handle_late_def T b n Let_def split: sum.splits option.splits prod.splits if_splits)
      (metis i3 i6 keeps_metric keeps_warn snd_conv)+
qed

lemma Handle_publish_keeps:
  assumes "I w" and "doc x d" and "Handle_publish h rec x st start d w = (oe, w')"
  shows "I w'"
proof (cases "if PostJoinDelay (hJoinCfg h) > 0 then hDelayQueue h else None")
  case (Some D)
  then have D: "hDelayQueue h = Some D" by (simp split: if_splits)
  obtain n w1 where n: "time_Now w = (n, w1)" by fastforce
  from assms(3) have "w' = dpSchedule D x d (rcKey rec) (n + PostJoinDelay (hJoinCfg h)) w1"
    by (simp add: Handle_publish_def Some n Let_def)
  with delay [OF D keeps_now [OF assms(1) n] assms(2)] show ?thesis by simp
next
  case None
  obtain o1 w1 where p: "Handler_publish h d (rcKey rec) w = (o1, w1)" by fastforce
  have i1: "I w1" by (rule keeps_publish [OF assms(1,2) p])
  have i5: "I (snd (ssDeleteState (hStore h) x (observe_state_age h st (metric m w3))))" if "I w3" for m w3
    using delete [OF keeps_age [OF keeps_metric [OF that]]] by (metis prod.collapse)
  have i3: "I (snd (time_Now (metric m w1)))" for m
    using keeps_now [OF keeps_metric [OF i1]] by (metis prod.collapse)
  show ?thesis
    using assms(3) i1
    by (auto simp: Handle_publish_def None p Let_def split: option.splits prod.splits)
      (metis i3 i5 snd_conv)+
qed

lemma Handle_join_keeps:
  assumes "I w" and "ev x raw s p" and "Handle_join X h rec s x raw p w = (oe, w')"
  shows "I w'"
proof -
  obtain r w1 where u: "ssUpsertParticipant (hStore h) x raw (ConfigID (hJoinCfg h)) s p w = (r, w1)" by fastforce
  have i1: "I w1" by (rule upsert [OF assms(1,2) u])
  show ?thesis
  proof (cases r)
    case (Inl err)
    with assms(3) u i1 show ?thesis by (simp add: Handle_join_def)
  next
    case (Inr ost)
    obtain fl w2 where l: "Handle_late X h x ost w1 = (fl, w2)" by fastforce
    have i2: "I w2" by (rule Handle_late_keeps [OF i1 l])
    obtain n w3 where n: "time_Now w2 = (n, w3)" by fastforce
    have i3: "I w3" by (rule keeps_now [OF i2 n])
    have p: "I w'" if e: "Engine_Process (hEngine h) ost = Inr res" "prJoinedBytes res = Some d"
      and pub: "Handle_publish h rec x ost n d w3 = (oe, w')" for res d
    proof -
      from e obtain st where st: "ost = Some st"
        and "join_N (hJoinCfg h) \<le> int (length (ParticipantData st))"
        and "projection_Apply (ParticipantData st) (Projection (hJoinCfg h)) = Inr d"
        by (auto simp: Engine_Process_def Engine_Project_def Engine_IsComplete_def engine engine_New_def
            split: if_splits sum.splits option.splits)
      with upsert_shown [OF assms(1,2)] u Inr have "doc x d" by (auto intro: project)
      from Handle_publish_keeps [OF i3 this pub] show ?thesis .
    qed
    show ?thesis
      using assms(3) i2 i3 p
      by (auto simp: Handle_join_def u Inr l n Let_def len_opt_def split: flow.splits sum.splits if_splits option.splits)
  qed
qed

lemma Handle_keeps:
  assumes "I w" and "\<And>e. event_of (hJoinCfg h) rec = Some e \<Longrightarrow> ev (evHash e) (evRaw e) (evStream e) (evPayload e)"
    and "Handle X h rec w = (oe, w')"
  shows "I w'"
proof (cases "event_of (hJoinCfg h) rec")
  case None
  with assms(1,3) show ?thesis by (auto simp: Handle_def event_of_def split: sum.splits prod.splits)
next
  case (Some e)
  then obtain s x raw where k: "getStreamID rec = Inr s" "extractKey (hJoinCfg h) (rcValue rec) = Inr (x, raw)"
    and e: "evStream e = s" "evHash e = x" "evRaw e = raw"
    by (auto simp: event_of_def split: sum.splits)
  have pl: "evPayload e = (case rcValue rec of None \<Rightarrow> ''{}'' | Some v \<Rightarrow> v)"
    using Some by (auto simp: event_of_def split: sum.splits)
  let ?w1 = "metric (Inc EventsProcessedTotal [cfgName (hJoinCfg h), s]) w"
  obtain fl w2 where b: "Handle_bloom h s x raw (evPayload e) ?w1 = (fl, w2)" by fastforce
  have v: "ev x raw s (evPayload e)" using assms(2) [OF Some] by (simp add: e)
  have i2: "I w2" by (rule Handle_bloom_keeps [OF keeps_metric [OF assms(1)] v b])
  show ?thesis
    using assms(3) i2 Handle_join_keeps [OF i2 v]
    by (auto simp: Handle_def k b pl [symmetric] Let_def split: flow.splits)
qed

end

section \<open>The timeout manager\<close>

locale manager_keeps = service_invariant I + log: logger_laws "tmLog m"
  for I :: "('c, 'r, 'k) world \<Rightarrow> bool" and m :: "('c, 'r, 'k) world manager" +
  fixes X :: "('c, 'r, 'k) ext"
    and shown :: "bytes \<Rightarrow> join_state \<Rightarrow> bool"
    and doc :: "bytes \<Rightarrow> bytes \<Rightarrow> bool"
  assumes get: "I w \<Longrightarrow> ssGetState (tmStore m) x w = (r, w') \<Longrightarrow> I w'"
    and get_shown: "I w \<Longrightarrow> ssGetState (tmStore m) x w = (Inr (Some st), w') \<Longrightarrow> shown x st"
    and delete: "I w \<Longrightarrow> ssDeleteState (tmStore m) x w = (oe, w') \<Longrightarrow> I w'"
    and project: "shown x st \<Longrightarrow> Egress (tmJoinCfg m) = EgressPartial \<Longrightarrow>
      projection_Apply (ParticipantData st) (Projection (tmJoinCfg m)) = Inr d \<Longrightarrow> doc x d"
    and egress: "tmProducer m = Some P \<Longrightarrow> I w \<Longrightarrow> doc x d \<Longrightarrow>
      prProduceSync P (tmEgressTopic m) k d w = (oe, w') \<Longrightarrow> I w'"
    and add: "tmPartialTracker m = Some T \<Longrightarrow> I w \<Longrightarrow> ltAdd T x w = (oe, w') \<Longrightarrow> I w'"
    and zrem: "I w \<Longrightarrow> I (Manager_ZRem X m member w)"
    and zrange: "I w \<Longrightarrow> on_redis (z_range_by_score X (tmSetKey m) lo up n) w = (rs, w') \<Longrightarrow> I w'"
begin

lemma finish_keeps: "I w \<Longrightarrow> I (finish_member X m x member w)"
  unfolding finish_member_def by (rule zrem) (metis delete prod.collapse)

lemma partial_egress_keeps:
  assumes "I w" and "shown x st" and "Egress (tmJoinCfg m) = EgressPartial"
    and "partial_egress m x st w = (b, w')"
  shows "I w'"
proof (cases "projection_Apply (ParticipantData st) (Projection (tmJoinCfg m))")
  case (Inl err)
  with assms(1,4) show ?thesis by (simp add: partial_egress_def)
next
  case (Inr d)
  note doc = project [OF assms(2,3) Inr]
  have warn: "I (lgWarn (tmLog m) msg kvs (metric c v))" if "I v" for msg kvs c v
    by (rule keeps_log [OF keeps_metric [OF that] log.warn_only])
  have track: "I (snd (ltAdd T x v))" if "tmPartialTracker m = Some T" "I v" for T v
    using add [OF that] by (metis prod.collapse)
  show ?thesis
  proof (cases "tmProducer m")
    case None
    with assms(1,4) Inr show ?thesis
      by (auto simp: partial_egress_def split: option.splits dest: track)
  next
    case (Some P)
    obtain o1 w1 where p: "prProduceSync P (tmEgressTopic m) (Some x) d w = (o1, w1)" by fastforce
    have i1: "I w1" by (rule egress [OF Some assms(1) doc p])
    show ?thesis using assms(4) i1 warn [OF i1] track [OF _ i1]
      by (auto simp: partial_egress_def Inr Some Manager_publish_def p split: option.splits)
  qed
qed

lemma process_member_keeps: "I w \<Longrightarrow> I (process_member X m member w)"
proof -
  assume i: "I w"
  show ?thesis
  proof (cases "hex_DecodeString member")
    case (Inl err)
    with i show ?thesis by (simp add: process_member_def)
  next
    case (Inr x)
    obtain r w1 where g: "ssGetState (tmStore m) x w = (r, w1)" by fastforce
    have i1: "I w1" by (rule get [OF i g])
    show ?thesis
    proof (cases "\<exists>st. r = Inr (Some st)")
      case False
      then show ?thesis using zrem [OF i1]
        by (auto simp: process_member_def Inr g split: sum.splits option.splits)
    next
      case True
      then obtain st where st: "r = Inr (Some st)" by blast
      note sh = get_shown [OF i g [unfolded st]]
      show ?thesis
        using zrem [OF i1] finish_keeps [OF i1] partial_egress_keeps [OF i1 sh] finish_keeps
        by (auto simp: process_member_def Inr g st Let_def split: prod.splits)
    qed
  qed
qed

lemma process_members_keeps: "I w \<Longrightarrow> I (fold (process_member X m) ms w)"
  by (induction ms arbitrary: w) (simp_all add: process_member_keeps)

lemma processDue_keeps:
  assumes "I w" and "Manager_processDue X m w = (oe, w')"
  shows "I w'"
proof -
  obtain t w1 where n: "time_Now w = (t, w1)" by fastforce
  obtain r w2 where z: "on_redis (z_range_by_score X (tmSetKey m) ''-inf'' (int_string (time_Unix t)) (tmBatchSize m)) w1
    = (r, w2)" by fastforce
  have "I w2" by (rule zrange [OF keeps_now [OF assms(1) n] z])
  with assms(2) process_members_keeps show ?thesis
    by (auto simp: Manager_processDue_def n Let_def z split: sum.splits)
qed

lemma Manager_Run_keeps: "I w \<Longrightarrow> Manager_Run n X m w = Some w' \<Longrightarrow> I w'"
proof (induction n arbitrary: w)
  case (Suc n)
  obtain oe w1 where c: "ctx_Err w = (oe, w1)" by fastforce
  have i1: "I w1" using Suc.prems(1) by (rule quiet) (use c in \<open>auto simp: ctx_Err_def\<close>)
  then have "I (snd (Manager_processDue X m w1))" by (metis processDue_keeps prod.collapse)
  with Suc i1 c show ?case by (auto split: option.splits)
qed simp

end

section \<open>The delay queue\<close>

text \<open>\<open>doc\<close> holds of the key and the document of everything that waits, in memory or in Redis.\<close>

locale queue_keeps = service_invariant I + log: logger_laws "dqLog q"
  for I :: "('c, 'r, 'k) world \<Rightarrow> bool" and q :: "('c, 'r, 'k) world queue" +
  fixes X :: "('c, 'r, 'k) ext"
    and doc :: "bytes \<Rightarrow> bytes \<Rightarrow> bool"
  assumes egress: "dqProducer q = Some P \<Longrightarrow> I w \<Longrightarrow> doc x d \<Longrightarrow>
      prProduceSync P (dqTopic q) k d w = (oe, w') \<Longrightarrow> I w'"
    and delete: "dqStore q = Some S \<Longrightarrow> I w \<Longrightarrow> ssDeleteState S x w = (oe, w') \<Longrightarrow> I w'"
    and parked: "I w \<Longrightarrow> p \<in> set (wPending w (dqId q)) \<Longrightarrow> doc (pdKeyHash p) (pdJoined p)"
    and unpark: "I w \<Longrightarrow> set ps \<subseteq> set (wPending w (dqId q)) \<Longrightarrow> I (set_pending (dqId q) ps w)"
    and zrange: "I w \<Longrightarrow> dqRedisKey q \<noteq> '''' \<Longrightarrow>
      on_redis (z_range_by_score X (dqRedisKey q) lo up n) w = (r, w') \<Longrightarrow> I w'"
    and members: "I w \<Longrightarrow> dqRedisKey q \<noteq> '''' \<Longrightarrow> 0 < n \<Longrightarrow>
      on_redis (z_range_by_score X (dqRedisKey q) ''-inf'' (int_string hi) n) w = (Inr ms, w') \<Longrightarrow>
      member \<in> set ms \<Longrightarrow> delayedItem_Unmarshal member = Inr item \<Longrightarrow>
      doc (fst (b64_DecodeString (diH item))) (fst (b64_DecodeString (diJ item)))"
    and zrem: "I w \<Longrightarrow> dqRedisKey q \<noteq> '''' \<Longrightarrow> on_redis (z_rem X (dqRedisKey q) member) w = (oe, w') \<Longrightarrow> I w'"
begin

lemma publish_keeps:
  assumes "I w" and "doc x d"
  shows "I (Queue_publishAndCleanup q x d k w)"
proof -
  have warn: "I (lgWarn (dqLog q) msg kvs (metric c v))" if "I v" for msg kvs c v
    by (rule keeps_log [OF keeps_metric [OF that] log.warn_only])
  have del: "I (snd (ssDeleteState S x v))" if "dqStore q = Some S" "I v" for S v
    using delete [OF that] by (metis prod.collapse)
  show ?thesis
  proof (cases "dqProducer q")
    case None
    with assms(1) del show ?thesis by (auto simp: Queue_publishAndCleanup_def split: option.splits)
  next
    case (Some P)
    obtain o1 w1 where p: "prProduceSync P (dqTopic q) k d w = (o1, w1)" by fastforce
    have "I w1" by (rule egress [OF Some assms p])
    with del warn show ?thesis
      by (auto simp: Queue_publishAndCleanup_def Some p split: option.splits)
  qed
qed

lemma flush_pending_keeps:
  "I w \<Longrightarrow> \<forall>p\<in>set ps. doc (pdKeyHash p) (pdJoined p) \<Longrightarrow> I (fold (publish_pending q) ps w)"
  by (induction ps arbitrary: w) (simp_all add: publish_pending_def publish_keeps)

lemma flushDueMemory_keeps: "I w \<Longrightarrow> I (Queue_flushDueMemory q w)"
proof -
  assume "I w"
  then have i1: "I (w\<lparr>wTick := Suc (wTick w)\<rparr>)" by (rule quiet) simp_all
  show ?thesis
    unfolding flush_memory_step
    by (rule flush_pending_keeps [OF unpark [OF i1]]) (use parked [OF \<open>I w\<close>] in auto)
qed

lemma flush_member_keeps:
  assumes "I w" and "\<And>item. delayedItem_Unmarshal member = Inr item \<Longrightarrow>
    doc (fst (b64_DecodeString (diH item))) (fst (b64_DecodeString (diJ item)))" and "dqRedisKey q \<noteq> ''''"
  shows "I (flush_member X q member w)"
proof -
  have warn: "I (lgWarn (dqLog q) msg kvs v)" if "I v" for msg kvs v
    by (rule keeps_log [OF that log.warn_only])
  have rem: "I v'" if "I v" "on_redis (z_rem X (dqRedisKey q) member) v = (oe, v')" for v oe v'
    by (rule zrem [OF that(1) assms(3) that(2)])
  show ?thesis
  proof (cases "delayedItem_Unmarshal member")
    case (Inl err)
    show ?thesis using rem [OF warn [OF assms(1)]]
      by (simp add: flush_member_def Inl) (metis prod.collapse)
  next
    case (Inr item)
    define w1 where "w1 = Queue_publishAndCleanup q (fst (b64_DecodeString (diH item)))
      (fst (b64_DecodeString (diJ item))) (Some (fst (b64_DecodeString (diK item)))) w"
    have i1: "I w1" unfolding w1_def by (rule publish_keeps [OF assms(1) assms(2) [OF Inr]])
    obtain oe w2 where z: "on_redis (z_rem X (dqRedisKey q) member) w1 = (oe, w2)" by fastforce
    have "flush_member X q member w = (case oe of None \<Rightarrow> w2
        | Some err \<Rightarrow> lgWarn (dqLog q) ''delay queue ZREM failed'' [KStr ''error'', KErr err] w2)"
      by (simp add: flush_member_def Inr Let_def w1_def [symmetric] z split: option.split)
    with rem [OF i1 z] warn show ?thesis by (simp split: option.split)
  qed
qed

lemma flush_members_keeps:
  assumes "I w" and "\<forall>member\<in>set ms. \<forall>item. delayedItem_Unmarshal member = Inr item \<longrightarrow>
    doc (fst (b64_DecodeString (diH item))) (fst (b64_DecodeString (diJ item)))" and "dqRedisKey q \<noteq> ''''"
  shows "I (fold (flush_member X q) ms w)"
  using assms(1,2) by (induction ms arbitrary: w) (simp_all add: flush_member_keeps [OF _ _ assms(3)])

lemma flushDueRedis_keeps:
  assumes "I w" and "dqRedisKey q \<noteq> ''''"
  shows "I (Queue_flushDueRedis X q w)"
proof -
  obtain t w1 where n: "time_Now w = (t, w1)" by fastforce
  obtain r w2 where z: "on_redis (z_range_by_score X (dqRedisKey q) ''-inf'' (int_string (time_UnixNano t))
    delay_defaultBatchSize) w1 = (r, w2)" by fastforce
  note i1 = keeps_now [OF assms(1) n]
  note i2 = zrange [OF i1 assms(2) z]
  show ?thesis
  proof (cases r)
    case (Inl err)
    with keeps_log [OF i2 log.warn_only] show ?thesis by (simp add: Queue_flushDueRedis_def n z)
  next
    case (Inr ms)
    have "I (fold (flush_member X q) ms w2)"
      by (rule flush_members_keeps [OF i2 _ assms(2)])
        (use members [OF i1 assms(2) _ z [unfolded Inr]] in \<open>auto simp: delay_defaultBatchSize_def\<close>)
    then show ?thesis by (simp add: Queue_flushDueRedis_def n z Inr)
  qed
qed

lemma flushDue_keeps: "I w \<Longrightarrow> I (Queue_flushDue X q w)"
  by (simp add: Queue_flushDue_def flushDueRedis_keeps flushDueMemory_keeps)

lemma Queue_Run_keeps: "I w \<Longrightarrow> Queue_Run n X q w = Some w' \<Longrightarrow> I w'"
proof (induction n arbitrary: w)
  case (Suc n)
  obtain oe w1 where c: "ctx_Err w = (oe, w1)" by fastforce
  have i1: "I w1" using Suc.prems(1) by (rule quiet) (use c in \<open>auto simp: ctx_Err_def\<close>)
  with Suc flushDue_keeps [OF i1] c show ?case by (auto split: option.splits)
qed simp

end


end
