(* ===== verification/System.thy ===== *)
theory System
  imports Deployment Invariants
begin

text \<open>
  The processor as a whole: the steps of its goroutines (messages handled, passes of the timeout manager,
  flushes of the delay queue) in any order, on services that may fail at any call.  \<open>system_inv\<close> is the
  invariant of the reachable worlds: whatever is stored, parked or sent was made of accepted events of
  one join key.
\<close>

section \<open>Redis keys written\<close>

definition redis_at ::
  "('r \<Rightarrow> string \<Rightarrow> redis_value) \<Rightarrow> string set \<Rightarrow> ('c, 'r, 'k) world \<Rightarrow> ('c, 'r, 'k) world \<Rightarrow> bool" where
  "redis_at db K w w' \<longleftrightarrow> redis_only w w' \<and> (\<forall>key. key \<notin> K \<longrightarrow> db (wRedis w') key = db (wRedis w) key)"

lemma redis_atD:
  assumes "redis_at db K w w'"
  shows "wCql w' = wCql w" "wKafka w' = wKafka w" "wPending w' = wPending w"
    "key \<notin> K \<Longrightarrow> db (wRedis w') key = db (wRedis w) key"
  using assms by (simp_all add: redis_at_def redis_only_def)

context redis_server
begin

lemma Filter_Exists_at: "Filter_Exists X f h w = (br, w') \<Longrightarrow> redis_at db {} w w'"
  using Filter_Exists_same by (simp add: redis_at_def)

lemma Filter_Add_at: "Filter_Add X f h w = (oe, w') \<Longrightarrow> redis_at db {flKey f} w w'"
  using Filter_Add_effect [of f h w oe w'] by (auto simp: redis_at_def)

lemma Tracker_Contains_at: "Tracker_Contains X p h w = (br, w') \<Longrightarrow> redis_at db {} w w'"
  using Tracker_Contains_same by (simp add: redis_at_def)

lemma Tracker_Add_at: "Tracker_Add X p h w = (oe, w') \<Longrightarrow> redis_at db {ptKey p} w w'"
  using Tracker_Add_effect [of p h w oe w'] by (auto simp: redis_at_def)

lemma Tracker_Remove_at: "Tracker_Remove X p h w = (oe, w') \<Longrightarrow> redis_at db {ptKey p} w w'"
  using Tracker_Remove_effect [of p h w oe w'] by (auto simp: redis_at_def)

lemma ScheduleTimeout_at: "Manager_ScheduleTimeout X m h t w = (oe, w') \<Longrightarrow> redis_at db {tmSetKey m} w w'"
  using ScheduleTimeout_effect [of m h t w oe w'] by (auto simp: redis_at_def)

lemma z_rem_at: "on_redis (z_rem X key m) w = (oe, w') \<Longrightarrow> redis_at db {key} w w'"
  using z_rem_ok [of key m "wRedis w" "wRedis w'"] z_rem_err [of key m "wRedis w" _ "wRedis w'"]
  by (cases oe) (auto simp: redis_at_def redis_only_def on_redis_def split: prod.splits)

lemma ZRem_at: "redis_at db {tmSetKey m} w (Manager_ZRem X m member w)"
  unfolding Manager_ZRem_def by (rule z_rem_at) (rule surjective_pairing)

lemma z_range_at: "on_redis (z_range_by_score X key lo up n) w = (r, w') \<Longrightarrow> redis_at db {} w w'"
  using z_range_frame [of key lo up n "wRedis w" r "wRedis w'"]
  by (auto simp: redis_at_def redis_only_def on_redis_def split: prod.splits)

text \<open>Scheduling a delayed publication adds one item, in memory or under the queue's key.\<close>

lemma Schedule_pending:
  assumes "logger_laws (dqLog q)" and "\<not> (dqRedis q \<and> dqRedisKey q \<noteq> '''')"
  shows "wRedis (Queue_Schedule X q h j k at w) = wRedis w"
    and "wPending (Queue_Schedule X q h j k at w) = (wPending w)(dqId q := wPending w (dqId q) @
      [\<lparr>pdKeyHash = h, pdJoined = j, pdMsgKey = k, pdPublishAt = at\<rparr>])"
  using assms(2) by (auto simp: Queue_Schedule_def set_pending_def)

lemma Schedule_member:
  assumes "logger_laws (dqLog q)" and "dqRedis q" "dqRedisKey q \<noteq> ''''"
  shows "wPending (Queue_Schedule X q h j k at w) = wPending w"
    and "dom (r_zset (db (wRedis (Queue_Schedule X q h j k at w)) (dqRedisKey q)))
      \<subseteq> insert (queue_member h j k) (dom (r_zset (db (wRedis w) (dqRedisKey q))))"
proof -
  obtain oe r' where z: "z_add X (dqRedisKey q) (f64_int (time_UnixNano at)) (queue_member h j k) (wRedis w) = (oe, r')"
    by fastforce
  have d: "db r' = (db (wRedis w))(dqRedisKey q := RZSet ((r_zset (db (wRedis w) (dqRedisKey q)))
      (queue_member h j k \<mapsto> f64_int (time_UnixNano at)))) \<or> db r' = db (wRedis w)"
    using z_add_ok [of "dqRedisKey q" _ _ "wRedis w" r'] z_add_err [of "dqRedisKey q" _ _ "wRedis w" _ r'] z
    by (cases oe) blast+
  note lg = log_onlyD [OF logger_laws.error_only [OF assms(1)]]
  have "wRedis (Queue_Schedule X q h j k at w) = r'" "wPending (Queue_Schedule X q h j k at w) = wPending w"
    using assms(2,3)
    by (auto simp: Queue_Schedule_def scheduleRedis_member on_redis_def z lg split: option.split)
  with d show "wPending (Queue_Schedule X q h j k at w) = wPending w"
    and "dom (r_zset (db (wRedis (Queue_Schedule X q h j k at w)) (dqRedisKey q)))
      \<subseteq> insert (queue_member h j k) (dom (r_zset (db (wRedis w) (dqRedisKey q))))" by auto
qed

end

lemma queue_member_item:
  "delayedItem_Unmarshal (queue_member h j k) = Inr item \<Longrightarrow>
    fst (b64_DecodeString (diH item)) = h \<and> fst (b64_DecodeString (diJ item)) = j"
proof -
  have "delayedItem_Unmarshal (queue_member h j k) = Inr \<lparr>diH = b64_EncodeToString h,
      diJ = b64_EncodeToString j, diK = b64_EncodeToString (case k of None \<Rightarrow> [] | Some x \<Rightarrow> x)\<rparr>"
    by (rule delayedItem_roundtrip) (simp_all add: queue_member_def delayedItem_Marshal_def b64_plain)
  then show "delayedItem_Unmarshal (queue_member h j k) = Inr item \<Longrightarrow> ?thesis"
    by (auto simp: b64_roundtrip)
qed

section \<open>Components of a deployment keep an invariant\<close>

definition own_keys :: "processor_config \<Rightarrow> mode \<Rightarrow> join_config \<Rightarrow> string set" where
  "own_keys cfg mode jc = {bloom_key cfg mode jc, timeouts_key mode jc, partial_key mode jc}"

context deployment
begin

lemma handler_of_keeps:
  assumes "service_invariant I"
    and redis: "\<And>w w'. I w \<Longrightarrow> redis_at db (own_keys cfg mode jc) w w' \<Longrightarrow> I w'"
    and only: "\<And>w x raw s p cid oe w'. I w \<Longrightarrow> ev x raw s p \<Longrightarrow>
      ssUpsertParticipantOnly (store_of X cfg mode jc) x raw cid s p w = (oe, w') \<Longrightarrow> I w'"
    and upsert: "\<And>w x raw s p cid r w'. I w \<Longrightarrow> ev x raw s p \<Longrightarrow>
      ssUpsertParticipant (store_of X cfg mode jc) x raw cid s p w = (r, w') \<Longrightarrow>
      I w' \<and> (\<forall>st. r = Inr (Some st) \<longrightarrow> shown x st)"
    and delete: "\<And>w x oe w'. I w \<Longrightarrow> ssDeleteState (store_of X cfg mode jc) x w = (oe, w') \<Longrightarrow> I w'"
    and project: "\<And>x st d. shown x st \<Longrightarrow> join_N jc \<le> int (length (ParticipantData st)) \<Longrightarrow>
      projection_Apply (ParticipantData st) (Projection jc) = Inr d \<Longrightarrow> doc x d"
    and delay: "\<And>w x d k t. I w \<Longrightarrow> doc x d \<Longrightarrow> I (Queue_Schedule X (queue_of X cfg lg mode jc) x d k t w)"
    and egress: "\<And>w x d k oe w'. I w \<Longrightarrow> doc x d \<Longrightarrow>
      prProduceSync (kafka_producer X) (EgressTopic cfg) k d w = (oe, w') \<Longrightarrow> I w'"
    and correction: "\<And>w d k oe w'. I w \<Longrightarrow> CorrectionsTopic cfg \<noteq> '''' \<Longrightarrow>
      prProduceSync (kafka_producer X) (CorrectionsTopic cfg) k d w = (oe, w') \<Longrightarrow> I w'"
  shows "handler_keeps I (handler_of X cfg lg mode jc) ev shown doc"
proof -
  have small: "I w'" if "I w" "redis_at db K w w'" "K \<subseteq> own_keys cfg mode jc" for K w w'
    using redis [OF that(1)] that(2,3) by (auto simp: redis_at_def)
  have pk: "ptKey (NewRedisPartialTracker (partial_key mode jc)) = partial_key mode jc"
    by (simp add: NewRedisPartialTracker_def keys_distinct)
  note [simp] = handler_of_simps
  show ?thesis
  proof (intro handler_keeps.intro handler_keeps_axioms.intro, goal_cases)
    case 1
    show ?case by (rule assms(1))
  next
    case 2
    show ?case by (simp add: impl_logs.logger_laws_axioms)
  next
    case (9 B w x br w')
    then have "Filter_Exists X (bloom_New (bloom_key cfg mode jc)) x w = (br, w')"
      by (auto simp: bloom_iface_def split: if_splits)
    from small [OF 9(2) Filter_Exists_at [OF this]] show ?case by simp
  next
    case (10 B w x oe w')
    then have "Filter_Add X (bloom_New (bloom_key cfg mode jc)) x w = (oe, w')"
      by (auto simp: bloom_iface_def split: if_splits)
    from small [OF 10(2) Filter_Add_at [OF this]] show ?case by (simp add: bloom_New_def own_keys_def)
  next
    case (11 M w x t oe w')
    then have "Manager_ScheduleTimeout X (manager_of X cfg lg mode jc) x t w = (oe, w')"
      by (auto simp: manager_iface_def split: if_splits)
    from small [OF 11(2) ScheduleTimeout_at [OF this]] show ?case by (simp add: manager_of_simps own_keys_def)
  next
    case (13 T w x br w')
    then have "Tracker_Contains X (NewRedisPartialTracker (partial_key mode jc)) x w = (br, w')"
      by (auto simp: tracker_iface_def split: if_splits)
    from small [OF 13(2) Tracker_Contains_at [OF this]] show ?case by simp
  next
    case (14 T w x oe w')
    then have "Tracker_Remove X (NewRedisPartialTracker (partial_key mode jc)) x w = (oe, w')"
      by (auto simp: tracker_iface_def split: if_splits)
    from small [OF 14(2) Tracker_Remove_at [OF this]] show ?case by (simp add: pk own_keys_def)
  next
    case 3
    show ?case by simp
  next
    case (4 w x raw s p cid oe w')
    then show ?case using only [of w x raw s p cid oe w'] by simp
  next
    case (5 w x raw s p cid r w')
    then show ?case using upsert [of w x raw s p cid r w'] by simp
  next
    case (6 w x raw s p cid st w')
    then show ?case using upsert [of w x raw s p cid "Inr (Some st)" w'] by simp
  next
    case (7 w x oe w')
    then show ?case using delete [of w x oe w'] by simp
  next
    case (8 x st d)
    then show ?case using project [of x st d] by simp
  next
    case (12 D w x d k t)
    then have "D = delay_iface X (queue_of X cfg lg mode jc)" by (simp split: if_splits)
    then show ?case using delay [OF 12(2,3)] by (simp add: delay_iface_def)
  next
    case (15 P w x d k oe w')
    then show ?case using egress [of w x d k oe w'] by simp
  next
    case (16 P w k d oe w')
    then show ?case using correction [of w k d oe w'] by simp
  qed
qed

lemma manager_of_keeps:
  assumes "service_invariant I"
    and redis: "\<And>w w'. I w \<Longrightarrow> redis_at db (own_keys cfg mode jc) w w' \<Longrightarrow> I w'"
    and get: "\<And>w x r w'. I w \<Longrightarrow> ssGetState (store_of X cfg mode jc) x w = (r, w') \<Longrightarrow>
      I w' \<and> (\<forall>st. r = Inr (Some st) \<longrightarrow> shown x st)"
    and delete: "\<And>w x oe w'. I w \<Longrightarrow> ssDeleteState (store_of X cfg mode jc) x w = (oe, w') \<Longrightarrow> I w'"
    and project: "\<And>x st d. shown x st \<Longrightarrow> Egress jc = EgressPartial \<Longrightarrow>
      projection_Apply (ParticipantData st) (Projection jc) = Inr d \<Longrightarrow> doc x d"
    and egress: "\<And>w x d k oe w'. I w \<Longrightarrow> doc x d \<Longrightarrow>
      prProduceSync (kafka_producer X) (EgressTopic cfg) k d w = (oe, w') \<Longrightarrow> I w'"
  shows "manager_keeps I (manager_of X cfg lg mode jc) X shown doc"
proof -
  have small: "I w'" if "I w" "redis_at db K w w'" "K \<subseteq> own_keys cfg mode jc" for K w w'
    using redis [OF that(1)] that(2,3) by (auto simp: redis_at_def)
  have pk: "ptKey (NewRedisPartialTracker (partial_key mode jc)) = partial_key mode jc"
    by (simp add: NewRedisPartialTracker_def keys_distinct)
  note [simp] = manager_of_simps
  show ?thesis
  proof (intro manager_keeps.intro manager_keeps_axioms.intro, goal_cases)
    case 1
    show ?case by (rule assms(1))
  next
    case 2
    show ?case by (simp add: impl_logs.logger_laws_axioms)
  next
    case (8 T w x oe w')
    then have "Tracker_Add X (NewRedisPartialTracker (partial_key mode jc)) x w = (oe, w')"
      by (auto simp: tracker_iface_def split: if_splits)
    from small [OF 8(2) Tracker_Add_at [OF this]] show ?case by (simp add: pk own_keys_def)
  next
    case (9 w member)
    from small [OF 9 ZRem_at] show ?case by (simp add: own_keys_def)
  next
    case (10 w lo up n r w')
    from small [OF 10(1) z_range_at [OF 10(2)]] show ?case by simp
  next
    case (3 w x r w')
    then show ?case using get [of w x r w'] by simp
  next
    case (4 w x st w')
    then show ?case using get [of w x "Inr (Some st)" w'] by simp
  next
    case (5 w x oe w')
    then show ?case using delete [of w x oe w'] by simp
  next
    case (6 x st d)
    then show ?case using project [of x st d] by simp
  next
    case (7 P w x d k oe w')
    then show ?case using egress [of w x d k oe w'] by simp
  qed
qed

end

section \<open>Where documents come from\<close>

text \<open>\<open>E\<close> is the set of the events accepted so far.\<close>

definition data_from :: "event set \<Rightarrow> bytes \<Rightarrow> (string \<rightharpoonup> bytes) \<Rightarrow> bool" where
  "data_from E x m \<longleftrightarrow>
     (\<forall>s p. m s = Some p \<longrightarrow> (\<exists>e\<in>E. evHash e = x \<and> evStream e = s \<and> evPayload e = p))"

definition joined_doc :: "event set \<Rightarrow> join_config \<Rightarrow> bytes \<Rightarrow> bytes \<Rightarrow> bool" where
  "joined_doc E jc x d \<longleftrightarrow> (\<exists>data. gm_wf data \<and> data_from E x (map_of data)
     \<and> join_N jc \<le> int (length data) \<and> projection_Apply data (Projection jc) = Inr d)"

definition partial_doc :: "event set \<Rightarrow> join_config \<Rightarrow> bytes \<Rightarrow> bytes \<Rightarrow> bool" where
  "partial_doc E jc x d \<longleftrightarrow> Egress jc = EgressPartial \<and> (\<exists>data. gm_wf data \<and> data_from E x (map_of data)
     \<and> projection_Apply data (Projection jc) = Inr d)"

definition sent_ok :: "event set \<Rightarrow> processor_config \<Rightarrow> join_config \<Rightarrow> sent_message \<Rightarrow> bool" where
  "sent_ok E cfg jc = (\<lambda>(topic, key, d).
     topic = EgressTopic cfg \<and> (\<exists>x. joined_doc E jc x d \<or> partial_doc E jc x d)
     \<or> topic = CorrectionsTopic cfg \<and> topic \<noteq> '''')"

lemma data_from_mono: "data_from E x m \<Longrightarrow> E \<subseteq> F \<Longrightarrow> data_from F x m"
  unfolding data_from_def by blast

lemma joined_doc_mono: "joined_doc E jc x d \<Longrightarrow> E \<subseteq> F \<Longrightarrow> joined_doc F jc x d"
  unfolding joined_doc_def using data_from_mono by blast

lemma sent_ok_mono: "sent_ok E cfg jc s \<Longrightarrow> E \<subseteq> F \<Longrightarrow> sent_ok F cfg jc s"
  unfolding sent_ok_def joined_doc_def partial_doc_def using data_from_mono by (cases s) blast

lemma data_from_put:
  assumes "og \<noteq> None \<Longrightarrow> data_from E x (gData (the og))" and "\<exists>e\<in>E. evHash e = x \<and> evStream e = s \<and> evPayload e = p"
  shows "data_from E x (gData (group_put raw s p t og))"
  using assms by (cases og) (auto simp: data_from_def group_put_def)

text \<open>The invariant: stored groups, parked documents and sent messages are made of accepted events.\<close>

definition parked_ok ::
  "('r \<Rightarrow> string \<Rightarrow> redis_value) \<Rightarrow> event set \<Rightarrow> join_config \<Rightarrow> 'w queue \<Rightarrow> ('c, 'r, 'k) world \<Rightarrow> bool" where
  "parked_ok db E jc q w \<longleftrightarrow>
     (\<forall>p\<in>set (wPending w (dqId q)). joined_doc E jc (pdKeyHash p) (pdJoined p))
     \<and> (dqRedisKey q \<noteq> '''' \<longrightarrow> (\<forall>m\<in>dom (r_zset (db (wRedis w) (dqRedisKey q))).
          \<exists>h j k. m = queue_member h j k \<and> joined_doc E jc h j))"

definition system_inv ::
  "('c, 'r, 'k) ext \<Rightarrow> ('c \<Rightarrow> cql_db) \<Rightarrow> ('r \<Rightarrow> string \<Rightarrow> redis_value) \<Rightarrow> ('k \<Rightarrow> sent_message list) \<Rightarrow>
   processor_config \<Rightarrow> impl \<Rightarrow> mode \<Rightarrow> join_config \<Rightarrow> event set \<Rightarrow> ('c, 'r, 'k) world \<Rightarrow> bool"
where
  "system_inv X rows db sent cfg lg mode jc E w \<longleftrightarrow>
     (\<forall>x g. groups_of rows cfg mode jc (wCql w) x = Some g \<longrightarrow> data_from E x (gData g))
     \<and> parked_ok db E jc (queue_of X cfg lg mode jc) w
     \<and> (\<forall>s\<in>set (sent (wKafka w)). sent_ok E cfg jc s)"

lemma system_inv_mono:
  "system_inv X rows db sent cfg lg mode jc E w \<Longrightarrow> E \<subseteq> F \<Longrightarrow> system_inv X rows db sent cfg lg mode jc F w"
  unfolding system_inv_def parked_ok_def
  by (intro conjI; meson data_from_mono joined_doc_mono sent_ok_mono)

text \<open>A state that shows such a group, and its documents.\<close>

definition shown_from :: "event set \<Rightarrow> bytes \<Rightarrow> join_state \<Rightarrow> bool" where
  "shown_from E x st \<longleftrightarrow> (\<exists>g. state_shows st g \<and> data_from E x (gData g))"

lemma shown_joined:
  "shown_from E x st \<Longrightarrow> join_N jc \<le> int (length (ParticipantData st)) \<Longrightarrow>
    projection_Apply (ParticipantData st) (Projection jc) = Inr d \<Longrightarrow> joined_doc E jc x d"
  unfolding shown_from_def joined_doc_def state_shows_def by auto

lemma shown_partial:
  "shown_from E x st \<Longrightarrow> Egress jc = EgressPartial \<Longrightarrow>
    projection_Apply (ParticipantData st) (Projection jc) = Inr d \<Longrightarrow> partial_doc E jc x d"
  unfolding shown_from_def partial_doc_def state_shows_def by auto

context deployment
begin

abbreviation "sys_inv \<equiv> system_inv X rows db sent"

lemma inv_service: "service_invariant (sys_inv cfg lg mode jc E)"
  by unfold_locales (simp add: system_inv_def parked_ok_def)

lemma inv_redis:
  assumes "keys_apart cfg mode jc" and "sys_inv cfg lg mode jc E w" and "redis_at db (own_keys cfg mode jc) w w'"
  shows "sys_inv cfg lg mode jc E w'"
proof -
  have "delay_key jc \<notin> own_keys cfg mode jc"
    using assms(1) keys_distinct(2,3) [symmetric] by (auto simp: own_keys_def keys_apart_def)
  then have "dqRedisKey (queue_of X cfg lg mode jc) \<noteq> '''' \<Longrightarrow>
      db (wRedis w') (dqRedisKey (queue_of X cfg lg mode jc)) = db (wRedis w) (dqRedisKey (queue_of X cfg lg mode jc))"
    using redis_atD(4) [OF assms(3), of "delay_key jc"] by (simp add: queue_of_simps split: if_splits)
  with assms(2) show ?thesis by (simp add: system_inv_def parked_ok_def redis_atD(1-3) [OF assms(3)])
qed

text \<open>A change of the groups alone.\<close>

lemma inv_cql:
  assumes "sys_inv cfg lg mode jc E w" and "cql_only w w'"
    and "\<And>x g. groups_of rows cfg mode jc (wCql w') x = Some g \<Longrightarrow> data_from E x (gData g)"
  shows "sys_inv cfg lg mode jc E w'"
  using assms by (simp add: system_inv_def parked_ok_def cql_only_def)

lemma inv_groups: "sys_inv cfg lg mode jc E w \<Longrightarrow> groups_of rows cfg mode jc (wCql w) x = Some g \<Longrightarrow> data_from E x (gData g)"
  by (simp add: system_inv_def)

lemma inv_upsert:
  assumes "sys_inv cfg lg mode jc E w" and "\<exists>e\<in>E. evHash e = x \<and> evStream e = s \<and> evPayload e = p" and "cql_only w w'"
    and "groups_of rows cfg mode jc (wCql w') = groups_of rows cfg mode jc (wCql w)
      \<or> groups_of rows cfg mode jc (wCql w') = (groups_of rows cfg mode jc (wCql w))
          (x \<mapsto> group_put raw s p t (groups_of rows cfg mode jc (wCql w) x))"
  shows "sys_inv cfg lg mode jc E w'"
proof (rule inv_cql [OF assms(1,3)])
  fix y g assume g: "groups_of rows cfg mode jc (wCql w') y = Some g"
  have "data_from E x (gData (group_put raw s p t (groups_of rows cfg mode jc (wCql w) x)))"
    by (rule data_from_put [OF _ assms(2)]) (use inv_groups [OF assms(1)] in auto)
  with g assms(4) inv_groups [OF assms(1)] show "data_from E y (gData g)"
    by (auto split: if_splits)
qed

lemma inv_produce:
  assumes "sys_inv cfg lg mode jc E w" and "prProduceSync (kafka_producer X) topic k d w = (oe, w')"
    and "sent_ok E cfg jc (topic, k, d)"
  shows "sys_inv cfg lg mode jc E w'"
  using client.produce_frame [OF assms(2)] client.produce_cases [OF assms(2)] assms(1,3)
  by (auto simp: system_inv_def parked_ok_def kafka_only_def)

lemma inv_delete:
  assumes "sys_inv cfg lg mode jc E w" and "ssDeleteState (store_of X cfg mode jc) x w = (oe, w')"
  shows "sys_inv cfg lg mode jc E w'"
proof (rule inv_cql [OF assms(1)])
  note laws = store_of_laws [of cfg mode jc]
  show "cql_only w w'" using state_store_laws.delete_frame [OF laws assms(2)] by simp
  fix y g assume g: "groups_of rows cfg mode jc (wCql w') y = Some g"
  have "groups_of rows cfg mode jc (wCql w') = (groups_of rows cfg mode jc (wCql w))(x := None)
      \<or> groups_of rows cfg mode jc (wCql w') = groups_of rows cfg mode jc (wCql w)"
    using state_store_laws.delete_ok [OF laws, of x w w'] state_store_laws.delete_err [OF laws, of x w _ w'] assms(2)
    by (cases oe) auto
  with g inv_groups [OF assms(1)] show "data_from E y (gData g)" by (auto split: if_splits)
qed

lemma inv_schedule:
  assumes "sys_inv cfg lg mode jc E w" and "joined_doc E jc x d"
  shows "sys_inv cfg lg mode jc E (Queue_Schedule X (queue_of X cfg lg mode jc) x d k t w)"
proof -
  let ?q = "queue_of X cfg lg mode jc" and ?w' = "Queue_Schedule X (queue_of X cfg lg mode jc) x d k t w"
  have l: "logger_laws (dqLog ?q)" by (simp add: queue_of_simps impl_logs.logger_laws_axioms)
  note fr = Schedule_frame(1,2) [OF l, of x d k t w]
  have "parked_ok db E jc ?q ?w'"
  proof (cases "dqRedisKey ?q = ''''")
    case True
    then show ?thesis
      using Schedule_pending [OF l, of x d k t w] assms by (auto simp: parked_ok_def system_inv_def)
  next
    case False
    note m = Schedule_member [OF l queue_of_simps(5) False, of x d k t w]
    have old: "\<exists>h j k. m = queue_member h j k \<and> joined_doc E jc h j"
      if "m \<in> dom (r_zset (db (wRedis w) (dqRedisKey ?q)))" for m
      using assms(1) False that by (simp add: system_inv_def parked_ok_def)
    have "\<exists>h j k. m = queue_member h j k \<and> joined_doc E jc h j"
      if "m \<in> dom (r_zset (db (wRedis ?w') (dqRedisKey ?q)))" for m
      using subsetD [OF m(2) that] old assms(2) by blast
    then show ?thesis
      using m(1) assms(1) unfolding parked_ok_def system_inv_def by simp
  qed
  with assms(1) fr show ?thesis by (simp add: system_inv_def)
qed

end


section \<open>The goroutines keep it\<close>

lemma ball_subset: "A \<subseteq> B \<Longrightarrow> \<forall>x\<in>B. P x \<Longrightarrow> \<forall>x\<in>A. P x"
  by blast

context deployment
begin

lemma handler_inv:
  assumes "keys_apart cfg mode jc"
  shows "handler_keeps (sys_inv cfg lg mode jc E) (handler_of X cfg lg mode jc)
    (\<lambda>x raw s p. \<exists>e\<in>E. evHash e = x \<and> evStream e = s \<and> evPayload e = p) (shown_from E) (joined_doc E jc)"
proof -
  note laws = store_of_laws [of cfg mode jc]
  show ?thesis
  proof (rule handler_of_keeps [OF inv_service], goal_cases)
    case (1 w w')
    then show ?case by (rule inv_redis [OF assms])
  next
    case (2 w x raw s p cid oe w')
    have "groups_of rows cfg mode jc (wCql w') = groups_of rows cfg mode jc (wCql w)
      \<or> groups_of rows cfg mode jc (wCql w') = (groups_of rows cfg mode jc (wCql w))
          (x \<mapsto> group_put raw s p (wClock w (wTick w)) (groups_of rows cfg mode jc (wCql w) x))"
      using state_store_laws.only_ok [OF laws, of x raw cid s p w w']
        state_store_laws.only_err [OF laws, of x raw cid s p w _ w'] 2(3) by (cases oe) auto
    with 2 state_store_laws.only_frame [OF laws 2(3)] show ?case by (blast intro: inv_upsert)
  next
    case (3 w x raw s p cid r w')
    have g: "groups_of rows cfg mode jc (wCql w') = groups_of rows cfg mode jc (wCql w)
      \<or> groups_of rows cfg mode jc (wCql w') = (groups_of rows cfg mode jc (wCql w))
          (x \<mapsto> group_put raw s p (wClock w (wTick w)) (groups_of rows cfg mode jc (wCql w) x))"
      using state_store_laws.upsert_ok [OF laws, of x raw cid s p w _ w']
        state_store_laws.upsert_err [OF laws, of x raw cid s p w _ w'] 3(3) by (cases r) auto
    have i: "sys_inv cfg lg mode jc E w'"
      using inv_upsert [OF 3(1,2) state_store_laws.upsert_frame [OF laws 3(3), THEN conjunct1] g] .
    have "shown_from E x st" if "r = Inr (Some st)" for st
    proof -
      from state_store_laws.upsert_ok [OF laws 3(3) [unfolded that]]
      obtain g where "groups_of rows cfg mode jc (wCql w') x = Some g" "state_shows st g" by auto
      with inv_groups [OF i] show ?thesis unfolding shown_from_def by blast
    qed
    with i show ?case by blast
  next
    case (4 w x oe w')
    then show ?case by (rule inv_delete)
  next
    case (5 x st d)
    then show ?case by (rule shown_joined)
  next
    case (6 w x d k t)
    then show ?case by (rule inv_schedule)
  next
    case (7 w x d k oe w')
    then show ?case by (intro inv_produce [OF 7(1,3)]) (auto simp: sent_ok_def)
  next
    case (8 w d k oe w')
    then show ?case by (intro inv_produce [OF 8(1,3)]) (auto simp: sent_ok_def)
  qed
qed

lemma manager_inv:
  assumes "keys_apart cfg mode jc"
  shows "manager_keeps (sys_inv cfg lg mode jc E) (manager_of X cfg lg mode jc) X (shown_from E) (partial_doc E jc)"
proof -
  note laws = store_of_laws [of cfg mode jc]
  show ?thesis
  proof (rule manager_of_keeps [OF inv_service], goal_cases)
    case (1 w w')
    then show ?case by (rule inv_redis [OF assms])
  next
    case (2 w x r w')
    have "groups_of rows cfg mode jc (wCql w') = groups_of rows cfg mode jc (wCql w)"
      by (rule state_store_laws.get_groups [OF laws 2(2)])
    with inv_cql [OF 2(1)] inv_groups [OF 2(1)] state_store_laws.get_frame [OF laws 2(2)]
    have i: "sys_inv cfg lg mode jc E w'" by metis
    have "shown_from E x st" if "r = Inr (Some st)" for st
      using state_store_laws.get_some [OF laws 2(2) [unfolded that]] inv_groups [OF 2(1)]
      unfolding shown_from_def by blast
    with i show ?case by blast
  next
    case (3 w x oe w')
    then show ?case by (rule inv_delete)
  next
    case (4 x st d)
    then show ?case by (rule shown_partial)
  next
    case (5 w x d k oe w')
    then show ?case by (intro inv_produce [OF 5(1,3)]) (auto simp: sent_ok_def)
  qed
qed

lemma queue_inv:
  assumes "keys_apart cfg mode jc"
  shows "queue_keeps (sys_inv cfg lg mode jc E) (queue_of X cfg lg mode jc) X (joined_doc E jc)"
proof -
  let ?q = "queue_of X cfg lg mode jc"
  note [simp] = queue_of_simps
  show ?thesis
  proof (intro queue_keeps.intro queue_keeps_axioms.intro, goal_cases)
    case 1
    show ?case by (rule inv_service)
  next
    case 2
    show ?case by (simp add: impl_logs.logger_laws_axioms)
  next
    case (3 P w x d k oe w')
    then have "prProduceSync (kafka_producer X) (EgressTopic cfg) k d w = (oe, w')" by simp
    from inv_produce [OF 3(2) this] 3(3) show ?case by (auto simp: sent_ok_def)
  next
    case (4 S w x oe w')
    then show ?case using inv_delete [of cfg lg mode jc E w x oe w'] by simp
  next
    case (5 w p)
    then show ?case by (simp add: system_inv_def parked_ok_def)
  next
    case (6 w ps)
    then show ?case by (auto simp: system_inv_def parked_ok_def set_pending_def)
  next
    case (7 w lo up n r w')
    from z_range_at [OF 7(3)] have "redis_at db (own_keys cfg mode jc) w w'" by (simp add: redis_at_def)
    with inv_redis [OF assms 7(1)] show ?case .
  next
    case (8 w n hi ms w' member item)
    obtain r' where z: "z_range_by_score X (dqRedisKey ?q) ''-inf'' (int_string hi) n (wRedis w) = (Inr ms, r')"
      using 8(4) by (auto simp: on_redis_def split: prod.splits)
    from z_range_ok [OF z 8(3)] 8(5) have "member \<in> dom (r_zset (db (wRedis w) (dqRedisKey ?q)))" by blast
    with 8(1,2) obtain h j k where "member = queue_member h j k" "joined_doc E jc h j"
      unfolding system_inv_def parked_ok_def by blast
    with queue_member_item 8(6) show ?case by blast
  next
    case (9 w member oe w')
    have "db (wRedis w') (dqRedisKey ?q) = db (wRedis w) (dqRedisKey ?q)
        \<or> db (wRedis w') (dqRedisKey ?q) = RZSet ((r_zset (db (wRedis w) (dqRedisKey ?q)))(member := None))"
      using z_rem_ok [of "dqRedisKey ?q" member "wRedis w" "wRedis w'"]
        z_rem_err [of "dqRedisKey ?q" member "wRedis w" _ "wRedis w'"] 9(3)
      by (cases oe) (auto simp: on_redis_def split: prod.splits)
    then have "dom (r_zset (db (wRedis w') (dqRedisKey ?q))) \<subseteq> dom (r_zset (db (wRedis w) (dqRedisKey ?q)))"
      by (elim disjE) (simp_all del: queue_of_simps add: Diff_subset)
    moreover have "\<forall>m\<in>dom (r_zset (db (wRedis w) (dqRedisKey ?q))).
        \<exists>h j k. m = queue_member h j k \<and> joined_doc E jc h j"
      using 9(1,2) unfolding system_inv_def parked_ok_def by (simp del: queue_of_simps)
    ultimately have "\<forall>m\<in>dom (r_zset (db (wRedis w') (dqRedisKey ?q))).
        \<exists>h j k. m = queue_member h j k \<and> joined_doc E jc h j" by (rule ball_subset)
    then show ?case using 9(1) redis_atD(1-3) [OF z_rem_at [OF 9(3)]]
      unfolding system_inv_def parked_ok_def by (simp del: queue_of_simps)
  qed
qed

end

section \<open>Steps of the system\<close>

text \<open>
  One step is one message, one pass or one flush, of the goroutines that the configuration starts; which
  comes next is not determined, and neither is what the services answer.  The first component collects
  the accepted events.
\<close>

inductive system_step ::
  "('c, 'r, 'k) ext \<Rightarrow> processor_config \<Rightarrow> impl \<Rightarrow> mode \<Rightarrow> join_config \<Rightarrow>
   event set \<Rightarrow> ('c, 'r, 'k) world \<Rightarrow> event set \<Rightarrow> ('c, 'r, 'k) world \<Rightarrow> bool"
  for X cfg lg mode jc
where
  message: "Handle X (handler_of X cfg lg mode jc) rec w = (oe, w') \<Longrightarrow>
    system_step X cfg lg mode jc E w (E \<union> set_option (event_of jc rec)) w'"
| timeout: "RedisAddr cfg \<noteq> '''' \<Longrightarrow> Manager_processDue X (manager_of X cfg lg mode jc) w = (oe, w') \<Longrightarrow>
    system_step X cfg lg mode jc E w E w'"
| flush: "0 < PostJoinDelay jc \<Longrightarrow>
    system_step X cfg lg mode jc E w E (Queue_flushDue X (queue_of X cfg lg mode jc) w)"

inductive system_run ::
  "('c, 'r, 'k) ext \<Rightarrow> processor_config \<Rightarrow> impl \<Rightarrow> mode \<Rightarrow> join_config \<Rightarrow>
   ('c, 'r, 'k) world \<Rightarrow> event set \<Rightarrow> ('c, 'r, 'k) world \<Rightarrow> bool"
  for X cfg lg mode jc w0
where
  start: "system_run X cfg lg mode jc w0 {} w0"
| step: "system_run X cfg lg mode jc w0 E w \<Longrightarrow> system_step X cfg lg mode jc E w F w' \<Longrightarrow>
    system_run X cfg lg mode jc w0 F w'"

context deployment
begin

lemma system_step_inv:
  assumes "keys_apart cfg mode jc" and "system_step X cfg lg mode jc E w F w'" and "sys_inv cfg lg mode jc E w"
  shows "sys_inv cfg lg mode jc F w'"
  using assms(2)
proof cases
  case (message rec oe)
  have i: "sys_inv cfg lg mode jc F w" using assms(3) by (rule system_inv_mono) (simp add: message)
  show ?thesis
    by (rule handler_keeps.Handle_keeps [OF handler_inv [OF assms(1)] i _ message(2)])
      (auto simp: handler_of_simps message(1))
next
  case (timeout oe)
  then show ?thesis
    using manager_keeps.processDue_keeps [OF manager_inv [OF assms(1)] assms(3)] by blast
next
  case flush
  then show ?thesis using queue_keeps.flushDue_keeps [OF queue_inv [OF assms(1)] assms(3)] by simp
qed

lemma system_run_inv:
  assumes "keys_apart cfg mode jc" and "system_run X cfg lg mode jc w0 E w" and "sys_inv cfg lg mode jc {} w0"
  shows "sys_inv cfg lg mode jc E w"
  using assms(2,3) by (induction rule: system_run.induct) (simp_all add: system_step_inv [OF assms(1)])

end

text \<open>A world in which nothing has happened yet for the configuration.\<close>

definition fresh ::
  "('c, 'r, 'k) ext \<Rightarrow> ('c \<Rightarrow> cql_db) \<Rightarrow> ('r \<Rightarrow> string \<Rightarrow> redis_value) \<Rightarrow> ('k \<Rightarrow> sent_message list) \<Rightarrow>
   processor_config \<Rightarrow> impl \<Rightarrow> mode \<Rightarrow> join_config \<Rightarrow> ('c, 'r, 'k) world \<Rightarrow> bool"
where
  "fresh X rows db sent cfg lg mode jc w \<longleftrightarrow>
     groups_of rows cfg mode jc (wCql w) = Map.empty \<and> sent (wKafka w) = []
     \<and> wPending w (dqId (queue_of X cfg lg mode jc)) = []
     \<and> r_zset (db (wRedis w) (delay_key jc)) = Map.empty"

lemma fresh_inv: "fresh X rows db sent cfg lg mode jc w \<Longrightarrow> system_inv X rows db sent cfg lg mode jc {} w"
  by (simp add: fresh_def system_inv_def parked_ok_def queue_of_simps)


section \<open>The contracts of a wired configuration\<close>

text \<open>
  A deployment with one of its configurations: what the handler, the manager and the queue ask of their
  services holds of what \<open>Processor.wire\<close> gives them, and so does what their invariant asks.
\<close>

locale wired = deployment X rows db sent commits
  for X :: "('c, 'r, 'k) ext" and rows :: "'c \<Rightarrow> cql_db" and db :: "'r \<Rightarrow> string \<Rightarrow> redis_value"
    and sent :: "'k \<Rightarrow> sent_message list" and commits :: "'k \<Rightarrow> kgo_record list" +
  fixes cfg :: processor_config and lg :: impl and mode :: mode and jc :: join_config and E :: "event set"
  assumes apart: "keys_apart cfg mode jc"

sublocale wired \<subseteq> handler: handler_services "handler_of X cfg lg mode jc" "groups_of rows cfg mode jc"
    "kafka_producer X" sent "seen_of db cfg mode jc" "tracked_of db mode jc"
  by (rule handler_meets [OF apart client.producer_laws_axioms])

sublocale wired \<subseteq> manager: manager_services "manager_of X cfg lg mode jc" "groups_of rows cfg mode jc"
    "kafka_producer X" sent X db "tracked_of db mode jc"
  by (rule manager_meets [OF apart])

sublocale wired \<subseteq> queue: queue_services "queue_of X cfg lg mode jc" "store_of X cfg mode jc"
    "groups_of rows cfg mode jc" "kafka_producer X" sent
  by (rule queue_meets)

sublocale wired \<subseteq> handler_safe: handler_keeps "sys_inv cfg lg mode jc E" "handler_of X cfg lg mode jc"
    "\<lambda>x raw s p. \<exists>e\<in>E. evHash e = x \<and> evStream e = s \<and> evPayload e = p" "shown_from E" "joined_doc E jc"
  by (rule handler_inv [OF apart])

sublocale wired \<subseteq> manager_safe: manager_keeps "sys_inv cfg lg mode jc E" "manager_of X cfg lg mode jc" X
    "shown_from E" "partial_doc E jc"
  by (rule manager_inv [OF apart])

sublocale wired \<subseteq> queue_safe: queue_keeps "sys_inv cfg lg mode jc E" "queue_of X cfg lg mode jc" X
    "joined_doc E jc"
  by (rule queue_inv [OF apart])


end
