(* ===== verification/Isolation.thy ===== *)
theory Isolation
  imports System
begin

text \<open>
  Several join configurations in one processor.  A configuration has rows of its own in the shared table,
  and Redis keys of its own; \<open>within\<close> says that a change stays inside them, and every step of the
  configuration's goroutines does.
\<close>

section \<open>The footprint of a configuration\<close>

definition own_row :: "join_config \<Rightarrow> cql_value list \<Rightarrow> bool" where
  "own_row jc key \<longleftrightarrow> (\<exists>x. key = [CUuid (ConfigID jc), CBlob x])"

definition within ::
  "('c \<Rightarrow> cql_db) \<Rightarrow> ('r \<Rightarrow> string \<Rightarrow> redis_value) \<Rightarrow> processor_config \<Rightarrow> nat \<Rightarrow> join_config \<Rightarrow>
   ('c, 'r, 'k) world \<Rightarrow> ('c, 'r, 'k) world \<Rightarrow> bool"
where
  "within rows db cfg i jc w w' \<longleftrightarrow>
     (\<forall>t key. \<not> own_row jc key \<longrightarrow> rows (wCql w') t key = rows (wCql w) t key)
     \<and> (\<forall>key. key \<notin> insert (delay_key jc) (own_keys cfg (Multi i) jc) \<longrightarrow> db (wRedis w') key = db (wRedis w) key)
     \<and> (\<forall>j. j \<noteq> i \<longrightarrow> wPending w' j = wPending w j)"

lemma within_refl: "within rows db cfg i jc w w"
  by (simp add: within_def)

lemma within_service: "service_invariant (within rows db cfg i jc w0)"
  by unfold_locales (simp add: within_def)

lemma within_cql:
  "within rows db cfg i jc w0 w \<Longrightarrow> cql_only w w' \<Longrightarrow>
    (\<And>t key. \<not> own_row jc key \<Longrightarrow> rows (wCql w') t key = rows (wCql w) t key) \<Longrightarrow> within rows db cfg i jc w0 w'"
  by (simp add: within_def cql_only_def)

lemma within_redis:
  assumes "within rows db cfg i jc w0 w" and "redis_at db K w w'"
    and "K \<subseteq> insert (delay_key jc) (own_keys cfg (Multi i) jc)"
  shows "within rows db cfg i jc w0 w'"
proof -
  have "db (wRedis w') key = db (wRedis w) key"
    if "key \<notin> insert (delay_key jc) (own_keys cfg (Multi i) jc)" for key
    using redis_atD(4) [OF assms(2), of key] assms(3) that by blast
  with assms(1) show ?thesis unfolding within_def redis_atD(1-3) [OF assms(2)] by simp
qed

lemma within_kafka: "within rows db cfg i jc w0 w \<Longrightarrow> kafka_only w w' \<Longrightarrow> within rows db cfg i jc w0 w'"
  by (simp add: within_def kafka_only_def)

section \<open>The scoped store\<close>

context scylla
begin

text \<open>A statement on the rows of a configuration leaves the others alone, even when it fails.\<close>

lemma exec_other:
  assumes "cql_exec X q c = (oe, c')" and "q = CqlUpdate t sets wh \<or> q = CqlDelete t wh"
    and "key \<noteq> map snd wh"
  shows "rows c' t' key = rows c t' key"
  using exec_ok [of q c c'] exec_err [of q c _ c'] assms by (cases oe) (auto simp: cql_effect_def)

lemma scoped_only_other:
  assumes "ssUpsertParticipantOnly (scoped_iface X (NewScopedStore st (ConfigID jc))) x raw cid s p w = (oe, w')"
    and "\<not> own_row jc key"
  shows "rows (wCql w') t key = rows (wCql w) t key"
  using assms
  by (auto simp: scoped_iface_def NewScopedStore_def Store_UpsertParticipantOnlyV2_def time_Now_def on_cql_def
      upsert_statement_v2_def v2_key_def own_row_def split: prod.splits intro!: exec_other)

lemma scoped_get_other:
  assumes "ssGetState (scoped_iface X sc) x w = (r, w')"
  shows "rows (wCql w') = rows (wCql w)"
proof -
  obtain res c where q: "cql_scan X (CqlSelect state_columns (stKeyspace (stCfg (scStore sc)), ''join_state_v2'')
    (v2_key (scConfigID sc) x)) (wCql w) = (res, c)" by fastforce
  with assms have "wCql w' = c"
    by (auto simp: scoped_iface_def Store_GetStateV2_def on_cql_def Let_def split: sum.splits list.splits if_splits)
  with scan_frame [OF q] show ?thesis by simp
qed

lemma scoped_upsert_other:
  assumes "ssUpsertParticipant (scoped_iface X (NewScopedStore st (ConfigID jc))) x raw cid s p w = (r, w')"
    and "\<not> own_row jc key"
  shows "rows (wCql w') t key = rows (wCql w) t key"
proof -
  let ?S = "scoped_iface X (NewScopedStore st (ConfigID jc))"
  obtain oe w1 where o: "ssUpsertParticipantOnly ?S x raw cid s p w = (oe, w1)" by fastforce
  from assms(1) o have "w' = w1 \<or> ssGetState ?S x w1 = (r, w')"
    by (auto simp: scoped_iface_def Store_UpsertParticipantV2_def Store_UpsertParticipantOnlyV2_def
        Let_def split: prod.splits option.splits)
  with scoped_get_other scoped_only_other [OF o assms(2)] show ?thesis by metis
qed

lemma scoped_delete_other:
  assumes "ssDeleteState (scoped_iface X (NewScopedStore st (ConfigID jc))) x w = (oe, w')"
    and "\<not> own_row jc key"
  shows "rows (wCql w') t key = rows (wCql w) t key"
  using assms
  by (auto simp: scoped_iface_def NewScopedStore_def Store_DeleteStateV2_def on_cql_def v2_key_def own_row_def
      split: prod.splits intro!: exec_other)

end

section \<open>Every step stays within\<close>

context deployment
begin

lemma within_produce:
  "within rows db cfg i jc w0 w \<Longrightarrow> prProduceSync (kafka_producer X) topic k d w = (oe, w') \<Longrightarrow>
    within rows db cfg i jc w0 w'"
  by (rule within_kafka [OF _ client.produce_frame])

lemma within_delete:
  assumes "within rows db cfg i jc w0 w" and "ssDeleteState (store_of X cfg (Multi i) jc) x w = (oe, w')"
  shows "within rows db cfg i jc w0 w'"
  using state_store_laws.delete_frame [OF store_of_laws assms(2)]
  by (intro within_cql [OF assms(1)] scoped_delete_other [OF assms(2) [unfolded store_of_def mode.case]]) simp_all

lemma within_get:
  assumes "within rows db cfg i jc w0 w" and "ssGetState (store_of X cfg (Multi i) jc) x w = (r, w')"
  shows "within rows db cfg i jc w0 w'"
  using state_store_laws.get_frame [OF store_of_laws assms(2)]
    scoped_get_other [OF assms(2) [unfolded store_of_def mode.case]]
  by (intro within_cql [OF assms(1)]) simp_all

lemma within_schedule:
  assumes "within rows db cfg i jc w0 w"
  shows "within rows db cfg i jc w0 (Queue_Schedule X (queue_of X cfg lg (Multi i) jc) x d mk t w)"
proof -
  let ?q = "queue_of X cfg lg (Multi i) jc" and ?w' = "Queue_Schedule X (queue_of X cfg lg (Multi i) jc) x d mk t w"
  have l: "logger_laws (dqLog ?q)" by (simp add: queue_of_simps impl_logs.logger_laws_axioms)
  have i: "dqId ?q = i" by (simp add: queue_of_def NewQueue_def)
  note fr = Schedule_frame(1) [OF l, of x d mk t w] Schedule_frame(5) [OF l]
  show ?thesis
  proof (cases "dqRedisKey ?q = ''''")
    case True
    then show ?thesis
      using Schedule_pending [OF l, of x d mk t w] assms fr(1) i by (simp add: within_def)
  next
    case False
    then have "dqRedisKey ?q = delay_key jc" by (simp add: queue_of_simps split: if_splits)
    with Schedule_member(1) [OF l queue_of_simps(5) False, of x d mk t w] assms fr
    show ?thesis by (simp add: within_def)
  qed
qed

lemma handler_within:
  "handler_keeps (within rows db cfg i jc w0) (handler_of X cfg lg (Multi i) jc)
    (\<lambda>_ _ _ _. True) (\<lambda>_ _. True) (\<lambda>_ _. True)"
proof (rule handler_of_keeps [OF within_service], goal_cases)
  case (1 w w')
  then show ?case by (rule within_redis) blast
next
  case (2 w x raw s p cid oe w')
  then show ?case
    using state_store_laws.only_frame [OF store_of_laws 2(3)]
    by (intro within_cql [OF 2(1)] scoped_only_other [OF 2(3) [unfolded store_of_def mode.case]]) simp_all
next
  case (3 w x raw s p cid r w')
  have "within rows db cfg i jc w0 w'"
    using state_store_laws.upsert_frame [OF store_of_laws 3(3)]
    by (intro within_cql [OF 3(1)] scoped_upsert_other [OF 3(3) [unfolded store_of_def mode.case]]) simp_all
  then show ?case by simp
next
  case (4 w x oe w')
  then show ?case by (rule within_delete)
next
  case (6 w x d k t)
  then show ?case by (intro within_schedule)
next
  case (7 w x d k oe w')
  then show ?case by (intro within_produce [OF 7(1,3)])
next
  case (8 w d k oe w')
  then show ?case by (intro within_produce [OF 8(1,3)])
qed simp

lemma manager_within:
  "manager_keeps (within rows db cfg i jc w0) (manager_of X cfg lg (Multi i) jc) X (\<lambda>_ _. True) (\<lambda>_ _. True)"
proof (rule manager_of_keeps [OF within_service], goal_cases)
  case (1 w w')
  then show ?case by (rule within_redis) blast
next
  case (2 w x r w')
  then show ?case by (simp add: within_get [OF 2])
next
  case (3 w x oe w')
  then show ?case by (rule within_delete)
next
  case (5 w x d k oe w')
  then show ?case by (intro within_produce [OF 5(1,3)])
qed simp

lemma queue_within:
  "queue_keeps (within rows db cfg i jc w0) (queue_of X cfg lg (Multi i) jc) X (\<lambda>_ _. True)"
proof -
  let ?q = "queue_of X cfg lg (Multi i) jc"
  have key: "dqRedisKey ?q \<noteq> '''' \<Longrightarrow> dqRedisKey ?q = delay_key jc" by (simp add: queue_of_simps split: if_splits)
  show ?thesis
  proof (intro queue_keeps.intro queue_keeps_axioms.intro, goal_cases)
    case 1
    show ?case by (rule within_service)
  next
    case 2
    show ?case by (simp add: queue_of_simps impl_logs.logger_laws_axioms)
  next
    case (3 P w x d k oe w')
    then have "prProduceSync (kafka_producer X) (EgressTopic cfg) k d w = (oe, w')" by (simp add: queue_of_simps)
    from within_produce [OF 3(2) this] show ?case .
  next
    case (4 S w x oe w')
    then show ?case using within_delete [OF 4(2)] by (simp add: queue_of_simps)
  next
    case (6 w ps)
    then show ?case by (simp add: within_def set_pending_def queue_of_def NewQueue_def)
  next
    case (7 w lo up n r w')
    then show ?case by (intro within_redis [OF 7(1) z_range_at [OF 7(3)]]) simp
  next
    case (9 w member oe w')
    then show ?case by (intro within_redis [OF 9(1) z_rem_at [OF 9(3)]]) (simp add: key [OF 9(2)])
  qed simp_all
qed

lemma system_step_within:
  assumes "system_step X cfg lg (Multi i) jc E w F w'"
  shows "within rows db cfg i jc w w'"
  using assms
proof cases
  case (message rec oe)
  show ?thesis by (rule handler_keeps.Handle_keeps [OF handler_within within_refl _ message(2)]) simp
next
  case (timeout oe)
  show ?thesis by (rule manager_keeps.processDue_keeps [OF manager_within within_refl timeout(3)])
next
  case flush
  show ?thesis unfolding flush by (rule queue_keeps.flushDue_keeps [OF queue_within within_refl])
qed

end

section \<open>Two configurations\<close>

lemma within_groups:
  assumes "within rows db cfg i jc w w'" and "ConfigID jc' \<noteq> ConfigID jc"
  shows "groups_of rows cfg (Multi j) jc' (wCql w') = groups_of rows cfg (Multi j) jc' (wCql w)"
  using assms
  by (auto simp: groups_of_def groups_v2_def NewScopedStore_def within_def own_row_def fun_eq_iff)

lemma within_single:
  assumes "within rows db cfg i jc w w'"
  shows "groups_of rows cfg Single jc' (wCql w') = groups_of rows cfg Single jc' (wCql w)"
  using assms by (auto simp: groups_of_def groups_v1_def within_def own_row_def fun_eq_iff)

text \<open>The text form of a 16-byte id is injective, so the Redis keys of two ids differ.\<close>

lemma uuid_String_inject:
  assumes "length u = 16" "length v = 16" "uuid_String u = uuid_String v"
  shows "u = v"
proof -
  have cut: "hex_EncodeToString u = take 8 s @ take 4 (drop 9 s) @ take 4 (drop 14 s) @ take 4 (drop 19 s) @ drop 24 s"
    if "length u = 16" "s = uuid_String u" for u s
  proof -
    define h where "h = hex_EncodeToString u"
    have l: "length h = 32" by (simp add: h_def hex_length that(1))
    have "s = take 8 h @ ''-'' @ take 4 (drop 8 h) @ ''-'' @ take 4 (drop 12 h) @ ''-'' @ take 4 (drop 16 h) @ ''-'' @ drop 20 h"
      by (simp add: that(2) uuid_String_def h_def Let_def)
    then have "take 8 s @ take 4 (drop 9 s) @ take 4 (drop 14 s) @ take 4 (drop 19 s) @ drop 24 s
      = take 8 h @ take 4 (drop 8 h) @ take 4 (drop 12 h) @ take 4 (drop 16 h) @ drop 20 h"
      using l by simp
    also have "\<dots> = h"
      using append_take_drop_id [of 8 h] append_take_drop_id [of 4 "drop 8 h"]
        append_take_drop_id [of 4 "drop 12 h"] append_take_drop_id [of 4 "drop 16 h"] by simp
    finally show ?thesis by (simp add: h_def)
  qed
  from cut [OF assms(1) refl] cut [OF assms(2) refl] assms(3)
  have "hex_EncodeToString u = hex_EncodeToString v" by simp
  then show ?thesis by (simp add: hex_inject)
qed

lemma timer_keys_apart:
  assumes "length (ConfigID jc) = 16" "length (ConfigID jc') = 16" "ConfigID jc \<noteq> ConfigID jc'"
  shows "timeouts_key (Multi i) jc \<noteq> timeouts_key (Multi j) jc'" "partial_key (Multi i) jc \<noteq> partial_key (Multi j) jc'"
    "bloom_key cfg (Multi i) jc \<noteq> bloom_key cfg (Multi j) jc'"
  using assms uuid_String_inject
  by (auto simp: timeouts_key_def partial_key_def bloom_key_def suffix_of_def)

end
