(* ===== verification/Demo_Runs.thy ===== *)
theory Demo_Runs
  imports Demo Isolation
begin

text \<open>
  Lists of messages handled one after the other, and further concrete runs: the demo join with its
  streams in the other order, its deadlines, its delay queue and its consumer.
\<close>

section \<open>Handling a list of messages\<close>

text \<open>The world after all messages have been handled without an error; \<open>None\<close> when one failed.\<close>

fun handle_all ::
  "('c, 'r, 'k) ext \<Rightarrow> ('c, 'r, 'k) world handler \<Rightarrow> message list \<Rightarrow> ('c, 'r, 'k) world \<Rightarrow>
   ('c, 'r, 'k) world option"
where
  "handle_all X h [] w = Some w"
| "handle_all X h (rec # recs) w = (case Handle X h rec w of
     (None, w1) \<Rightarrow> handle_all X h recs w1
   | (Some err, w1) \<Rightarrow> None)"

context deployment
begin

lemma handle_all_join_run:
  assumes "keys_apart cfg mode jc" and "2 \<le> join_N jc" and "PostJoinDelay jc \<le> 0" and "CorrectionsTopic cfg = []"
    and "handle_all X (handler_of X cfg lg mode jc) recs w = Some w'" and "map (event_of jc) recs = map Some es"
    and "marked (view_of rows db sent cfg mode jc w)"
  shows "join_run jc (EgressTopic cfg) es (view_of rows db sent cfg mode jc w) (view_of rows db sent cfg mode jc w')"
  using assms(5-7)
proof (induction recs arbitrary: w es)
  case Nil
  then show ?case by simp
next
  case (Cons rec recs)
  from Cons.prems(2) obtain e fs where e: "es = e # fs" "event_of jc rec = Some e" "map (event_of jc) recs = map Some fs"
    by (cases es) auto
  from Cons.prems(1) obtain w1 where w1: "Handle X (handler_of X cfg lg mode jc) rec w = (None, w1)"
    "handle_all X (handler_of X cfg lg mode jc) recs w1 = Some w'"
    by (auto split: prod.splits option.splits)
  have "join_next jc (EgressTopic cfg) e (view_of rows db sent cfg mode jc w) (view_of rows db sent cfg mode jc w1)
      \<and> marked (view_of rows db sent cfg mode jc w1)"
    using Handle_view [OF assms(1) w1(1)] handle_step_ok_next assms(2-4) Cons.prems(3) e(2) by auto
  with Cons.IH [OF w1(2) e(3)] show ?case by (auto simp: e(1) intro: join_run.intros)
qed

end

section \<open>The streams in the other order\<close>

definition demo_row_b :: "(string \<times> cell) list" where
  "demo_row_b = [(''join_key_raw'', CVal (CText ''1'')), (''config_id'', CVal (CUuid uuid_Nil)),
     (''participant_data'', CBlobMap [(''b'', demo_payload ''q'')]),
     (''arrival_timestamps'', CTimeMap [(''b'', 0)])]"

definition demo_b_first :: ref_world where
  "demo_b_first = demo_after_a\<lparr>
     wCql := \<lparr>rcRows = [(((''omni_joiner'', ''join_state''), [CBlob (HashRaw ''1'')]), demo_row_b)], rcFaults = []\<rparr>,
     wMetrics := [Inc EventsProcessedTotal [''demo'', ''b'']]\<rparr>"

lemma demo_run_b_first:
  "Handle ref_ext (handler_of ref_ext demo_cfg demo_log Single demo_jc) (demo_message ''b'' ''q'') ref_empty =
    (None, demo_b_first)"
  by (simp add: demo_defs demo_json run_defs demo_b_first_def demo_after_a_def demo_row_b_def)

lemma demo_projection_b:
  "projection_Apply [(''b'', demo_payload ''q''), (''a'', demo_payload ''p'')] (Projection demo_jc) = Inr demo_doc"
  by code_simp

definition demo_a_second :: ref_world where
  "demo_a_second = demo_after_b\<lparr>
     wMetrics := [Observe StateAgeSeconds [''demo''] 0, Observe JoinLatencySeconds [''demo''] 0,
       Inc JoinSuccessTotal [''demo''], Inc EventsProcessedTotal [''demo'', ''a''],
       Inc EventsProcessedTotal [''demo'', ''b'']]\<rparr>"

lemma demo_run_a_second:
  "Handle ref_ext (handler_of ref_ext demo_cfg demo_log Single demo_jc) (demo_message ''a'' ''p'') demo_b_first =
    (None, demo_a_second)"
proof -
  have p: "projection_Apply [(''b'', demo_payload ''q''), (''a'', demo_payload ''p'')]
      [\<lparr>pfOutput = ''x'', pfStream = ''a'', pfField = ''v''\<rparr>, \<lparr>pfOutput = ''y'', pfStream = ''b'', pfField = ''v''\<rparr>]
    = Inr demo_doc" using demo_projection_b by (simp add: demo_jc_def)
  have d: "demo_doc \<noteq> []" by (simp add: demo_doc_def)
  show ?thesis
    by (simp add: demo_defs demo_json run_defs join_defs demo_after_a_def demo_after_b_def demo_b_first_def
        demo_a_second_def demo_row_b_def p d uuid_Nil_def)
qed

lemma demo_run_ab:
  "handle_all ref_ext (handler_of ref_ext demo_cfg demo_log Single demo_jc)
    [demo_message ''a'' ''p'', demo_message ''b'' ''q''] ref_empty = Some demo_after_b"
  by (simp add: demo_run_a demo_run_b)

lemma demo_run_ba:
  "handle_all ref_ext (handler_of ref_ext demo_cfg demo_log Single demo_jc)
    [demo_message ''b'' ''q'', demo_message ''a'' ''p''] ref_empty = Some demo_a_second"
  by (simp add: demo_run_b_first demo_run_a_second)

section \<open>The state after the first event\<close>

definition demo_state_a :: join_state where
  "demo_state_a = \<lparr>JoinKeyHash = HashRaw ''1'', JoinKeyRaw = ''1'', jsConfigID = uuid_Nil,
     ParticipantData = [(''a'', demo_payload ''p'')], ArrivalTimestamps = [(''a'', 0)], IsCompleted = False\<rparr>"

lemma demo_get_a:
  "ssGetState (store_of ref_ext demo_cfg Single demo_jc) (HashRaw ''1'') demo_after_a =
    (Inr (Some demo_state_a), demo_after_a)"
  by (simp add: demo_defs run_defs join_defs demo_after_a_def demo_row_def demo_state_a_def uuid_Nil_def)

lemma demo_decodable: "groups_decode (jGroups (demo_view demo_after_a))"
  by (simp add: demo_view_a groups_decode_def group_decodes_def decodes_def is_ok_def demo_json)

section \<open>The demo configuration is wired\<close>

interpretation demo: wired ref_ext ref_rows ref_db rkSent rkCommits demo_cfg demo_log Single demo_jc
    "{demo_event ''a'' ''p'', demo_event ''b'' ''q''}"
  by unfold_locales (rule demo_keys_apart)

end
