(* ===== verification/Scores.thy ===== *)
theory Scores
  imports Consumer_Api
begin

text \<open>
  Scores of the Redis sorted sets.  A \<open>float64\<close> holds every integer below \<open>2^53\<close> exactly, so deadlines
  in seconds compare as the integers do; nanoseconds since 1970 are above that and are rounded.
\<close>

lemma score_le_exact:
  assumes "\<bar>i\<bar> < 2 ^ 53" and "\<bar>n\<bar> < 2 ^ 53"
  shows "score_le (f64_int i) n \<longleftrightarrow> i \<le> n"
proof -
  from f64_of_int_exact [OF assms(1)] obtain x where x: "f64_of_int i = Some x" "f64_units x = i * 2 ^ 1074" .
  from f64_of_int_exact [OF assms(2)] obtain y where y: "f64_of_int n = Some y" "f64_units y = n * 2 ^ 1074" .
  have "i * 2 ^ 1074 \<le> n * (2 :: int) ^ 1074 \<longleftrightarrow> i \<le> n"
    by (rule mult_le_cancel_right_pos) (rule zero_less_power, simp)
  with x y show ?thesis by (simp only: score_le_def f64_int_def option.case)
qed

end
