(* ===== verification/Demo_Timers.thy ===== *)
theory Demo_Timers
  imports Demo_Runs Scores
begin

text \<open>
  Runs of the timeout manager on the demo join: its only event so far is on stream \<open>a\<close>, and the clock has
  passed its deadline.  Under the inner policy the state is dropped, under the partial policy what there
  is of the document is published first.
\<close>

definition demo_late :: ref_world where
  "demo_late = demo_after_a\<lparr>wClock := (\<lambda>_. 700 * ns_second)\<rparr>"

definition demo_pjc :: join_config where
  "demo_pjc = demo_jc\<lparr>Egress := EgressPartial\<rparr>"

definition demo_partial_doc :: bytes where
  "demo_partial_doc = ''{'' @ [dquote] @ ''x'' @ [dquote] @ '':'' @ [dquote] @ ''p'' @ [dquote] @ ''}''"

lemma demo_partial_projection:
  "projection_Apply [(''a'', demo_payload ''p'')] (Projection demo_jc) = Inr demo_partial_doc"
  by code_simp

definition demo_dropped :: ref_world where
  "demo_dropped = demo_late\<lparr>
     wCql := \<lparr>rcRows = [], rcFaults = []\<rparr>,
     wRedis := \<lparr>rrVals = [(''bloom'', RvBloom [hex_EncodeToString (HashRaw ''1'')]),
        (''omni_joiner:timeouts'', RvZ [])], rrFaults = []\<rparr>,
     wTick := 3\<rparr>"

definition demo_published :: ref_world where
  "demo_published = demo_dropped\<lparr>
     wKafka := \<lparr>rkSent = [(''out'', Some (HashRaw ''1''), demo_partial_doc)], rkCommits = [], rkPolls = [], rkFaults = []\<rparr>\<rparr>"

lemma demo_score: "score_le (f64_int 600) 700"
  by (simp add: score_le_exact)

lemmas timer_defs = Manager_processDue_def ref_range_def int_of_text_string process_member_def hex_roundtrip
  finish_member_def Manager_ZRem_def AList.clearjunk.simps partial_egress_def Manager_publish_def

lemma demo_expire:
  "Manager_processDue ref_ext (manager_of ref_ext demo_cfg demo_log Single demo_jc) demo_late = (None, demo_dropped)"
  by (simp add: demo_defs run_defs join_defs timer_defs demo_after_a_def demo_late_def demo_dropped_def demo_row_def
      demo_score uuid_Nil_def EgressInner_def EgressPartial_def)

lemma demo_expire_partial:
  "Manager_processDue ref_ext (manager_of ref_ext demo_cfg demo_log Single demo_pjc) demo_late = (None, demo_published)"
proof -
  have p: "projection_Apply [(''a'', demo_payload ''p'')]
      [\<lparr>pfOutput = ''x'', pfStream = ''a'', pfField = ''v''\<rparr>, \<lparr>pfOutput = ''y'', pfStream = ''b'', pfField = ''v''\<rparr>]
    = Inr demo_partial_doc" using demo_partial_projection by (simp add: demo_jc_def)
  show ?thesis
    by (simp add: demo_defs run_defs join_defs timer_defs demo_after_a_def demo_late_def demo_dropped_def demo_row_def
        demo_published_def demo_pjc_def demo_score uuid_Nil_def p EgressInner_def EgressPartial_def)
qed

lemma demo_pjc_apart: "keys_apart demo_cfg Single demo_pjc"
  by (simp add: keys_apart_def bloom_key_def suffix_of_def timeouts_key_def partial_key_def delay_key_def demo_pjc_def demo_defs)

abbreviation "demo_timer_view \<equiv> timer_view_of ref_rows ref_db rkSent demo_cfg Single demo_pjc"

lemma demo_pjc_egress: "Egress demo_pjc = EgressPartial"
  by (simp add: demo_pjc_def)

lemma demo_pjc_groups: "groups_of ref_rows demo_cfg Single demo_pjc = groups_of ref_rows demo_cfg Single demo_jc"
  by (simp add: groups_of_def fun_eq_iff)

lemma demo_timer_views:
  "tvGroups (demo_timer_view demo_late) = [HashRaw ''1'' \<mapsto>
     \<lparr>gRaw = ''1'', gData = [''a'' \<mapsto> demo_payload ''p''], gTimes = [''a'' \<mapsto> 0]\<rparr>]"
  "tvSent (demo_timer_view demo_late) = []" "tvGroups (demo_timer_view demo_published) = Map.empty"
  "tvSent (demo_timer_view demo_published) = [(''out'', Some (HashRaw ''1''), demo_partial_doc)]"
  by (simp_all add: timer_view_of_def timer_abs_def demo_pjc_groups demo_groups demo_late_def demo_published_def
      demo_dropped_def demo_after_a_def ref_empty_def ref_world_def demo_group_a fun_eq_iff)

lemma demo_timer_deadlines:
  "tvDeadlines (demo_timer_view demo_late) = [hex_EncodeToString (HashRaw ''1'') \<mapsto> f64_int 600]"
  by (simp add: timer_view_of_def timer_abs_def ref_db_values timeouts_key_def suffix_of_def demo_late_def
      demo_after_a_def ref_empty_def ref_world_def rv_z_def)


section \<open>Members that are no keys, and states that cannot be read\<close>

definition demo_poisoned :: ref_world where
  "demo_poisoned = demo_late\<lparr>wRedis := \<lparr>rrVals = [(''omni_joiner:timeouts'', RvZ [(''zz'', f64_int 600)])], rrFaults = []\<rparr>\<rparr>"

definition demo_unreadable :: ref_world where
  "demo_unreadable = demo_late\<lparr>wCql := (wCql demo_late)\<lparr>rcFaults := [True]\<rparr>\<rparr>"

lemma demo_not_hex: "\<not> is_ok (hex_DecodeString ''zz'')"
  by code_simp

lemma demo_poisoned_run:
  "fst (Manager_processDue ref_ext (manager_of ref_ext demo_cfg demo_log Single demo_pjc) demo_poisoned) = None"
  by (simp add: demo_defs run_defs timer_defs demo_poisoned_def demo_late_def demo_after_a_def demo_pjc_def)

lemma demo_poisoned_deadlines: "tvDeadlines (demo_timer_view demo_poisoned) = [''zz'' \<mapsto> f64_int 600]"
  by (simp add: timer_view_of_def timer_abs_def ref_db_values timeouts_key_def suffix_of_def demo_poisoned_def rv_z_def)

lemma demo_unreadable_run:
  "\<exists>err w1 r. ssGetState (store_of ref_ext demo_cfg Single demo_pjc) (HashRaw ''1'') demo_unreadable = (Inl err, w1)
    \<and> z_rem ref_ext (timeouts_key Single demo_pjc) (hex_EncodeToString (HashRaw ''1'')) (wRedis w1) = (None, r)"
  by (simp add: demo_defs run_defs join_defs demo_unreadable_def demo_late_def demo_after_a_def demo_pjc_def
      ref_error_def gocql_ErrNotFound_def)

lemma demo_unreadable_view:
  "tvGroups (demo_timer_view demo_unreadable) (HashRaw ''1'') \<noteq> None"
  "tvDeadlines (demo_timer_view demo_unreadable) = [hex_EncodeToString (HashRaw ''1'') \<mapsto> f64_int 600]"
proof -
  have "demo_timer_view demo_unreadable = demo_timer_view demo_late"
    by (simp add: timer_view_of_def timer_abs_def demo_unreadable_def demo_pjc_groups demo_groups fun_eq_iff)
  then show "tvGroups (demo_timer_view demo_unreadable) (HashRaw ''1'') \<noteq> None"
    "tvDeadlines (demo_timer_view demo_unreadable) = [hex_EncodeToString (HashRaw ''1'') \<mapsto> f64_int 600]"
    by (simp_all add: demo_timer_views demo_timer_deadlines)
qed

end
