(* ===== verification/Delay_Order.thy ===== *)
theory Delay_Order
  imports Deployment Scores "HOL-Library.Sublist"
begin

text \<open>
  What a flush of the delay queue sends: messages of due items only, each at most once, in the order in
  which they wait; and what becomes of an item whose produce call fails.
\<close>

section \<open>Memory mode\<close>

definition pending_message :: "string \<Rightarrow> pending \<Rightarrow> sent_message" where
  "pending_message topic p = (topic, pdMsgKey p, pdJoined p)"

lemma flush_step_sent: "flush_step h msg a b \<Longrightarrow> fvSent b = fvSent a \<or> fvSent b = fvSent a @ [msg]"
  by (cases rule: flush_step.cases, assumption) auto

lemma flush_step_group:
  "flush_step h msg a b \<Longrightarrow> fvGroups b x \<noteq> fvGroups a x \<Longrightarrow>
    x = h \<and> fvGroups b x = None \<and> fvSent b = fvSent a @ [msg]"
  by (cases rule: flush_step.cases, assumption) (auto simp: maybe_removes_def split: if_splits)

context queue_services
begin

lemma publish_pending_sim:
  "flush_step (pdKeyHash p) (pending_message (dqTopic q) p) (view w) (view (publish_pending q p w))"
  unfolding publish_pending_def pending_message_def by (rule publish_sim)

lemma publish_all_sent:
  "\<exists>ms. sent (wKafka (fold (publish_pending q) ps w)) = sent (wKafka w) @ ms
    \<and> subseq ms (map (pending_message (dqTopic q)) ps)"
proof (induction ps arbitrary: w)
  case Nil
  then show ?case by simp
next
  case (Cons p ps)
  obtain ms where ms: "sent (wKafka (fold (publish_pending q) ps (publish_pending q p w)))
      = sent (wKafka (publish_pending q p w)) @ ms" "subseq ms (map (pending_message (dqTopic q)) ps)"
    using Cons.IH by blast
  have "sent (wKafka (publish_pending q p w)) = sent (wKafka w)
      \<or> sent (wKafka (publish_pending q p w)) = sent (wKafka w) @ [pending_message (dqTopic q) p]"
    using flush_step_sent [OF publish_pending_sim [of p w]] by (simp add: flush_abs_def)
  then show ?case
  proof
    assume "sent (wKafka (publish_pending q p w)) = sent (wKafka w)"
    with ms show ?thesis by (intro exI [of _ ms]) (simp add: list_emb_Cons)
  next
    assume "sent (wKafka (publish_pending q p w)) = sent (wKafka w) @ [pending_message (dqTopic q) p]"
    with ms show ?thesis by (intro exI [of _ "pending_message (dqTopic q) p # ms"]) simp
  qed
qed

lemma flush_memory_sent:
  "\<exists>ms. sent (wKafka (Queue_flushDueMemory q w)) = sent (wKafka w) @ ms
    \<and> subseq ms (map (pending_message (dqTopic q))
        (filter (\<lambda>p. pdPublishAt p \<le> wClock w (wTick w)) (wPending w (dqId q))))"
proof -
  define v where "v = set_pending (dqId q) (filter (\<lambda>p. wClock w (wTick w) < pdPublishAt p) (wPending w (dqId q)))
    (w\<lparr>wTick := Suc (wTick w)\<rparr>)"
  have "wKafka v = wKafka w" by (simp add: v_def set_pending_def)
  with publish_all_sent [of "filter (\<lambda>p. pdPublishAt p \<le> wClock w (wTick w)) (wPending w (dqId q))" v]
  show ?thesis by (simp add: flush_memory_step v_def [symmetric])
qed

text \<open>A state leaves the store only after the message of one of the due items of its key.\<close>

lemma publish_all_groups:
  assumes "groups (wCql (fold (publish_pending q) ps w)) x \<noteq> groups (wCql w) x"
  shows "groups (wCql (fold (publish_pending q) ps w)) x = None \<and> (\<exists>p\<in>set ps. pdKeyHash p = x
    \<and> pending_message (dqTopic q) p \<in> set (sent (wKafka (fold (publish_pending q) ps w))))"
  using assms
proof (induction ps arbitrary: w)
  case Nil
  then show ?case by simp
next
  case (Cons p ps)
  let ?v = "publish_pending q p w"
  obtain ms where ms: "sent (wKafka (fold (publish_pending q) ps ?v)) = sent (wKafka ?v) @ ms"
    using publish_all_sent by blast
  show ?case
  proof (cases "groups (wCql (fold (publish_pending q) ps ?v)) x = groups (wCql ?v) x")
    case False
    from Cons.IH [OF this] show ?thesis by auto
  next
    case True
    with Cons.prems have "fvGroups (view ?v) x \<noteq> fvGroups (view w) x" by (simp add: flush_abs_def)
    from flush_step_group [OF publish_pending_sim this] True ms show ?thesis
      by (auto simp: flush_abs_def)
  qed
qed

text \<open>An item whose produce call fails without effect is gone, and was not sent.\<close>

lemma publish_failed:
  assumes "prProduceSync P (dqTopic q) k j w = (Some err, w1)" and "sent (wKafka w1) = sent (wKafka w)"
  shows "sent (wKafka (Queue_publishAndCleanup q h j k w)) = sent (wKafka w)"
  using assms log_onlyD [OF log.warn_only] by (simp add: Queue_publishAndCleanup_def producer)

end

context deployment
begin

lemma lost_when_produce_fails:
  assumes "RedisAddr cfg = ''''" and "wPending w (dqId (queue_of X cfg lg mode jc)) = [p]"
    and "pdPublishAt p \<le> wClock w (wTick w)"
    and "kgo_produce X (EgressTopic cfg) (pdMsgKey p) (pdJoined p) (wKafka w) = (Some err, k')"
    and "sent k' = sent (wKafka w)"
  shows "wPending (Queue_flushDue X (queue_of X cfg lg mode jc) w) (dqId (queue_of X cfg lg mode jc)) = []
    \<and> sent (wKafka (Queue_flushDue X (queue_of X cfg lg mode jc) w)) = sent (wKafka w)"
proof -
  let ?q = "queue_of X cfg lg mode jc"
  define v where "v = set_pending (dqId ?q) [] (w\<lparr>wTick := Suc (wTick w)\<rparr>)"
  have v: "wKafka v = wKafka w" by (simp add: v_def set_pending_def)
  have f: "Queue_flushDue X ?q w = publish_pending ?q p v"
    using assms(1-3) by (simp add: Queue_flushDue_def queue_of_simps flush_memory_step v_def)
  obtain e1 w1 where p: "prProduceSync (kafka_producer X) (dqTopic ?q) (pdMsgKey p) (pdJoined p) v = (Some e1, w1)"
    and w1: "wKafka w1 = k'"
    using assms(4) v
    by (auto simp: kafka_producer_def kafka_ProduceSync_def on_kafka_def queue_of_simps)
  have "sent (wKafka w1) = sent (wKafka v)" using w1 assms(5) v by simp
  from queue_services.publish_failed [OF queue_meets p this] f v
  have "sent (wKafka (Queue_flushDue X ?q w)) = sent (wKafka w)"
    by (simp add: publish_pending_def)
  moreover have "wPending (publish_pending ?q p v) = wPending v"
    unfolding publish_pending_def by (rule queue_services.publish_frame(1) [OF queue_meets])
  ultimately show ?thesis by (simp add: f v_def set_pending_def)
qed

end

end
