(* ===== verification/Demo_Delay.thy ===== *)
theory Demo_Delay
  imports Demo_Timers Delay_Order
begin

text \<open>The delay queue of the demo join in memory, with one completed join that is due and one that is not.\<close>

definition demo_mcfg :: processor_config where
  "demo_mcfg = demo_cfg\<lparr>RedisAddr := ''''\<rparr>"

definition demo_djc :: join_config where
  "demo_djc = demo_jc\<lparr>PostJoinDelay := 500000000\<rparr>"

definition demo_item :: "time \<Rightarrow> pending" where
  "demo_item t = \<lparr>pdKeyHash = HashRaw ''1'', pdJoined = demo_doc, pdMsgKey = None, pdPublishAt = t\<rparr>"

abbreviation "demo_queue \<equiv> queue_of ref_ext demo_mcfg demo_log Single demo_djc"

definition demo_parked :: ref_world where
  "demo_parked = demo_after_a\<lparr>wPending := (\<lambda>_. [demo_item 5, demo_item (- 1)])\<rparr>"

lemma queue_of_id: "dqId (queue_of X cfg lg mode jc) = (case mode of Single \<Rightarrow> 0 | Multi i \<Rightarrow> i)"
  by (simp add: queue_of_def NewQueue_def)

lemma demo_queue_id: "dqId demo_queue = 0" "RedisAddr demo_mcfg = []" "EgressTopic demo_mcfg = ''out''"
  by (simp_all add: queue_of_def NewQueue_def demo_mcfg_def demo_defs)

definition demo_flushed :: ref_world where
  "demo_flushed = demo_after_a\<lparr>wCql := \<lparr>rcRows = [], rcFaults = []\<rparr>,
     wKafka := \<lparr>rkSent = [(''out'', None, demo_doc)], rkCommits = [], rkPolls = [], rkFaults = []\<rparr>,
     wPending := (\<lambda>_. [demo_item 5, demo_item (- 1)])(0 := [demo_item 5]), wTick := 3\<rparr>"

lemma demo_flush: "Queue_flushDue ref_ext demo_queue demo_parked = demo_flushed"
  by (simp add: Queue_flushDue_def queue_of_simps queue_of_id Queue_flushDueMemory_def demo_parked_def
      demo_item_def set_pending_def publish_pending_def Queue_publishAndCleanup_def demo_flushed_def demo_defs run_defs
      join_defs demo_after_a_def demo_row_def demo_mcfg_def demo_djc_def)

text \<open>The broker refuses the one message.\<close>

definition demo_refused :: ref_world where
  "demo_refused = demo_after_a\<lparr>wPending := (\<lambda>_. [demo_item (- 1)]),
     wKafka := \<lparr>rkSent = [], rkCommits = [], rkPolls = [], rkFaults = [True]\<rparr>\<rparr>"

lemma demo_refused_facts:
  "wPending demo_refused (dqId demo_queue) = [demo_item (- 1)]"
  "pdPublishAt (demo_item (- 1)) \<le> wClock demo_refused (wTick demo_refused)"
  "kgo_produce ref_ext (EgressTopic demo_mcfg) (pdMsgKey (demo_item (- 1))) (pdJoined (demo_item (- 1)))
    (wKafka demo_refused) = (Some ref_error, (wKafka demo_refused)\<lparr>rkFaults := []\<rparr>)"
  by (simp_all add: demo_refused_def demo_item_def demo_after_a_def ref_empty_def ref_world_def ref_ext_def
      ref_produce_def ref_fault_def)

end
