(* ===== verification/Demo_Consumer.thy ===== *)
theory Demo_Consumer
  imports Demo_Delay
begin

text \<open>
  Runs of the consumer on the demo join: a fetch whose first record has no stream header, a commit that
  fails once, and a join whose Bloom filter update failed.
\<close>

definition demo_record :: "int \<Rightarrow> (string \<times> string) list \<Rightarrow> kgo_record" where
  "demo_record off hs = \<lparr>krTopic = ''in'', krPartition = 0, krOffset = off, krKey = None,
     krValue = Some (demo_payload ''p''), krHeaders = hs\<rparr>"

definition demo_bad :: kgo_record where "demo_bad = demo_record 0 []"
definition demo_good :: kgo_record where "demo_good = demo_record 1 [(''x-stream-id'', ''a'')]"

abbreviation "demo_handler \<equiv> handler_of ref_ext demo_cfg demo_log Single demo_jc"
abbreviation "demo_partition \<equiv> run_partition ref_ext (HandlerResolverFromSingle demo_handler) (impl_logger demo_log)"

lemma demo_bad_handle:
  "Handle ref_ext demo_handler (recordFromKgo demo_bad) w =
    (Some (ErrFmt ''missing header %q'' [FStr ''x-stream-id'']), w)"
  by (simp add: Handle_def getStreamID_def recordFromKgo_def demo_bad_def demo_record_def streamIDHeader_def)

lemma demo_good_handle:
  "wCql w = \<lparr>rcRows = [], rcFaults = []\<rparr> \<Longrightarrow> wRedis w = \<lparr>rrVals = [], rrFaults = []\<rparr> \<Longrightarrow>
    fst (Handle ref_ext demo_handler (recordFromKgo demo_good) w) = None
    \<and> wKafka (snd (Handle ref_ext demo_handler (recordFromKgo demo_good) w)) = wKafka w"
  by (simp add: demo_defs demo_json run_defs recordFromKgo_def demo_good_def demo_record_def)

lemma ref_empty_commits: "rkCommits (wKafka ref_empty) = []"
  by (simp add: ref_empty_def ref_world_def)

lemma demo_passed_over:
  "rkCommits (wKafka (snd (demo_partition [demo_bad, demo_good] None ref_empty))) \<noteq> rkCommits (wKafka ref_empty)"
proof -
  define v where "v = lgError (impl_logger demo_log) ''handle error''
     [KStr ''topic'', KStr (krTopic demo_bad), KStr ''partition'', KInt (krPartition demo_bad),
      KStr ''offset'', KInt (krOffset demo_bad), KStr ''key'', KStr (case krKey demo_bad of None \<Rightarrow> [] | Some k \<Rightarrow> k),
      KStr ''error'', KErr (ErrFmt ''missing header %q'' [FStr ''x-stream-id''])]
     (metric (Inc HandleErrorsTotal [cfgName (hJoinCfg demo_handler)]) ref_empty)"
  note lg = log_onlyD [OF logger_laws.error_only [OF impl_logs.logger_laws_axioms]]
  have v: "wCql v = \<lparr>rcRows = [], rcFaults = []\<rparr>" "wRedis v = \<lparr>rrVals = [], rrFaults = []\<rparr>"
    "wKafka v = wKafka ref_empty"
    unfolding v_def lg by (simp_all add: ref_empty_def ref_world_def)
  from demo_good_handle [OF v(1,2)] obtain v1 where
    h: "Handle ref_ext demo_handler (recordFromKgo demo_good) v = (None, v1)" "wKafka v1 = wKafka v"
    by (metis prod.collapse snd_conv)
  have c: "commitWithRetry ref_ext demo_good (cfgName (hJoinCfg demo_handler)) (impl_logger demo_log) 3 v1
      = (None, v1\<lparr>wKafka := (wKafka ref_empty)\<lparr>rkCommits := [demo_good], rkFaults := []\<rparr>\<rparr>)"
    using h(2) v(3)
    by (simp add: commitWithRetry_def numeral_3_eq_3 on_kafka_def ref_ext_def ref_commit_def ref_empty_def ref_world_def ref_fault_def)
  have "demo_partition [demo_bad, demo_good] None ref_empty =
      (None, v1\<lparr>wKafka := (wKafka ref_empty)\<lparr>rkCommits := [demo_good], rkFaults := []\<rparr>\<rparr>)"
    by (simp add: HandlerResolverFromSingle_def demo_bad_handle v_def [symmetric] h(1) c Let_def)
  then show ?thesis by (simp add: ref_empty_def ref_world_def)
qed

section \<open>A Bloom filter update that fails\<close>

text \<open>The second call to Redis fails: the first participant is stored, but its key is not marked.\<close>

definition demo_unmarked :: ref_world where
  "demo_unmarked = ref_empty\<lparr>wRedis := \<lparr>rrVals = [], rrFaults = [False, True]\<rparr>\<rparr>"

definition demo_stranded :: ref_world where
  "demo_stranded = demo_after_a\<lparr>
     wCql := \<lparr>rcRows = [(((''omni_joiner'', ''join_state''), [CBlob (HashRaw ''1'')]),
        [(''join_key_raw'', CVal (CText ''1'')), (''config_id'', CVal (CUuid uuid_Nil)),
         (''participant_data'', CBlobMap [(''a'', demo_payload ''p''), (''b'', demo_payload ''q'')]),
         (''arrival_timestamps'', CTimeMap [(''a'', 0), (''b'', 0)])])], rcFaults = []\<rparr>,
     wTick := 3,
     wMetrics := [Inc EventsProcessedTotal [''demo'', ''b''], Inc EventsProcessedTotal [''demo'', ''a'']]\<rparr>"

lemma demo_unmarked_run:
  "\<exists>w1 err. Handle ref_ext demo_handler (demo_message ''a'' ''p'') demo_unmarked = (Some err, w1)
    \<and> wCql w1 = wCql demo_after_a \<and> wRedis w1 = wRedis ref_empty \<and> wKafka w1 = wKafka ref_empty
    \<and> Handle ref_ext demo_handler (demo_message ''b'' ''q'') w1 = (None, demo_stranded)"
  by (simp add: demo_unmarked_def demo_defs demo_json run_defs demo_stranded_def demo_after_a_def demo_row_def uuid_Nil_def)

lemma demo_unmarked_view:
  assumes "wCql w = wCql demo_after_a" and "wRedis w = wRedis ref_empty" and "wKafka w = wKafka ref_empty"
  shows "jGroups (demo_view w) = jGroups (demo_view demo_after_a)" and "jSeen (demo_view w) = {}"
    and "jSent (demo_view w) = []"
  using demo_view_empty assms by (simp_all add: view_of_def join_abs_def)

section \<open>An event of an unknown stream\<close>

text \<open>It is the second participant after the event on stream \<open>a\<close>, so the join of two streams is taken as complete.\<close>

lemma demo_unknown_projection:
  "projection_Apply [(''a'', demo_payload ''p''), (''zzz'', demo_payload ''q'')] (Projection demo_jc) = Inr demo_partial_doc"
  by code_simp

lemma demo_unknown_run:
  "fst (Handle ref_ext demo_handler (demo_message ''zzz'' ''q'') demo_after_a) = None"
proof -
  have p: "projection_Apply [(''a'', demo_payload ''p''), (''zzz'', demo_payload ''q'')]
      [\<lparr>pfOutput = ''x'', pfStream = ''a'', pfField = ''v''\<rparr>, \<lparr>pfOutput = ''y'', pfStream = ''b'', pfField = ''v''\<rparr>]
    = Inr demo_partial_doc" using demo_unknown_projection by (simp add: demo_jc_def)
  have d: "demo_partial_doc \<noteq> []" by (simp add: demo_partial_doc_def)
  show ?thesis
    by (simp add: demo_defs demo_json run_defs join_defs demo_after_a_def demo_row_def p d uuid_Nil_def)
qed

end
