(* ===== verification/Durations.thy ===== *)
theory Durations
  imports Config_Load Json_Flat
begin

text \<open>
  The forms in which a configuration file gives a \<open>Duration\<close>: a number of nanoseconds, or a number with a
  unit in a string; and how they arrive in the join configuration that is loaded.  The number is an integer
  here; fractions and sums of groups are in the model of \<open>time.ParseDuration\<close> but not in these lemmas.
\<close>

section \<open>Decimal numbers\<close>

lemma is_digit_char: "d < 10 \<Longrightarrow> is_digit (digit_char d)"
  by (simp add: is_digit_def of_char_digit)

lemma nat_string_digits: "c \<in> set (nat_string n) \<Longrightarrow> is_digit c"
  using nat_digits_bound by (auto simp: nat_string_def is_digit_char)

lemma nat_string_nonempty: "nat_string n \<noteq> []"
  using nat_string_hd by blast

lemma nat_digits_hd: "0 < n \<Longrightarrow> hd (nat_digits n) \<noteq> 0"
proof (induction n rule: nat_digits.induct)
  case (1 n)
  show ?case
  proof (cases "n < 10")
    case True
    then show ?thesis using 1(2) by (simp add: nat_digits.simps)
  next
    case False
    have "nat_digits (n div 10) \<noteq> []" by (subst nat_digits.simps) simp
    then have "hd (nat_digits n) = hd (nat_digits (n div 10))" by (subst nat_digits.simps) (simp add: False)
    with 1(1) False show ?thesis by simp
  qed
qed

lemma nat_string_zero: "hd (nat_string n) = CHR ''0'' \<Longrightarrow> nat_string n = ''0''"
proof (cases "n = 0")
  case True
  have "nat_string 0 = ''0''" by code_simp
  with True show ?thesis by simp
next
  case False
  have ne: "nat_digits n \<noteq> []" using nat_string_nonempty [of n] by (simp add: nat_string_def)
  then have "hd (nat_digits n) < 10" by (intro nat_digits_bound) (rule hd_in_set)
  moreover assume "hd (nat_string n) = CHR ''0''"
  then have "digit_char (hd (nat_digits n)) = CHR ''0''" using ne by (simp add: nat_string_def hd_map)
  ultimately have "48 + hd (nat_digits n) = of_char CHR ''0''" by (metis of_char_digit)
  with nat_digits_hd [of n] False show ?thesis by simp
qed

text \<open>A digit is no other character that the syntax looks for.\<close>

lemma is_digit_not: "is_digit c \<Longrightarrow> \<not> is_digit x \<Longrightarrow> c \<noteq> x"
  by auto

lemma non_digits:
  "\<not> is_digit CHR ''-''" "\<not> is_digit CHR ''+''" "\<not> is_digit CHR ''.''" "\<not> is_digit CHR ''{''" "\<not> is_digit CHR ''[''"
  "\<not> is_digit dquote" "\<not> is_digit CHR ''t''" "\<not> is_digit CHR ''f''" "\<not> is_digit CHR ''n''"
  by (simp_all add: is_digit_def)

lemma digit_no_ws: "is_digit c \<Longrightarrow> \<not> is_ws c"
  by (auto simp: is_ws_def is_digit_def)

lemma lex_int_nat: "lex_int (nat_string n) = Some (nat_string n, [])"
proof -
  obtain c r where s: "nat_string n = c # r" using nat_string_nonempty by (cases "nat_string n") auto
  have d: "\<forall>x\<in>set (c # r). is_digit x" using nat_string_digits [of _ n] by (simp add: s)
  have "c = CHR ''0'' \<Longrightarrow> r = []" using nat_string_zero [of n] by (simp add: s)
  then show ?thesis using d by (auto simp: lex_int_def s)
qed

lemma lex_number_int: "lex_number (int_string i) = Some ((i < 0, nat \<bar>i\<bar>, 0), [])"
proof -
  have l: "lex_frac [] = Some ([], [])" "lex_exp [] = Some (0, [])" by (simp_all add: lex_frac_def lex_exp_def)
  show ?thesis
  proof (cases "i < 0")
    case True
    then show ?thesis
      by (simp add: lex_number_def int_string_def lex_int_nat l digits_value_nat_string)
  next
    case False
    obtain c r where s: "nat_string (nat i) = c # r" "c \<noteq> CHR ''-''"
      using nat_string_hd [of "nat i"] by (cases "nat_string (nat i)") auto
    then show ?thesis using False lex_int_nat [of "nat i"] digits_value_nat_string [of "nat i"]
      by (simp add: lex_number_def int_string_def l)
  qed
qed

lemma int_string_hd:
  obtains c r where "int_string i = c # r" and "is_digit c \<or> c = CHR ''-''"
proof -
  obtain c r where "nat_string (nat i) = c # r" using nat_string_nonempty by (cases "nat_string (nat i)") auto
  moreover have "is_digit c" using nat_string_digits [of c "nat i"] calculation by simp
  ultimately show ?thesis
    using that [of "CHR ''-''" "nat_string (nat (- i))"] that [of c r]
    by (cases "i < 0") (simp_all add: int_string_def)
qed

text \<open>The JSON text of an integer is read as its \<open>float64\<close>.\<close>

lemma Unmarshal_int: "json_Unmarshal (int_string i) = (case f64_of_int i of None \<Rightarrow> Inl json_type_error | Some x \<Rightarrow> Inr (JNum x))"
proof -
  obtain c r where s: "int_string i = c # r" "is_digit c \<or> c = CHR ''-''" by (rule int_string_hd)
  have "\<not> is_ws c" using s(2) digit_no_ws by (auto simp: is_ws_def)
  then have w: "skip_ws (c # r) = c # r" by simp
  have "parse_value max_depth (c # r) = map_option (\<lambda>(n, r). (JNum n, r)) (lex_number (c # r))"
    using s(2) non_digits
    by (subst parse_value.simps, subst w) (auto dest: is_digit_not)
  then show ?thesis using lex_number_int [of i]
    by (simp add: s(1) json_Unmarshal_def json_parse_def f64_of_decimal_def f64_of_int_def)
qed

section \<open>Units\<close>

definition duration_units :: "(string \<times> nat) list" where
  "duration_units = [(''ns'', 1), (''us'', 1000), (''ms'', 1000000), (''s'', 1000000000), (''m'', 60000000000),
     (''h'', 3600000000000)]"

lemma duration_units_facts:
  assumes "(u, k) \<in> set duration_units"
  shows "duration_unit u = Some k" and "0 < k" and "plain u" and "takeWhile unit_char u = u" and "u \<noteq> []"
    and "\<not> is_digit (hd u)" and "hd u \<noteq> CHR ''.''"
  using assms
  by (auto simp: duration_units_def duration_unit_def html_safe_def unit_char_def is_digit_def)

text \<open>The loop over the digits gives their value, when that is at most \<open>2^63\<close>.\<close>

lemma foldl_digits_mono: "(x :: nat) \<le> foldl (\<lambda>a c. 10 * a + (of_char c - 48)) x s"
proof (induction s arbitrary: x)
  case (Cons c s)
  have "x \<le> 10 * x + (of_char c - 48)" by simp
  also have "\<dots> \<le> foldl (\<lambda>a c. 10 * a + (of_char c - 48)) (10 * x + (of_char c - 48)) s" by (rule Cons.IH)
  finally show ?case by simp
qed simp

lemma leading_int_digits:
  assumes "\<forall>c\<in>set s. is_digit c" and "u \<noteq> []" and "\<not> is_digit (hd u)"
    and "foldl (\<lambda>a c. 10 * a + (of_char c - 48)) x s \<le> (2 :: nat) ^ 63"
  shows "leading_int x (s @ u) = Some (foldl (\<lambda>a c. 10 * a + (of_char c - 48)) x s, u)"
  using assms(1,4)
proof (induction s arbitrary: x)
  case Nil
  then show ?case using assms(2,3) by (cases u) simp_all
next
  case (Cons c s)
  let ?y = "10 * x + (of_char c - 48) :: nat"
  have y: "?y \<le> 2 ^ 63" using foldl_digits_mono [of ?y s] Cons.prems(2) by simp
  then have "10 * x \<le> 2 ^ 63" by linarith
  then have x: "\<not> 2 ^ 63 div 10 < x" by linarith
  show ?case using Cons.IH [of ?y] Cons.prems x y
    by (simp add: Let_def)
qed

lemma duration_group_int:
  assumes "(u, k) \<in> set duration_units" and "n * k < 2 ^ 63"
  shows "duration_group (nat_string n @ u) = Some (n * k, [])"
proof -
  note f = duration_units_facts [OF assms(1)]
  obtain c r where s: "nat_string n = c # r" using nat_string_nonempty by (cases "nat_string n") auto
  have "is_digit c" using nat_string_digits [of c n] by (simp add: s)
  have "n * 1 \<le> n * k" using f(2) by (intro mult_le_mono2) simp
  then have "n \<le> 2 ^ 63" using assms(2) by linarith
  then have l: "leading_int 0 (c # r @ u) = Some (n, u)"
    using leading_int_digits [of "nat_string n" u 0] nat_string_digits [of _ n] f(5,6) digits_value_nat_string [of n]
    by (simp add: digits_value_def s)
  obtain d t where u: "u = d # t" using f(5) by (cases u) auto
  have b: "\<not> 2 ^ 63 div k < n" using assms(2) f(2) by (simp add: not_less less_eq_div_iff_mult_less_eq)
  have dw: "dropWhile unit_char u = []" using f(4) by (metis append_self_conv takeWhile_dropWhile_id)
  show ?thesis
    using \<open>is_digit c\<close> f l b dw assms(2) unfolding s u by (simp add: duration_group_def Let_def)
qed

lemma ParseDuration_int:
  assumes "(u, k) \<in> set duration_units" and "\<bar>i\<bar> * int k < 2 ^ 63"
  shows "time_ParseDuration (int_string i @ u) = Inr (i * int k)"
proof -
  define n where "n = nat \<bar>i\<bar>"
  have "int (n * k) < int (2 ^ 63)" using assms(2) by (simp add: n_def)
  then have b: "n * k < 2 ^ 63" by (simp only: of_nat_less_iff)
  note f = duration_units_facts [OF assms(1)] and g = duration_group_int [OF assms(1) b]
  obtain c r where s: "nat_string n = c # r" using nat_string_nonempty by (cases "nat_string n") auto
  have "is_digit c" using nat_string_digits [of c n] by (simp add: s)
  then have c: "c \<noteq> CHR ''-''" "c \<noteq> CHR ''+''" using non_digits by auto
  have p: "duration_groups 0 (c # r @ u) = Some (n * k)"
    using g b by (simp add: duration_groups.simps [of 0] duration_groups.simps [of _ "[]"] s)
  have z: "c # r @ u \<noteq> ''0''" using f(5) by simp
  have i: "int_string i @ u = (if i < 0 then CHR ''-'' # c # r @ u else c # r @ u)"
    using s by (cases "i < 0") (simp_all add: int_string_def n_def)
  have v: "int (n * k) = (if i < 0 then - (i * int k) else i * int k)" by (simp add: n_def)
  show ?thesis
    using z p b v c f(5) unfolding i by (simp add: time_ParseDuration_def Let_def)
qed

section \<open>Reading a duration\<close>

lemma Duration_of_int:
  assumes "\<bar>i\<bar> < 2 ^ 53"
  shows "Duration_UnmarshalJSON old (int_string i) = Inr i"
proof (cases "i = 0")
  case True
  then show ?thesis
    by (simp add: Duration_UnmarshalJSON_def duration_value_def Unmarshal_int f64_of_int_def f64_of_ratio_def
        int64_of_f64_def int64_def)
next
  case False
  have "int (nat \<bar>i\<bar>) < int (2 ^ 53)" using assms by simp
  then have p: "0 < nat \<bar>i\<bar>" "nat \<bar>i\<bar> < 2 ^ 53" using False by (simp_all only: of_nat_less_iff)
  obtain x k where x: "f64_of_int i = Some x" "x = F64 (i < 0) (nat \<bar>i\<bar> * 2 ^ k) (- int k)"
    using f64_of_ratio_exact [OF p, of "i < 0"] unfolding f64_of_int_def by metis
  have "int (nat \<bar>i\<bar>) < 2 ^ 63" using assms by simp
  from int64_of_f64_exact [OF this, of "i < 0" k] x show ?thesis
    by (simp add: Duration_UnmarshalJSON_def duration_value_def Unmarshal_int split: if_splits)
qed

lemma Unmarshal_string: "plain s \<Longrightarrow> json_Unmarshal (json_quote s) = Inr (JStr s)"
  using parse_value_plain [of s max_depth "[]"]
  by (simp add: json_Unmarshal_def json_parse_def json_quote_plain)

lemma plain_int_string: "plain (int_string i)"
proof -
  have "html_safe c" if "is_digit c" for c
    using that by (auto simp: html_safe_def is_digit_def Let_def)
  then have "plain (nat_string n)" for n
    using nat_string_digits [of _ n] by (auto simp: plain_def list_all_iff)
  then show ?thesis by (simp add: int_string_def) (simp add: html_safe_def)
qed

lemma Duration_of_string:
  assumes "(u, k) \<in> set duration_units" and "\<bar>i\<bar> * int k < 2 ^ 63"
  shows "Duration_UnmarshalJSON old (json_quote (int_string i @ u)) = Inr (i * int k)"
proof -
  have "plain (int_string i @ u)"
    using plain_int_string [of i] duration_units_facts(3) [OF assms(1)] by (simp add: plain_def)
  then show ?thesis
    by (simp add: Duration_UnmarshalJSON_def duration_value_def Unmarshal_string ParseDuration_int [OF assms])
qed

text \<open>Any other JSON value is taken without an error, and changes nothing.\<close>

lemma Duration_of_other:
  assumes "json_Unmarshal b = Inr v" and "\<And>x. v \<noteq> JNum x" and "\<And>s. v \<noteq> JStr s"
  shows "Duration_UnmarshalJSON old b = Inr old"
  using assms by (cases v) (auto simp: Duration_UnmarshalJSON_def duration_value_def)

section \<open>A file of strings\<close>

lemma field_names:
  "fold_name ''name'' = ''name''" "fold_name ''ttl'' = ''ttl''" "fold_name ''egress'' = ''egress''"
  "fold_name ''post_join_delay'' = ''post_join_delay''"
  by code_simp+

lemma LoadJoinConfig_strings:
  assumes "(u, k) \<in> set duration_units" and "\<bar>i\<bar> * int k < 2 ^ 63"
    and "(u', k') \<in> set duration_units" and "\<bar>j\<bar> * int k' < 2 ^ 63"
    and "plain name" and "plain policy"
    and "os_ReadFile X path = Inr (json_object_text [(''name'', json_quote name), (''ttl'', json_quote (int_string i @ u)),
      (''egress'', json_quote policy), (''post_join_delay'', json_quote (int_string j @ u'))])"
  shows "LoadJoinConfig X path = Inr (join_config_zero\<lparr>cfgName := name, cfgTTL := i * int k, Egress := policy,
    PostJoinDelay := j * int k'\<rparr>)"
proof -
  let ?kvs = "[(''name'', name), (''ttl'', int_string i @ u), (''egress'', policy), (''post_join_delay'', int_string j @ u')]"
  have n: "plain ''name''" "plain ''ttl''" "plain ''egress''" "plain ''post_join_delay''" by (simp_all add: html_safe_def)
  have "plain (int_string i @ u)" "plain (int_string j @ u')"
    using plain_int_string duration_units_facts(3) [OF assms(1)] duration_units_facts(3) [OF assms(3)]
    by (simp_all add: plain_def)
  then have "json_parse (json_object_text (map (\<lambda>(k, v). (k, json_quote v)) ?kvs)) =
      Inr (JObj (map (\<lambda>(k, v). (k, JStr v)) ?kvs))"
    using n assms(5,6) by (intro json_parse_flat) simp_all
  then show ?thesis
    by (simp add: LoadJoinConfig_def assms(7) Unmarshal_into_def dec_join_config_def dec_struct_def field_names
        join_config_fields_def at_field_def dec_string_def dec_duration_def duration_value_def
        ParseDuration_int [OF assms(1,2)] ParseDuration_int [OF assms(3,4)] del: fold_name.simps)
qed

end
