(* ===== verification/Demo_Config.thy ===== *)
theory Demo_Config
  imports Demo_Consumer Durations
begin

text \<open>
  A processor configuration that is loaded from a file, a message that is handled again after the broker
  refused its document, and a start-up whose services are up.
\<close>

section \<open>A configuration file\<close>

definition demo_file :: bytes where
  "demo_file = ''{\"JOIN_CONFIG\": {\"ttl\": \"60s\"}}''"

definition file_ext :: "(ref_cql, ref_redis, ref_kafka) ext" where
  "file_ext = ref_ext\<lparr>os_ReadFile := (\<lambda>_. Inr demo_file)\<rparr>"

definition demo_loaded :: join_config where
  "demo_loaded = join_config_zero\<lparr>cfgTTL := 60 * ns_second\<rparr>"

lemma demo_file_parse: "json_parse demo_file = Inr (JObj [(''JOIN_CONFIG'', JObj [(''ttl'', JStr ''60s'')])])"
  by code_simp

lemma demo_file_duration: "time_ParseDuration ''60s'' = Inr (60 * ns_second)"
  by (simp add: time_ParseDuration_def duration_groups.simps [of 0] duration_groups.simps [of _ "[]"] duration_group_def
      is_digit_def unit_char_def duration_unit_def ns_second_def)

lemma demo_names: "fold_name ''JOIN_CONFIG'' = ''join_config''" "fold_name ''ttl'' = ''ttl''"
  by code_simp+

lemma demo_load: "loadProcessorConfig file_ext ''f'' = Inr (processor_config_zero\<lparr>JoinConfig := Some demo_loaded\<rparr>)"
  by (simp add: loadProcessorConfig_def file_ext_def Unmarshal_into_def demo_file_parse dec_processor_config_def
      dec_struct_def demo_names processor_config_fields_def at_field_def dec_pointer_def dec_join_config_def
      join_config_fields_def dec_duration_def duration_value_def demo_file_duration load_single_def load_multi_def
      demo_loaded_def del: fold_name.simps) (simp add: processor_config_zero_def)

section \<open>A message handled again\<close>

text \<open>The broker refuses the first document it is given.\<close>

definition demo_refusing :: ref_world where
  "demo_refusing = demo_after_a\<lparr>wKafka := \<lparr>rkSent = [], rkCommits = [], rkPolls = [], rkFaults = [True]\<rparr>\<rparr>"

lemma demo_again:
  "\<exists>w1 err w2. Handle ref_ext demo_handler (demo_message ''b'' ''q'') demo_refusing = (Some err, w1)
    \<and> Handle ref_ext demo_handler (demo_message ''b'' ''q'') w1 = (None, w2)
    \<and> jSent (demo_view w2) = [(''out'', None, demo_doc)]"
proof -
  have p: "projection_Apply [(''a'', demo_payload ''p''), (''b'', demo_payload ''q'')]
      [\<lparr>pfOutput = ''x'', pfStream = ''a'', pfField = ''v''\<rparr>, \<lparr>pfOutput = ''y'', pfStream = ''b'', pfField = ''v''\<rparr>]
    = Inr demo_doc" using demo_projection by (simp add: demo_jc_def)
  have d: "demo_doc \<noteq> []" by (simp add: demo_doc_def)
  show ?thesis unfolding view_of_def join_abs_def join_view.simps
    by (simp add: demo_refusing_def demo_defs demo_json run_defs join_defs demo_after_a_def demo_row_def p d uuid_Nil_def
        ref_error_def)
qed

lemma demo_refusing_view: "demo_view demo_refusing = demo_view demo_after_a"
  by (simp add: view_of_def join_abs_def demo_refusing_def) (simp add: demo_after_a_def ref_empty_def ref_world_def)

section \<open>A clock that runs\<close>

definition demo_clock :: ref_world where
  "demo_clock = ref_empty\<lparr>wClock := (\<lambda>t. int t * ns_second)\<rparr>"

end
