(* ===== verification/Spec2Isabelle.thy ===== *)
theory Spec2Isabelle
  imports Demo_Config
begin

text \<open>
  Verification of the Omni-Joiner stream processor (the Go program under \<open>src/\<close>).

  The processor consumes events of several streams from one Kafka topic, collects them in ScyllaDB by the
  hash of their join key, and publishes one projected JSON document when a key has an event of every
  stream.  A Bloom filter in Redis tells first arrivals apart, so that they skip the read of the state.  A
  timeout manager drops groups that stay incomplete, or publishes what there is of them; an event that
  comes after that gives a correction message.  A delay queue, in memory or in Redis, holds completed
  joins for a settle time.  One process serves one join configuration, or several that share its services.

  \<^bold>\<open>The world.\<close>  \<open>World\<close> has the state that all operations pass along: the states of ScyllaDB, Redis and
  Kafka (the type variables \<open>'c\<close>, \<open>'r\<close>, \<open>'k\<close>), the in-memory lists of the delay queues, the readings of the
  clock and of the cancellation of the context (functions of a counter that each reading advances), the
  metric calls and the log.  The clients of the services are not under \<open>src/\<close>: they are the fields of the
  record \<open>ext\<close>, and the locales \<open>scylla\<close>, \<open>redis_server\<close>, \<open>kafka_broker\<close> and \<open>kafka_group\<close> say what the code
  relies on.  Every call may fail, and a failed call may or may not have had its effect; the queries of
  Bloom filters may have false positives.  \<open>Reference_Services\<close> are concrete services, with scripts of
  faults, that interpret all of these locales.

  \<^bold>\<open>The library of Go.\<close>  \<open>Prelude\<close>: byte strings, errors, Go maps, \<open>int64\<close>.  \<open>Go_Encoding\<close>: hex, base64,
  big-endian integers.  \<open>Go_Sha256\<close>: the digest on 32-bit words.  \<open>Go_Float\<close>: \<open>float64\<close> with correct
  rounding.  \<open>Go_Json\<close>: \<open>encoding/json\<close> for \<open>interface{}\<close> values.  \<open>Json_Flat\<close>: that objects of plain strings
  read back.  \<open>Scores\<close>: sorted-set scores are exact below \<open>2^53\<close>.

  \<^bold>\<open>The components\<close>, one theory for each, with their operations on every branch:
  \<open>Config\<close> and \<open>Config_Load\<close> (\<open>internal/config\<close>: types, durations, validation, loading with the decoding of
  JSON into structs) with \<open>Durations\<close> (how durations are read), \<open>Keys\<close> (\<open>internal/keys\<close>), \<open>Projection\<close> (\<open>internal/projection\<close>), \<open>Engine\<close>
  (\<open>internal/engine\<close>), \<open>Store\<close> and \<open>Store_Setup\<close> (\<open>internal/store\<close>: both tables, sessions, schema), \<open>Bloom\<close>
  (\<open>internal/bloom\<close>), \<open>Egress\<close> (\<open>internal/egress\<close>), \<open>Kafka_Client\<close> (\<open>internal/kafka\<close>), \<open>Logger\<close>
  (\<open>internal/logger\<close>), \<open>Timeout\<close> (\<open>internal/timeout\<close>), \<open>Delay\<close> and \<open>Delay_Order\<close> (\<open>internal/delay\<close>),
  \<open>Consumer_Api\<close>, \<open>Consumer\<close> and \<open>Consumer_Run\<close> (\<open>internal/consumer\<close>: the interfaces with their laws, the
  handler, and the polling loop with its commits), \<open>Health\<close> (\<open>internal/health\<close>) and \<open>Processor\<close>
  (\<open>cmd/processor\<close>).  The metrics of \<open>internal/metrics\<close> are the constructors of \<open>metric_name\<close>.  A definition has
  the name of the Go function it translates, with its receiver's type before it where that helps.

  \<^bold>\<open>The contracts.\<close>  Each interface that the handler, the timeout manager or the delay queue is given has a
  locale with its laws: \<open>state_store_laws\<close>, \<open>producer_laws\<close>, \<open>bloom_laws\<close>, \<open>tracker_laws\<close>, \<open>scheduler_laws\<close>,
  \<open>delay_laws\<close>, \<open>logger_laws\<close>.  The providers' theories prove that the code's models meet them
  (\<open>store_keeps_contract\<close> and its like); the clients' lemmas are proved once from the laws, in
  \<open>handler_services\<close>, \<open>manager_services\<close> and \<open>queue_services\<close>.  \<open>Deployment\<close> puts the parts together as
  \<open>Processor\<close> wires them, and shows that the wired components meet what their locales ask for.

  \<^bold>\<open>The specifications.\<close>  \<open>Join_Spec\<close> has the abstract join: a step relation on groups, seen and tracked
  keys and sent messages (\<open>handle_step\<close>, with the faults), its fault-free form \<open>join_next\<close>, and the
  simulation of the handler by it.  \<open>Timeout\<close> has the same for a pass of the manager (\<open>timeout_step\<close>), and
  \<open>Delay\<close> for the queue (\<open>flush_step\<close>).  \<open>Invariants\<close>, \<open>System\<close> and \<open>Isolation\<close> are about the processor as a whole:
  messages, passes and flushes in any order (\<open>system_run\<close>), the invariant of all reachable worlds
  (\<open>system_inv\<close>), and the separation of several configurations.

  \<^bold>\<open>The properties\<close> follow, C1 to C40: the join (C1 to C8), the whole processor (C9, C10), timeouts (C11 to
  C15), delayed joins (C16 to C18), the consumer (C19 to C23), projection and engine (C24 to C27),
  configuration and keys (C28 to C31), faults and services (C32 to C36), start-up and operation (C37 to
  C40).  Their witnesses are runs on the reference services, made in the theories \<open>Demo\<close>, \<open>Demo_Runs\<close>,
  \<open>Demo_Timers\<close>, \<open>Demo_Delay\<close>, \<open>Demo_Consumer\<close> and \<open>Demo_Config\<close>.

  \<^bold>\<open>Loops and bounds.\<close>  Parsers and encoders recurse on the input that is left.  The loops that poll (the
  consumer, the managers, the queues, the retries) take a bound on their turns and return \<open>None\<close> when it is
  used up; more turns do not change a result (\<open>consumer_Run_mono\<close>), a cancelled context ends the consumer
  within a turn (\<open>consumer_Run_cancelled\<close>), and C37 says how many turns the retries need.  The retried
  commit counts its attempts.  Durations are \<open>int64\<close> values: the conversion from a number wraps, the parser of
  strings refuses what is out of range.

  \<^bold>\<open>Not modelled.\<close>  The text of error messages and log lines, kept as format and arguments.  The passing of
  time in \<open>time.After\<close> and the tickers, whose effect is only which turn comes next; time-outs of single
  calls are among the faults of the services.  The interleaving inside one operation: a step of a goroutine
  is one step of the system, which fits the mutex of the delay queue but hides races of the consumer with
  the managers on one key.  The flag package, signals (they are the readings of the cancellation), the
  listening HTTP server and the page of the Prometheus library.  The expiry of rows by the TTL of the
  tables.  A third occurrence of one array in a configuration file, where Go reuses the elements beyond
  the length of the slice.  The integration tests.
\<close>

section \<open>The join\<close>

text \<open>
  C1.  The handler refines the fault-free join.  For a join of at least two streams, published without
  delay and without corrections, a message that is handled without an error has exactly the effect of
  \<open>join_next\<close>: its participant is added to the group of its key, and a group that has become complete
  is published as one document and deleted.  The Bloom filter, with whatever false positives, changes
  nothing of that, as long as it knows every key that has a group; that is kept.
\<close>

theorem handle_refines_join:
  assumes "deployment X rows db sent commits" and "keys_apart cfg mode jc"
    and "2 \<le> join_N jc" and "PostJoinDelay jc \<le> 0" and "CorrectionsTopic cfg = []"
    and "event_of jc rec = Some e" and "marked (view_of rows db sent cfg mode jc w)"
    and "Handle X (handler_of X cfg lg mode jc) rec w = (None, w')"
  shows "join_next jc (EgressTopic cfg) e (view_of rows db sent cfg mode jc w) (view_of rows db sent cfg mode jc w')
    \<and> marked (view_of rows db sent cfg mode jc w')"
  using deployment.Handle_view [OF assms(1,2,8)] handle_step_ok_next assms(3-7) by auto

lemma handle_refines_join_witness:
  "join_next demo_jc ''out'' (demo_event ''b'' ''q'') (demo_view demo_after_a) (demo_view demo_after_b)
    \<and> marked (demo_view demo_after_b)"
  using handle_refines_join [OF ref_deployment.deployment_axioms demo_keys_apart _ _ _ demo_event_of(2)
      demo_marked(2) demo_run_b] demo_cfg_facts by simp

text \<open>
  C2.  No participant is dropped.  Whatever the services answer, a group disappears from the store only
  when it is the group of the message's key, and then either its document, complete with this message,
  has been sent to the egress topic, or a partial result of the key had been published before and the
  message was late.
\<close>

theorem handle_keeps_groups:
  assumes "deployment X rows db sent commits" and "keys_apart cfg mode jc" and "event_of jc rec = Some e"
    and "Handle X (handler_of X cfg lg mode jc) rec w = (oe, w')"
    and "jGroups (view_of rows db sent cfg mode jc w) x \<noteq> None"
    and "jGroups (view_of rows db sent cfg mode jc w') x = None"
  shows "x = evHash e \<and>
    ((\<exists>t g d. g = group_with e t (jGroups (view_of rows db sent cfg mode jc w) x) \<and> group_complete jc g
        \<and> group_doc jc g d
        \<and> jSent (view_of rows db sent cfg mode jc w') =
            jSent (view_of rows db sent cfg mode jc w) @ [(EgressTopic cfg, evKey e, d)])
     \<or> oe = None \<and> x \<in> jTracked (view_of rows db sent cfg mode jc w) \<and> CorrectionsTopic cfg \<noteq> [])"
proof -
  have s: "handle_step jc (EgressTopic cfg) (CorrectionsTopic cfg) e (view_of rows db sent cfg mode jc w) oe
      (view_of rows db sent cfg mode jc w')"
    using deployment.Handle_view [OF assms(1,2,4)] assms(3) by simp
  from s have x: "x = evHash e" using handle_step_other assms(5,6) by metis
  from s show ?thesis
    by (cases rule: handle_step_group) (use assms(5,6) x in auto)
qed

lemma handle_keeps_groups_witness:
  "\<exists>d. jSent (demo_view demo_after_b) = jSent (demo_view demo_after_a) @ [(''out'', None, d)]"
  using handle_keeps_groups [OF ref_deployment.deployment_axioms demo_keys_apart demo_event_of(2) demo_run_b,
      of "HashRaw ''1''"] by (auto simp: demo_view_a demo_view_b demo_cfg_facts demo_event_def)

text \<open>
  C3.  Isolation.  A message that is refused as malformed leaves everything as it was; any other touches
  at most the group of its own join key, whatever the services answer.
\<close>

theorem handle_isolates_keys:
  assumes "deployment X rows db sent commits" and "keys_apart cfg mode jc"
    and "Handle X (handler_of X cfg lg mode jc) rec w = (oe, w')"
  shows "case event_of jc rec of
      None \<Rightarrow> oe \<noteq> None \<and> view_of rows db sent cfg mode jc w' = view_of rows db sent cfg mode jc w
    | Some e \<Rightarrow> \<forall>x. x \<noteq> evHash e \<longrightarrow>
        jGroups (view_of rows db sent cfg mode jc w') x = jGroups (view_of rows db sent cfg mode jc w) x"
  using deployment.Handle_view [OF assms] handle_step_other by (auto split: option.splits)

lemma handle_isolates_keys_witness:
  "jGroups (demo_view demo_after_b) ''other'' = jGroups (demo_view demo_after_a) ''other''"
proof -
  have "HashRaw ''1'' \<noteq> ''other''"
  proof
    assume "HashRaw ''1'' = ''other''"
    then have "length (HashRaw ''1'') = length ''other''" by (rule arg_cong)
    then show False by simp
  qed
  with handle_isolates_keys [OF ref_deployment.deployment_axioms demo_keys_apart demo_run_b]
  show ?thesis by (auto simp: demo_event_of demo_event_def)
qed

text \<open>
  C4.  What is sent.  Handling a message sends at most one message: on the egress topic the document of
  the complete group of the key, this event included, or on the corrections topic a message for a key
  whose partial result had been published.
\<close>

theorem handle_sends_joins:
  assumes "deployment X rows db sent commits" and "keys_apart cfg mode jc" and "event_of jc rec = Some e"
    and "Handle X (handler_of X cfg lg mode jc) rec w = (oe, w')"
    and "jSent (view_of rows db sent cfg mode jc w') = jSent (view_of rows db sent cfg mode jc w) @ ms"
  shows "ms = []
    \<or> (\<exists>t g d. ms = [(EgressTopic cfg, evKey e, d)] \<and> group_doc jc g d \<and> group_complete jc g
        \<and> g = group_with e t (jGroups (view_of rows db sent cfg mode jc w) (evHash e)))
    \<or> (\<exists>d. ms = [(CorrectionsTopic cfg, Some (evHash e), d)] \<and> CorrectionsTopic cfg \<noteq> ''''
        \<and> evHash e \<in> jTracked (view_of rows db sent cfg mode jc w))"
proof -
  have "handle_step jc (EgressTopic cfg) (CorrectionsTopic cfg) e (view_of rows db sent cfg mode jc w) oe
      (view_of rows db sent cfg mode jc w')"
    using deployment.Handle_view [OF assms(1,2,4)] assms(3) by simp
  then show ?thesis by (cases rule: handle_step_sent) (use assms(5) in auto)
qed

lemma handle_sends_joins_witness:
  "\<exists>t g. group_doc demo_jc g demo_doc \<and> group_complete demo_jc g
    \<and> g = group_with (demo_event ''b'' ''q'') t (jGroups (demo_view demo_after_a) (HashRaw ''1''))"
  using handle_sends_joins [OF ref_deployment.deployment_axioms demo_keys_apart demo_event_of(2) demo_run_b,
      of "[(''out'', None, demo_doc)]"]
  by (auto simp: demo_view_a demo_view_b demo_cfg_facts demo_event_def)

text \<open>
  C5.  The order of arrival does not matter.  For a join of at least two streams, published without delay
  and without corrections, with a Bloom filter that knows every key that has a group: when the messages of
  a join key that has no group yet, one for each stream, are all handled without an error, in either of
  two orders, each order sends one document, and it is the same document.
\<close>

theorem joins_in_any_order:
  assumes "deployment X rows db sent commits" and "keys_apart cfg mode jc"
    and "2 \<le> join_N jc" and "PostJoinDelay jc \<le> 0" and "CorrectionsTopic cfg = []"
    and "map (event_of jc) recs = map Some es" and "one_key h es" and "int (length es) = join_N jc"
    and "mset recs' = mset recs"
    and "marked (view_of rows db sent cfg mode jc w)" and "jGroups (view_of rows db sent cfg mode jc w) h = None"
    and "handle_all X (handler_of X cfg lg mode jc) recs w = Some v"
    and "handle_all X (handler_of X cfg lg mode jc) recs' w = Some v'"
  shows "\<exists>d key key'. jSent (view_of rows db sent cfg mode jc v) =
        jSent (view_of rows db sent cfg mode jc w) @ [(EgressTopic cfg, key, d)]
      \<and> jSent (view_of rows db sent cfg mode jc v') =
        jSent (view_of rows db sent cfg mode jc w) @ [(EgressTopic cfg, key', d)]"
proof -
  note run = deployment.handle_all_join_run [OF assms(1-5)]
  define fs where "fs = map (the \<circ> event_of jc) recs'"
  have "set recs' = set recs" using assms(9) by (rule mset_eq_setD)
  moreover have "\<forall>r\<in>set recs. event_of jc r \<noteq> None"
    using assms(6) by (metis (no_types) in_set_conv_nth length_map nth_map option.distinct(1))
  ultimately have f: "map (event_of jc) recs' = map Some fs" by (auto simp: fs_def)
  have "map the (map (event_of jc) recs) = map the (map Some es)" using assms(6) by (rule arg_cong)
  then have "es = map (the \<circ> event_of jc) recs" by (simp add: comp_def)
  then have m: "mset es = mset fs" using assms(9) by (simp add: fs_def)
  have ne: "es \<noteq> []" using assms(3,8) by auto
  show ?thesis
    by (rule join_run_any_order [OF assms(7) m assms(8) ne assms(11) run [OF assms(12,6,10)]
        assms(11) run [OF assms(13) f assms(10)]]) (intro exI conjI)
qed

lemma joins_in_any_order_witness:
  "\<exists>d key key'. jSent (demo_view demo_after_b) = [(''out'', key, d)]
    \<and> jSent (demo_view demo_a_second) = [(''out'', key', d)]"
  using joins_in_any_order [OF ref_deployment.deployment_axioms demo_keys_apart _ _ _ _ _ _ _ demo_marked(1) _
      demo_run_ab demo_run_ba, of "[demo_event ''a'' ''p'', demo_event ''b'' ''q'']" "HashRaw ''1''"]
  by (simp add: demo_cfg_facts demo_event_of one_key_def demo_view_empty) (simp add: demo_event_def)

text \<open>
  C6.  Stored payloads decode.  If every payload in the store decodes, as a JSON object or as \<open>null\<close>, which
  reads like an empty object, handling a message keeps it so, faults included: a payload is decoded before
  it is stored.
\<close>

theorem handle_keeps_decodable:
  assumes "deployment X rows db sent commits" and "keys_apart cfg mode jc"
    and "groups_decode (jGroups (view_of rows db sent cfg mode jc w))"
    and "Handle X (handler_of X cfg lg mode jc) rec w = (oe, w')"
  shows "groups_decode (jGroups (view_of rows db sent cfg mode jc w'))"
proof (cases "event_of jc rec")
  case None
  with deployment.Handle_view [OF assms(1,2,4)] assms(3) show ?thesis by simp
next
  case (Some e)
  with deployment.Handle_view [OF assms(1,2,4)] handle_step_decodes event_decodes [OF Some] assms(3)
  show ?thesis by auto
qed

lemma handle_keeps_decodable_witness: "groups_decode (jGroups (demo_view demo_after_a))"
  by (rule handle_keeps_decodable [OF ref_deployment.deployment_axioms demo_keys_apart _ demo_run_a])
    (simp add: demo_view_empty groups_decode_def)

text \<open>
  C7.  The engine never fails on such a state: when the payloads in the store decode, whatever state is
  read for a key is processed without an error, so a completed join cannot be stuck on its projection.
\<close>

theorem decodable_state_processes:
  assumes "deployment X rows db sent commits" and "groups_decode (jGroups (view_of rows db sent cfg mode jc w))"
    and "ssGetState (store_of X cfg mode jc) x w = (Inr (Some st), w')"
  shows "is_ok (Engine_Process (engine_New jc) (Some st))"
proof -
  from state_store_laws.get_some [OF deployment.store_of_laws [OF assms(1)] assms(3)]
  obtain g where g: "groups_of rows cfg mode jc (wCql w) x = Some g" "state_shows st g" by blast
  then have "group_decodes g"
    using assms(2) by (auto simp: groups_decode_def view_of_def join_abs_def intro: ranI)
  from state_shows_decodes [OF g(2) this, of "Projection jc"] show ?thesis
    by (auto simp: Engine_Process_def Engine_Project_def engine_New_def is_ok_def split: sum.splits)
qed

lemma decodable_state_processes_witness: "is_ok (Engine_Process (engine_New demo_jc) (Some demo_state_a))"
  by (rule decodable_state_processes [OF ref_deployment.deployment_axioms _ demo_get_a])
    (simp add: demo_decodable)

text \<open>
  C8.  The first event of a key never completes it.  While the Bloom filter does not know the key, nothing
  is sent, whatever the store holds: the first-arrival path returns before the engine is asked.
\<close>

theorem first_event_waits:
  assumes "deployment X rows db sent commits" and "keys_apart cfg mode jc" and "event_of jc rec = Some e"
    and "evHash e \<notin> jSeen (view_of rows db sent cfg mode jc w)"
    and "Handle X (handler_of X cfg lg mode jc) rec w = (oe, w')"
  shows "jSent (view_of rows db sent cfg mode jc w') = jSent (view_of rows db sent cfg mode jc w)"
  using deployment.Handle_view [OF assms(1,2,5)] handle_step_first assms(3,4) by auto

lemma first_event_waits_witness: "jSent (demo_view demo_after_a) = jSent (demo_view ref_empty)"
  by (rule first_event_waits [OF ref_deployment.deployment_axioms demo_keys_apart demo_event_of(1) _ demo_run_a])
    (simp add: demo_view_empty)

section \<open>The whole processor\<close>

text \<open>
  C9.  Provenance.  Messages, passes of the timeout manager and flushes of the delay queue happen in any
  order, and any call of a service may fail.  Whatever is on the egress topic then is a document made of
  payloads of accepted events of one join key, one payload for each stream; it has as many streams as the
  configuration unless the egress policy is the partial one.  Other messages are on the corrections topic.
\<close>

theorem system_sends_only_joins:
  assumes "deployment X rows db sent commits" and "keys_apart cfg mode jc"
    and "fresh X rows db sent cfg lg mode jc w0" and "system_run X cfg lg mode jc w0 E w"
    and "(topic, key, d) \<in> set (sent (wKafka w))"
  shows "topic = EgressTopic cfg \<and> (\<exists>x. joined_doc E jc x d \<or> partial_doc E jc x d)
    \<or> topic = CorrectionsTopic cfg \<and> topic \<noteq> ''''"
proof -
  have "system_inv X rows db sent cfg lg mode jc E w"
    by (rule deployment.system_run_inv [OF assms(1,2,4) fresh_inv [OF assms(3)]])
  with assms(5) have "sent_ok E cfg jc (topic, key, d)" by (simp add: system_inv_def)
  then show ?thesis by (simp add: sent_ok_def)
qed

lemma system_sends_only_joins_witness:
  "\<exists>x. joined_doc {demo_event ''a'' ''p'', demo_event ''b'' ''q''} demo_jc x demo_doc"
proof -
  have f: "fresh ref_ext ref_rows ref_db rkSent demo_cfg demo_log Single demo_jc ref_empty"
    by (simp add: fresh_def demo_groups fun_eq_iff queue_of_id ref_db_values ref_empty_def ref_world_def rv_z_def)
  have "system_run ref_ext demo_cfg demo_log Single demo_jc ref_empty
      ({} \<union> set_option (event_of demo_jc (demo_message ''a'' ''p'')) \<union>
       set_option (event_of demo_jc (demo_message ''b'' ''q''))) demo_after_b"
    by (rule system_run.step [OF system_run.step [OF system_run.start] system_step.message [OF demo_run_b]])
      (rule system_step.message [OF demo_run_a])
  from system_sends_only_joins [OF ref_deployment.deployment_axioms demo_keys_apart f this, of "''out''" None demo_doc]
  show ?thesis
    by (simp add: demo_event_of demo_after_b_def demo_cfg_facts partial_doc_def insert_commute)
      (simp add: demo_jc_def EgressInner_def EgressPartial_def)
qed

text \<open>
  C10.  Join configurations are isolated.  A step of one configuration's handler, timeout manager or delay
  queue changes no group of a configuration with another id, no Redis key but its own four, and the
  memory of no other delay queue.  Three of the four keys contain the id; the fourth, that of the delay
  queue, is made of the name, and a configuration of the same name shares it (C36).
\<close>

theorem configs_are_isolated:
  assumes "deployment X rows db sent commits" and "system_step X cfg lg (Multi i) jc E w F w'"
    and "ConfigID jc' \<noteq> ConfigID jc"
  shows "groups_of rows cfg (Multi j) jc' (wCql w') = groups_of rows cfg (Multi j) jc' (wCql w)
    \<and> (\<forall>key. key \<notin> {bloom_key cfg (Multi i) jc, timeouts_key (Multi i) jc, partial_key (Multi i) jc, delay_key jc}
        \<longrightarrow> db (wRedis w') key = db (wRedis w) key)
    \<and> (\<forall>k. k \<noteq> i \<longrightarrow> wPending w' k = wPending w k)"
proof -
  have s: "within rows db cfg i jc w w'" by (rule deployment.system_step_within [OF assms(1,2)])
  from within_groups [OF s assms(3)] s show ?thesis by (auto simp: within_def own_keys_def)
qed

lemma configs_are_isolated_witness:
  "groups_of ref_rows demo_cfg (Multi 1) (demo_jc\<lparr>ConfigID := replicate 16 CHR ''x''\<rparr>)
      (wCql (snd (Handle ref_ext (handler_of ref_ext demo_cfg demo_log (Multi 0) demo_jc)
        (demo_message ''a'' ''p'') ref_empty)))
    = groups_of ref_rows demo_cfg (Multi 1) (demo_jc\<lparr>ConfigID := replicate 16 CHR ''x''\<rparr>) (wCql ref_empty)"
proof -
  have "ConfigID (demo_jc\<lparr>ConfigID := replicate 16 CHR ''x''\<rparr>) \<noteq> ConfigID demo_jc"
    by (simp add: demo_jc_def uuid_Nil_def)
  from configs_are_isolated [OF ref_deployment.deployment_axioms
      system_step.message [OF surjective_pairing] this] show ?thesis by blast
qed

section \<open>Timeouts\<close>

text \<open>
  C11.  What a pass of the timeout manager sends.  Only under the partial policy, and then at most one
  message for a due member: the document of the group of that key, which was in the store and incomplete.
\<close>

theorem timeouts_send_partials:
  assumes "deployment X rows db sent commits" and "keys_apart cfg mode jc"
    and "Manager_processDue X (manager_of X cfg lg mode jc) w = (oe, w')"
    and "tvSent (timer_view_of rows db sent cfg mode jc w') = tvSent (timer_view_of rows db sent cfg mode jc w) @ ss"
    and "(topic, key, d) \<in> set ss"
  shows "Egress jc = EgressPartial \<and> topic = EgressTopic cfg
    \<and> (\<exists>x g. key = Some x \<and> tvGroups (timer_view_of rows db sent cfg mode jc w) x = Some g
        \<and> \<not> group_complete jc g \<and> group_doc jc g d)"
proof -
  obtain ms where "timeout_steps jc (EgressTopic cfg) ms (timer_view_of rows db sent cfg mode jc w)
      (timer_view_of rows db sent cfg mode jc w')"
    by (rule deployment.processDue_view [OF assms(1-3)])
  from timeout_steps_sent [OF this] assms(4,5) show ?thesis by (auto simp: partial_of_def)
qed

lemma timeouts_send_partials_witness:
  "\<exists>g. tvGroups (demo_timer_view demo_late) (HashRaw ''1'') = Some g \<and> group_doc demo_pjc g demo_partial_doc"
  using timeouts_send_partials [OF ref_deployment.deployment_axioms demo_pjc_apart demo_expire_partial,
      of "[(''out'', Some (HashRaw ''1''), demo_partial_doc)]" "''out''" "Some (HashRaw ''1'')" demo_partial_doc]
  by (simp add: demo_timer_views demo_cfg_facts)

text \<open>
  C12.  What a pass removes.  A pass adds and changes no group.  A group that it removes was incomplete, and
  under the partial policy its partial document has been sent by then; complete groups stay.
\<close>

theorem timeouts_keep_groups:
  assumes "deployment X rows db sent commits" and "keys_apart cfg mode jc"
    and "Manager_processDue X (manager_of X cfg lg mode jc) w = (oe, w')"
    and "tvGroups (timer_view_of rows db sent cfg mode jc w') x \<noteq> tvGroups (timer_view_of rows db sent cfg mode jc w) x"
  shows "\<exists>g. tvGroups (timer_view_of rows db sent cfg mode jc w) x = Some g
    \<and> tvGroups (timer_view_of rows db sent cfg mode jc w') x = None \<and> \<not> group_complete jc g
    \<and> (Egress jc = EgressPartial \<longrightarrow> (\<exists>d ss. group_doc jc g d
        \<and> tvSent (timer_view_of rows db sent cfg mode jc w') = tvSent (timer_view_of rows db sent cfg mode jc w) @ ss
        \<and> (EgressTopic cfg, Some x, d) \<in> set ss))"
proof -
  obtain ms where s: "timeout_steps jc (EgressTopic cfg) ms (timer_view_of rows db sent cfg mode jc w)
      (timer_view_of rows db sent cfg mode jc w')"
    by (rule deployment.processDue_view [OF assms(1-3)])
  from timeout_steps_shrink [OF s, of x] assms(4)
  have n: "tvGroups (timer_view_of rows db sent cfg mode jc w') x = None" by simp
  with assms(4) obtain g where "tvGroups (timer_view_of rows db sent cfg mode jc w) x = Some g" by force
  with timeout_steps_group [OF s this n] n show ?thesis by blast
qed

lemma timeouts_keep_groups_witness:
  "\<exists>g d. \<not> group_complete demo_pjc g \<and> group_doc demo_pjc g d
    \<and> (''out'', Some (HashRaw ''1''), d) \<in> set (tvSent (demo_timer_view demo_published))"
  using timeouts_keep_groups [OF ref_deployment.deployment_axioms demo_pjc_apart demo_expire_partial, of "HashRaw ''1''"]
  by (auto simp: demo_timer_views demo_pjc_egress demo_cfg_facts)


text \<open>
  C13.  Which members a pass treats.  It is \<open>process_member\<close> on a list of members, one after the other, after
  the clock has been read and Redis has answered: nothing else happens to the world.  The members are
  distinct, at most a hundred, and due by that clock reading; when fewer than a hundred are treated, all
  that are due are.  Deadlines are whole seconds, which a \<open>float64\<close> score holds exactly below \<open>2^53\<close>, so
  due means that the second has come.  The deadlines of all other members stay.
\<close>

theorem timeouts_select_due:
  assumes "deployment X rows db sent commits" and "keys_apart cfg mode jc"
    and "Manager_processDue X (manager_of X cfg lg mode jc) w = (None, w')"
    and "\<bar>time_Unix (wClock w (wTick w))\<bar> < 2 ^ 53"
  shows "\<exists>ms r. w' = fold (process_member X (manager_of X cfg lg mode jc)) ms (w\<lparr>wTick := Suc (wTick w), wRedis := r\<rparr>)
    \<and> db r = db (wRedis w) \<and> distinct ms \<and> length ms \<le> 100
    \<and> (\<forall>k\<in>set ms. tvDeadlines (timer_view_of rows db sent cfg mode jc w) k \<noteq> None)
    \<and> (\<forall>k i. \<bar>i\<bar> < 2 ^ 53 \<and> tvDeadlines (timer_view_of rows db sent cfg mode jc w) k = Some (f64_int i) \<longrightarrow>
        (k \<in> set ms \<longrightarrow> i \<le> time_Unix (wClock w (wTick w)))
        \<and> (length ms < 100 \<and> i \<le> time_Unix (wClock w (wTick w)) \<longrightarrow> k \<in> set ms))
    \<and> (\<forall>k. k \<notin> set ms \<longrightarrow> tvDeadlines (timer_view_of rows db sent cfg mode jc w') k =
        tvDeadlines (timer_view_of rows db sent cfg mode jc w) k)"
proof (rule deployment.processDue_members [OF assms(1-3)], goal_cases)
  case (1 ms r)
  have due: "(k \<in> set ms \<longrightarrow> i \<le> time_Unix (wClock w (wTick w)))
      \<and> (length ms < 100 \<and> i \<le> time_Unix (wClock w (wTick w)) \<longrightarrow> k \<in> set ms)"
    if i: "\<bar>i\<bar> < 2 ^ 53" "tvDeadlines (timer_view_of rows db sent cfg mode jc w) k = Some (f64_int i)" for k i
    using 1(6,7) i(2) score_le_exact [OF i(1) assms(4)] by (metis option.inject)
  have rest: "tvDeadlines (timer_view_of rows db sent cfg mode jc w') k =
      tvDeadlines (timer_view_of rows db sent cfg mode jc w) k" if "k \<notin> set ms" for k
    by (rule timeout_steps_deadline [OF 1(3) that])
  show ?case
    by (intro exI [of _ ms] exI [of _ r] conjI) (use 1 due rest in blast)+
qed

lemma timeouts_select_due_witness:
  "\<exists>ms r. demo_published = fold (process_member ref_ext (manager_of ref_ext demo_cfg demo_log Single demo_pjc)) ms
      (demo_late\<lparr>wTick := Suc (wTick demo_late), wRedis := r\<rparr>)
    \<and> distinct ms \<and> set ms = {hex_EncodeToString (HashRaw ''1'')}"
proof -
  let ?k = "hex_EncodeToString (HashRaw ''1'')"
  have "wClock demo_late (wTick demo_late) = 700 * ns_second" by (simp add: demo_late_def)
  then have n: "time_Unix (wClock demo_late (wTick demo_late)) = 700" by (simp add: time_Unix_def ns_second_def)
  then have "\<bar>time_Unix (wClock demo_late (wTick demo_late))\<bar> < 2 ^ 53" by simp
  from timeouts_select_due [OF ref_deployment.deployment_axioms demo_pjc_apart demo_expire_partial this]
  obtain ms r where m: "demo_published = fold (process_member ref_ext (manager_of ref_ext demo_cfg demo_log Single demo_pjc)) ms
      (demo_late\<lparr>wTick := Suc (wTick demo_late), wRedis := r\<rparr>)" "distinct ms"
    "\<forall>k\<in>set ms. tvDeadlines (demo_timer_view demo_late) k \<noteq> None"
    "\<forall>k i. \<bar>i\<bar> < 2 ^ 53 \<and> tvDeadlines (demo_timer_view demo_late) k = Some (f64_int i) \<longrightarrow>
        (k \<in> set ms \<longrightarrow> i \<le> 700) \<and> (length ms < 100 \<and> i \<le> 700 \<longrightarrow> k \<in> set ms)" unfolding n by blast
  have sub: "set ms \<subseteq> {?k}" using m(3) by (auto simp: demo_timer_deadlines split: if_splits)
  then have "length ms \<le> 1" using m(2) card_mono [of "{?k}" "set ms"] by (simp add: distinct_card)
  then have "?k \<in> set ms" using m(4) [rule_format, of 600 ?k] by (simp add: demo_timer_deadlines)
  with sub m(1,2) show ?thesis by blast
qed

text \<open>
  C14.  Poisoned members stay.  A member that is not the hexadecimal form of a key is passed over and not
  removed: when all that is due is of that kind, a pass changes nothing, and the next one finds it all again.
\<close>

theorem poisoned_members_stay:
  assumes "deployment X rows db sent commits" and "keys_apart cfg mode jc"
    and "Manager_processDue X (manager_of X cfg lg mode jc) w = (None, w')"
    and "\<forall>k s. tvDeadlines (timer_view_of rows db sent cfg mode jc w) k = Some s
      \<and> score_le s (time_Unix (wClock w (wTick w))) \<longrightarrow> \<not> is_ok (hex_DecodeString k)"
  shows "timer_view_of rows db sent cfg mode jc w' = timer_view_of rows db sent cfg mode jc w"
proof (rule deployment.processDue_members [OF assms(1-3)])
  fix ms
  assume "timeout_steps jc (EgressTopic cfg) ms (timer_view_of rows db sent cfg mode jc w)
      (timer_view_of rows db sent cfg mode jc w')"
    and "\<forall>k\<in>set ms. \<exists>s. tvDeadlines (timer_view_of rows db sent cfg mode jc w) k = Some s
      \<and> score_le s (time_Unix (wClock w (wTick w)))"
  with assms(4) show ?thesis by (intro timeout_steps_poison) auto
qed

lemma poisoned_members_stay_witness:
  "demo_timer_view (snd (Manager_processDue ref_ext (manager_of ref_ext demo_cfg demo_log Single demo_pjc) demo_poisoned))
    = demo_timer_view demo_poisoned"
proof -
  have r: "Manager_processDue ref_ext (manager_of ref_ext demo_cfg demo_log Single demo_pjc) demo_poisoned
      = (None, snd (Manager_processDue ref_ext (manager_of ref_ext demo_cfg demo_log Single demo_pjc) demo_poisoned))"
    using demo_poisoned_run by (metis prod.collapse)
  show ?thesis
    by (rule poisoned_members_stay [OF ref_deployment.deployment_axioms demo_pjc_apart r])
      (simp add: demo_poisoned_deadlines demo_not_hex del: hex_DecodeString.simps)
qed

text \<open>
  C15.  A read that fails loses a timeout.  When the state of a due key cannot be read, its deadline is
  removed all the same: the group stays in the store, nothing is sent for it, and no later pass treats it.
\<close>

theorem read_fault_loses_timeout:
  assumes "deployment X rows db sent commits" and "keys_apart cfg mode jc"
    and "hex_DecodeString member = Inr x" and "ssGetState (store_of X cfg mode jc) x w = (Inl err, w1)"
    and "z_rem X (timeouts_key mode jc) member (wRedis w1) = (None, r)"
  shows "timer_view_of rows db sent cfg mode jc (process_member X (manager_of X cfg lg mode jc) member w) =
    (timer_view_of rows db sent cfg mode jc w)\<lparr>tvDeadlines :=
      (tvDeadlines (timer_view_of rows db sent cfg mode jc w))(member := None)\<rparr>"
  by (rule deployment.read_fault_forgets [OF assms])

lemma read_fault_loses_timeout_witness:
  "tvGroups (demo_timer_view (process_member ref_ext (manager_of ref_ext demo_cfg demo_log Single demo_pjc)
      (hex_EncodeToString (HashRaw ''1'')) demo_unreadable)) (HashRaw ''1'') \<noteq> None
    \<and> tvDeadlines (demo_timer_view (process_member ref_ext (manager_of ref_ext demo_cfg demo_log Single demo_pjc)
      (hex_EncodeToString (HashRaw ''1'')) demo_unreadable)) = Map.empty"
proof -
  obtain err w1 r where g: "ssGetState (store_of ref_ext demo_cfg Single demo_pjc) (HashRaw ''1'') demo_unreadable = (Inl err, w1)"
    "z_rem ref_ext (timeouts_key Single demo_pjc) (hex_EncodeToString (HashRaw ''1'')) (wRedis w1) = (None, r)"
    using demo_unreadable_run by blast
  from read_fault_loses_timeout [OF ref_deployment.deployment_axioms demo_pjc_apart hex_roundtrip g, of demo_log]
  show ?thesis by (simp add: demo_unreadable_view)
qed

section \<open>Delayed joins\<close>

text \<open>
  C16.  A flush in memory.  Exactly the items that are due leave the list, the others keep their order; what
  is sent are messages of due items, each at most once and in the order of the list.
\<close>

theorem flush_takes_due:
  assumes "deployment X rows db sent commits" and "RedisAddr cfg = ''''"
  shows "wPending (Queue_flushDue X (queue_of X cfg lg mode jc) w) = (wPending w)(dqId (queue_of X cfg lg mode jc) :=
        filter (\<lambda>p. wClock w (wTick w) < pdPublishAt p) (wPending w (dqId (queue_of X cfg lg mode jc))))
    \<and> (\<exists>ms. sent (wKafka (Queue_flushDue X (queue_of X cfg lg mode jc) w)) = sent (wKafka w) @ ms
        \<and> subseq ms (map (\<lambda>p. (EgressTopic cfg, pdMsgKey p, pdJoined p))
            (filter (\<lambda>p. pdPublishAt p \<le> wClock w (wTick w)) (wPending w (dqId (queue_of X cfg lg mode jc))))))"
proof -
  have m: "pending_message (dqTopic (queue_of X cfg lg mode jc)) = (\<lambda>p. (EgressTopic cfg, pdMsgKey p, pdJoined p))"
    by (simp add: fun_eq_iff pending_message_def queue_of_simps)
  have f: "Queue_flushDue X (queue_of X cfg lg mode jc) w = Queue_flushDueMemory (queue_of X cfg lg mode jc) w"
    by (simp add: Queue_flushDue_def queue_of_simps assms(2))
  note q = deployment.queue_meets [OF assms(1), of cfg lg mode jc]
  show ?thesis
    using queue_services.flush_memory_pending [OF q] queue_services.flush_memory_sent [OF q]
    unfolding f m by blast
qed

lemma flush_takes_due_witness:
  "wPending demo_flushed 0 = [demo_item 5] \<and> (\<exists>ms. rkSent (wKafka demo_flushed) = ms \<and> subseq ms [(''out'', None, demo_doc)])"
  using flush_takes_due [OF ref_deployment.deployment_axioms demo_queue_id(2), of demo_log Single demo_djc demo_parked]
  unfolding demo_flush demo_queue_id
  by (simp add: demo_parked_def demo_item_def demo_after_a_def ref_empty_def ref_world_def)

text \<open>
  C17.  A delayed join can be lost.  When the produce call of the flush fails, the item has already left the
  list, nothing has been sent, and it is not put back.
\<close>

theorem delayed_join_lost:
  assumes "deployment X rows db sent commits" and "RedisAddr cfg = ''''"
    and "wPending w (dqId (queue_of X cfg lg mode jc)) = [p]" and "pdPublishAt p \<le> wClock w (wTick w)"
    and "kgo_produce X (EgressTopic cfg) (pdMsgKey p) (pdJoined p) (wKafka w) = (Some err, k')"
    and "sent k' = sent (wKafka w)"
  shows "wPending (Queue_flushDue X (queue_of X cfg lg mode jc) w) (dqId (queue_of X cfg lg mode jc)) = []
    \<and> sent (wKafka (Queue_flushDue X (queue_of X cfg lg mode jc) w)) = sent (wKafka w)"
  by (rule deployment.lost_when_produce_fails [OF assms])

lemma delayed_join_lost_witness:
  "wPending (Queue_flushDue ref_ext demo_queue demo_refused) (dqId demo_queue) = []
    \<and> rkSent (wKafka (Queue_flushDue ref_ext demo_queue demo_refused)) = rkSent (wKafka demo_refused)"
  by (rule delayed_join_lost [OF ref_deployment.deployment_axioms demo_queue_id(2) demo_refused_facts]) simp

text \<open>
  C18.  The Redis form reads back.  Scheduling adds one member to the sorted set, and a flush that meets that
  member publishes the document it was made of, for the key it was made of, and removes it.  The message
  key comes back too, except that a missing one comes back as an empty one.
\<close>

theorem delayed_item_roundtrip:
  "Queue_scheduleRedis X q h j k at w =
     (case on_redis (z_add X (dqRedisKey q) (f64_int (time_UnixNano at)) (queue_member h j k)) w of
        (Some err, w1) \<Rightarrow> metric (Inc EgressFailuresTotal [dqConfigName q, ''delay''])
          (lgError (dqLog q) ''delay queue ZADD failed'' [KStr ''error'', KErr err] w1)
      | (None, w1) \<Rightarrow> w1)
   \<and> flush_member X q (queue_member h j k) v =
     (case on_redis (z_rem X (dqRedisKey q) (queue_member h j k))
        (Queue_publishAndCleanup q h j (Some (case k of None \<Rightarrow> [] | Some x \<Rightarrow> x)) v) of
       (Some err, w2) \<Rightarrow> lgWarn (dqLog q) ''delay queue ZREM failed'' [KStr ''error'', KErr err] w2
     | (None, w2) \<Rightarrow> w2)"
  using scheduleRedis_member flush_queue_member by blast


section \<open>The consumer\<close>

text \<open>
  C19.  A retried commit.  It asks for at most \<open>maxAttempts\<close> commits, each of the one record, and reports
  success only after one that was made.
\<close>

theorem commit_retry_bounded:
  assumes "kafka_group X sent commits" and "logger_laws log" and "0 < maxA"
    and "commitWithRetry X rec name log maxA w = (oe, w')"
  shows "\<exists>j. j \<le> nat maxA \<and> commits (wKafka w') = commits (wKafka w) @ replicate j rec \<and> (oe = None \<longrightarrow> 0 < j)"
  by (rule kafka_group.commitWithRetry_commits [OF assms(1,2,4,3)]) blast

lemma commit_retry_bounded_witness:
  "\<exists>j\<le>3. rkCommits (wKafka (snd (commitWithRetry ref_ext demo_good ''demo'' nopLogger 3 ref_empty))) = replicate j demo_good"
  using commit_retry_bounded [OF ref_group.kafka_group_axioms nop_logs.logger_laws_axioms _ surjective_pairing,
      of 3 demo_good "''demo''" ref_empty]
  by (simp add: ref_empty_commits) blast

text \<open>
  C20.  The commits of a partition.  Only records of the fetch are committed, in the order of the fetch, each
  with at most three calls; handling messages commits nothing by itself.
\<close>

theorem partition_commits_in_order:
  assumes "deployment X rows db sent commits" and "keys_apart cfg mode jc"
    and "run_partition X (HandlerResolverFromSingle (handler_of X cfg lg mode jc)) (impl_logger lg) recs ce w = (oe, w')"
  shows "\<exists>cs. commits (wKafka w') = commits (wKafka w) @ concat cs \<and> length cs \<le> length recs
    \<and> (\<forall>i<length cs. set (cs ! i) \<subseteq> {recs ! i} \<and> length (cs ! i) \<le> 3)"
proof -
  have "keeps_commits X commits (HandlerResolverFromSingle (handler_of X cfg lg mode jc))"
    using deployment.Handle_commits [OF assms(1,2)] by (simp add: keeps_commits_def HandlerResolverFromSingle_def)
  with assms show ?thesis
    by (intro kafka_group.run_partition_commits [where log = "impl_logger lg"])
      (auto simp: deployment_def impl_logs.logger_laws_axioms)
qed

lemma partition_commits_in_order_witness:
  "\<exists>a b. rkCommits (wKafka (snd (demo_partition [demo_bad, demo_good] None ref_empty))) = a @ b
    \<and> set a \<subseteq> {demo_bad} \<and> set b \<subseteq> {demo_good} \<and> length a \<le> 3 \<and> length b \<le> 3"
proof -
  from partition_commits_in_order [OF ref_deployment.deployment_axioms demo_keys_apart surjective_pairing,
      of demo_log "[demo_bad, demo_good]" None ref_empty]
  obtain cs where cs: "rkCommits (wKafka (snd (demo_partition [demo_bad, demo_good] None ref_empty))) = concat cs"
    "length cs \<le> 2" "\<forall>i<length cs. set (cs ! i) \<subseteq> {[demo_bad, demo_good] ! i} \<and> length (cs ! i) \<le> 3"
    by (auto simp del: run_partition.simps simp: ref_empty_commits)
  show ?thesis unfolding cs(1)
  proof (cases cs)
    case Nil
    then show "\<exists>a b. concat cs = a @ b \<and> set a \<subseteq> {demo_bad} \<and> set b \<subseteq> {demo_good} \<and> length a \<le> 3 \<and> length b \<le> 3"
      by (intro exI [of _ "[]"]) simp
  next
    case (Cons a r)
    have "r = [] \<or> (\<exists>b. r = [b])" using cs(2) Cons by (cases r) auto
    then have "set (concat r) \<subseteq> {demo_good} \<and> length (concat r) \<le> 3" using cs(3) [rule_format, of 1] Cons by auto
    moreover have "set a \<subseteq> {demo_bad} \<and> length a \<le> 3" using cs(3) [rule_format, of 0] Cons by auto
    ultimately show "\<exists>a b. concat cs = a @ b \<and> set a \<subseteq> {demo_bad} \<and> set b \<subseteq> {demo_good} \<and> length a \<le> 3 \<and> length b \<le> 3"
      using Cons by (intro exI [of _ a] exI [of _ "concat r"]) simp
  qed
qed

text \<open>
  C21.  A failed record is passed over.  When the first of two records of a partition fails to be handled and
  something is committed all the same, it is the second record: its offset stands for both, and the
  first record is not consumed again.
\<close>

theorem failed_record_passed_over:
  assumes "deployment X rows db sent commits" and "keys_apart cfg mode jc"
    and "Handle X (handler_of X cfg lg mode jc) (recordFromKgo r1) w = (Some e, w1)"
    and "run_partition X (HandlerResolverFromSingle (handler_of X cfg lg mode jc)) (impl_logger lg) [r1, r2] ce w = (oe, w')"
    and "commits (wKafka w') \<noteq> commits (wKafka w)"
  shows "\<exists>j. 0 < j \<and> commits (wKafka w') = commits (wKafka w) @ replicate j r2"
proof -
  let ?g = "HandlerResolverFromSingle (handler_of X cfg lg mode jc)" and ?log = "impl_logger lg"
  define v where "v = lgError ?log ''handle error''
     [KStr ''topic'', KStr (krTopic r1), KStr ''partition'', KInt (krPartition r1), KStr ''offset'', KInt (krOffset r1),
      KStr ''key'', KStr (case krKey r1 of None \<Rightarrow> [] | Some k \<Rightarrow> k), KStr ''error'', KErr e]
     (metric (Inc HandleErrorsTotal [cfgName (hJoinCfg (handler_of X cfg lg mode jc))]) w1)"
  have k: "keeps_commits X commits ?g"
    using deployment.Handle_commits [OF assms(1,2)] by (simp add: keeps_commits_def HandlerResolverFromSingle_def)
  have v: "commits (wKafka v) = commits (wKafka w)"
    using deployment.Handle_commits [OF assms(1,2,3)]
    by (simp add: v_def log_onlyD(3) [OF logger_laws.error_only [OF impl_logs.logger_laws_axioms]])
  have r: "run_partition X ?g ?log [r2] ce v = (oe, w')"
    using assms(4) by (simp add: HandlerResolverFromSingle_def assms(3) v_def)
  from assms(1) have "kafka_group X sent commits" by (simp add: deployment_def)
  from kafka_group.run_partition_commits [OF this impl_logs.logger_laws_axioms k r]
  obtain cs where c: "commits (wKafka w') = commits (wKafka v) @ concat cs" "length cs \<le> 1"
    "\<forall>i<length cs. set (cs ! i) \<subseteq> {[r2] ! i}" by auto
  obtain c0 where c0: "cs = [c0]" using c(1,2) assms(5) v by (cases cs) auto
  with c(3) have "\<forall>r\<in>set c0. r = r2" by auto
  then have "replicate (length c0) r2 = c0" by (rule replicate_length_same)
  with c(1) c0 v assms(5) show ?thesis by (intro exI [of _ "length c0"]) auto
qed

lemma failed_record_passed_over_witness:
  "\<exists>j. 0 < j \<and> rkCommits (wKafka (snd (demo_partition [demo_bad, demo_good] None ref_empty))) = replicate j demo_good"
  using failed_record_passed_over [OF ref_deployment.deployment_axioms demo_keys_apart demo_bad_handle surjective_pairing
      demo_passed_over]
  by (simp del: run_partition.simps add: ref_empty_commits)

text \<open>
  C22.  A record for an unknown configuration ends its partition.  However many records follow it in the
  fetch, none of them is handled or committed in this turn: the stores and what has been sent stay as
  they were, and only the record itself is committed.
\<close>

theorem unknown_config_ends_partition:
  assumes "kafka_group X sent commits" and "logger_laws log"
    and "getConfigID X (recordFromKgo rec) = Inr cid" and "hs cid = None"
    and "run_partition X (HandlerResolverFromMap X hs) log (rec # recs) ce w = (oe, w')"
  shows "(\<exists>j\<le>3. commits (wKafka w') = commits (wKafka w) @ replicate j rec)
    \<and> wCql w' = wCql w \<and> wRedis w' = wRedis w \<and> sent (wKafka w') = sent (wKafka w)"
proof -
  have "HandlerResolverFromMap X hs (recordFromKgo rec) = Inl (ErrFmt ''unknown config_id %s'' [FStr cid])"
    using assms(3,4) by (simp add: HandlerResolverFromMap_def)
  from kafka_group.run_partition_no_handler [OF assms(1,2) this assms(5)] show ?thesis by blast
qed

lemma unknown_config_ends_partition_witness:
  "wCql (snd (run_partition ref_ext (HandlerResolverFromMap ref_ext Map.empty) nopLogger
      [demo_record 0 [(''x-config-id'', replicate 16 CHR ''x'')], demo_good] None ref_empty)) = wCql ref_empty"
proof -
  have "getConfigID ref_ext (recordFromKgo (demo_record 0 [(''x-config-id'', replicate 16 CHR ''x'')])) =
      Inr (replicate 16 CHR ''x'')"
    by (simp add: getConfigID_def configIDHeader_def recordFromKgo_def demo_record_def ref_ext_def)
  from unknown_config_ends_partition [where hs = Map.empty and recs = "[demo_good]" and ce = None and w = ref_empty,
      OF ref_group.kafka_group_axioms nop_logs.logger_laws_axioms this _ surjective_pairing]
  show ?thesis by simp
qed

text \<open>
  C23.  A key that the Bloom filter misses strands its join.  When a group is in the store but its key is not
  in the filter, as after a failed update of the filter, the event that completes the group is handled
  without an error, and nothing is sent.  The complete group is then in the store, and however many passes
  the timeout manager makes, it stays there and no message for its key is sent by them.
\<close>

theorem unmarked_key_strands_join:
  assumes "deployment X rows db sent commits" and "keys_apart cfg mode jc" and "event_of jc rec = Some e"
    and "evHash e \<notin> jSeen (view_of rows db sent cfg mode jc w)"
    and "group_complete jc (group_with e t (jGroups (view_of rows db sent cfg mode jc w) (evHash e)))"
    and "Handle X (handler_of X cfg lg mode jc) rec w = (None, w')"
  shows "\<exists>g ss. gData g = gData (group_with e t (jGroups (view_of rows db sent cfg mode jc w) (evHash e)))
    \<and> group_complete jc g
    \<and> jSent (view_of rows db sent cfg mode jc w') = jSent (view_of rows db sent cfg mode jc w)
    \<and> jGroups (view_of rows db sent cfg mode jc (manager_passes n X (manager_of X cfg lg' mode jc) w')) (evHash e) = Some g
    \<and> jSent (view_of rows db sent cfg mode jc (manager_passes n X (manager_of X cfg lg' mode jc) w')) =
        jSent (view_of rows db sent cfg mode jc w) @ ss
    \<and> Some (evHash e) \<notin> (fst \<circ> snd) ` set ss"
proof -
  have "handle_step jc (EgressTopic cfg) (CorrectionsTopic cfg) e (view_of rows db sent cfg mode jc w) None
      (view_of rows db sent cfg mode jc w')"
    using deployment.Handle_view [OF assms(1,2,6)] assms(3) by simp
  from handle_step_unseen_ok [OF this assms(4)] obtain t' S where
    v: "view_of rows db sent cfg mode jc w' = stored e t' ((view_of rows db sent cfg mode jc w)\<lparr>jSeen := S\<rparr>)" by blast
  define g where "g = group_with e t' (jGroups (view_of rows db sent cfg mode jc w) (evHash e))"
  have g: "gData g = gData (group_with e t (jGroups (view_of rows db sent cfg mode jc w) (evHash e)))"
    by (simp add: g_def group_with_data)
  note c = group_complete_data [OF g, THEN iffD2, OF assms(5)]
  have s: "jGroups (view_of rows db sent cfg mode jc w') (evHash e) = Some g"
    "jSent (view_of rows db sent cfg mode jc w') = jSent (view_of rows db sent cfg mode jc w)"
    by (simp_all add: v stored_def g_def)
  from deployment.passes_keep_complete [OF assms(1,2) s(1) c, of n lg'] s(2) g c show ?thesis
    by (intro exI [of _ g]) fastforce
qed

lemma unmarked_key_strands_join_witness:
  "\<exists>w1 err w2 g. Handle ref_ext demo_handler (demo_message ''a'' ''p'') demo_unmarked = (Some err, w1)
    \<and> Handle ref_ext demo_handler (demo_message ''b'' ''q'') w1 = (None, w2) \<and> group_complete demo_jc g
    \<and> jGroups (demo_view (manager_passes 5 ref_ext (manager_of ref_ext demo_cfg demo_log Single demo_jc) w2))
        (HashRaw ''1'') = Some g
    \<and> jSent (demo_view w2) = []"
proof -
  obtain w1 err where r: "Handle ref_ext demo_handler (demo_message ''a'' ''p'') demo_unmarked = (Some err, w1)"
    "Handle ref_ext demo_handler (demo_message ''b'' ''q'') w1 = (None, demo_stranded)"
    and w: "wCql w1 = wCql demo_after_a" "wRedis w1 = wRedis ref_empty" "wKafka w1 = wKafka ref_empty"
    using demo_unmarked_run by blast
  note v = demo_unmarked_view [OF w]
  have h: "evHash (demo_event ''b'' ''q'') = HashRaw ''1''" by (simp add: demo_event_def)
  have "group_complete demo_jc (group_with (demo_event ''b'' ''q'') 0 (jGroups (demo_view w1) (HashRaw ''1'')))"
    by (simp add: v demo_view_a group_with_def group_put_def group_complete_def demo_cfg_facts demo_event_def)
  with unmarked_key_strands_join [OF ref_deployment.deployment_axioms demo_keys_apart demo_event_of(2) _ _ r(2),
      of 0 5 demo_log] v r
  show ?thesis unfolding h by auto
qed

section \<open>Projection and engine\<close>

text \<open>
  C24.  The document does not depend on the iteration order.  Go iterates over the participants in an
  unspecified order; two orders of the same participants give the same bytes.
\<close>

theorem projection_order_independent:
  assumes "gm_equiv data data'" and "is_ok (projection_Apply data proj)"
  shows "projection_Apply data' proj = projection_Apply data proj"
  using assms by (rule projection_Apply_equiv)

lemma projection_order_independent_witness:
  "projection_Apply [(''b'', demo_payload ''q''), (''a'', demo_payload ''p'')] (Projection demo_jc) =
    projection_Apply [(''a'', demo_payload ''p''), (''b'', demo_payload ''q'')] (Projection demo_jc)"
  by (rule projection_order_independent)
    (auto simp: gm_equiv_def gm_wf_def fun_eq_iff demo_projection)

text \<open>
  C25.  What the document holds.  When all payloads decode, it is the JSON text of the object that maps each
  output name to the field its projection entry names, the last entry of a name winning; entries whose
  stream or field is missing are left out.
\<close>

theorem projection_document:
  assumes "gm_wf data" and "\<forall>raw\<in>snd ` set data. decodes raw"
  shows "\<exists>out. projection_Apply data proj = json_Marshal_map out \<and> gm_wf out
    \<and> gm_get out = output_of (decoded (gm_get data)) proj"
  by (rule projection_Apply_document [OF assms]) blast

lemma projection_document_witness:
  "\<exists>out. projection_Apply [(''a'', demo_payload ''p'')] (Projection demo_jc) = json_Marshal_map out \<and> gm_wf out
    \<and> gm_get out = output_of (decoded (gm_get [(''a'', demo_payload ''p'')])) (Projection demo_jc)"
  by (rule projection_document) (simp_all add: gm_wf_def decodes_def is_ok_def demo_json)

text \<open>
  C26.  When a state is complete.  As long as all participants are of configured streams, the count that the
  engine compares means that every stream has arrived, and that no stream is configured twice.  Validation
  does not look at the order or the repetition of the stream ids: a configuration that lists a stream
  twice passes, and its joins never complete from their own streams.  That the participants are of
  configured streams is a hypothesis, which the handler does not enforce (C27).
\<close>

theorem completion_exact:
  assumes "gm_wf (ParticipantData st)" and "fst ` set (ParticipantData st) \<subseteq> set (StreamIDs jc)"
  shows "(Engine_IsComplete (engine_New jc) (Some st) \<longleftrightarrow>
      distinct (StreamIDs jc) \<and> fst ` set (ParticipantData st) = set (StreamIDs jc))
    \<and> (\<forall>ids. set ids = set (StreamIDs jc) \<longrightarrow>
      ValidateJoinConfig (Some (jc\<lparr>StreamIDs := ids\<rparr>)) = None \<longleftrightarrow> ValidateJoinConfig (Some jc) = None)"
  using Engine_IsComplete_exact [of st "engine_New jc"] assms
  by (auto simp: engine_New_def ValidateJoinConfig_None valid_join_config_def)

lemma completion_exact_witness:
  "ValidateJoinConfig (Some (demo_jc\<lparr>StreamIDs := [''a'', ''b'', ''a'']\<rparr>)) = None
    \<and> \<not> Engine_IsComplete (engine_New (demo_jc\<lparr>StreamIDs := [''a'', ''b'', ''a'']\<rparr>))
      (Some (demo_state_a\<lparr>ParticipantData := [(''a'', demo_payload ''p''), (''b'', demo_payload ''q'')]\<rparr>))
    \<and> Engine_IsComplete (engine_New demo_jc)
      (Some (demo_state_a\<lparr>ParticipantData := [(''a'', demo_payload ''p''), (''b'', demo_payload ''q'')]\<rparr>))"
proof -
  let ?st = "demo_state_a\<lparr>ParticipantData := [(''a'', demo_payload ''p''), (''b'', demo_payload ''q'')]\<rparr>"
  have i: "StreamIDs demo_jc = [''a'', ''b'']" by (simp add: demo_jc_def)
  have "ValidateJoinConfig (Some demo_jc) = None"
    by (simp add: ValidateJoinConfig_None valid_join_config_def) (simp add: demo_jc_def EgressInner_def EgressPartial_def)
  moreover have "gm_wf (ParticipantData ?st)" "fst ` set (ParticipantData ?st) = {''a'', ''b''}" by (simp_all add: gm_wf_def)
  moreover have d: "set (StreamIDs demo_jc) = {''a'', ''b''}" "distinct (StreamIDs demo_jc)"
    "set (StreamIDs (demo_jc\<lparr>StreamIDs := [''a'', ''b'', ''a'']\<rparr>)) = {''a'', ''b''}"
    "\<not> distinct (StreamIDs (demo_jc\<lparr>StreamIDs := [''a'', ''b'', ''a'']\<rparr>))" "set [''a'', ''b'', ''a''] = {''a'', ''b''}"
    by (simp_all add: i insert_commute)
  ultimately show ?thesis
    using completion_exact [of ?st demo_jc] completion_exact [of ?st "demo_jc\<lparr>StreamIDs := [''a'', ''b'', ''a'']\<rparr>"]
    by (metis order_refl)
qed

text \<open>
  C27.  An event of an unknown stream counts.  The handler takes any value of the stream header.  When the
  event of a stream that is not configured makes the number of participants right, the join is published
  without the data of a configured stream that has not arrived, and its state is deleted.
\<close>

theorem unknown_stream_completes:
  assumes "deployment X rows db sent commits" and "keys_apart cfg mode jc"
    and "PostJoinDelay jc \<le> 0" and "CorrectionsTopic cfg = []" and "event_of jc rec = Some e"
    and "evHash e \<in> jSeen (view_of rows db sent cfg mode jc w)"
    and "jGroups (view_of rows db sent cfg mode jc w) (evHash e) = Some g0"
    and "evStream e \<notin> set (StreamIDs jc) \<union> dom (gData g0)"
    and "int (card (dom (gData g0))) + 1 = join_N jc" and "finite (dom (gData g0))"
    and "s \<in> set (StreamIDs jc)" and "gData g0 s = None"
    and "Handle X (handler_of X cfg lg mode jc) rec w = (None, w')"
  shows "\<exists>g d. gData g = (gData g0)(evStream e \<mapsto> evPayload e) \<and> gData g s = None \<and> group_doc jc g d
    \<and> jSent (view_of rows db sent cfg mode jc w') =
        jSent (view_of rows db sent cfg mode jc w) @ [(EgressTopic cfg, evKey e, d)]
    \<and> jGroups (view_of rows db sent cfg mode jc w') (evHash e) = None"
proof -
  have st: "handle_step jc (EgressTopic cfg) [] e (view_of rows db sent cfg mode jc w) None
      (view_of rows db sent cfg mode jc w')"
    using deployment.Handle_view [OF assms(1,2,13)] assms(4,5) by simp
  have d: "gData (group_with e 0 (Some g0)) = (gData g0)(evStream e \<mapsto> evPayload e)" by (simp add: group_with_data)
  have "card (dom (gData (group_with e 0 (Some g0)))) = Suc (card (dom (gData g0)))"
    using assms(8,10) by (simp add: d)
  then have "group_complete jc (group_with e 0 (jGroups (view_of rows db sent cfg mode jc w) (evHash e)))"
    using assms(7,9) by (simp add: group_complete_def)
  from handle_step_completes [OF st assms(6,3) this] obtain g doc where
    "gData g = (gData g0)(evStream e \<mapsto> evPayload e)" "group_doc jc g doc"
    "jSent (view_of rows db sent cfg mode jc w') =
      jSent (view_of rows db sent cfg mode jc w) @ [(EgressTopic cfg, evKey e, doc)]"
    "jGroups (view_of rows db sent cfg mode jc w') (evHash e) = None"
    unfolding assms(7) d .
  moreover have "evStream e \<noteq> s" using assms(8,11) by auto
  ultimately show ?thesis using assms(12) by (intro exI [of _ g] exI [of _ doc]) auto
qed

lemma unknown_stream_completes_witness:
  "\<exists>g d. jSent (demo_view (snd (Handle ref_ext demo_handler (demo_message ''zzz'' ''q'') demo_after_a))) = [(''out'', None, d)]
    \<and> group_doc demo_jc g d \<and> gData g ''b'' = None"
proof -
  have r: "Handle ref_ext demo_handler (demo_message ''zzz'' ''q'') demo_after_a =
      (None, snd (Handle ref_ext demo_handler (demo_message ''zzz'' ''q'') demo_after_a))"
    using demo_unknown_run by (metis prod.collapse)
  have e: "evHash (demo_event ''zzz'' ''q'') = HashRaw ''1''" "evStream (demo_event ''zzz'' ''q'') = ''zzz''"
    "evKey (demo_event ''zzz'' ''q'') = None" by (simp_all add: demo_event_def)
  have i: "StreamIDs demo_jc = [''a'', ''b'']" by (simp add: demo_jc_def)
  from unknown_stream_completes [OF ref_deployment.deployment_axioms demo_keys_apart _ _ demo_event_of(2) _ _ _ _ _ _ _ r,
      of "\<lparr>gRaw = ''1'', gData = [''a'' \<mapsto> demo_payload ''p''], gTimes = [''a'' \<mapsto> 0]\<rparr>" "''b''"]
  show ?thesis by (auto simp: e i demo_view_a demo_cfg_facts)
qed

section \<open>Configuration and keys\<close>

text \<open>
  C28.  Validation.  A configuration passes exactly when it has streams, its projection names only them, its
  key is given by a field or by non-empty fields, and the partial policy comes with a positive TTL.
\<close>

theorem validation_exact: "ValidateJoinConfig oc = None \<longleftrightarrow> (\<exists>c. oc = Some c \<and> valid_join_config c)"
  by (rule ValidateJoinConfig_None)

text \<open>
  C29.  Start-up checks.  When the checks pass, every join configuration that will run is there and valid;
  when they fail, the processor ends before it has called any service.  A nil entry of the list of
  configurations does not pass either, but there the report of the error panics.
\<close>

theorem startup_checks:
  "(run_checks cfg = None \<longleftrightarrow>
     (if MultiConfig cfg then \<forall>ojc\<in>set (JoinConfigs cfg). \<exists>jc. ojc = Some jc \<and> valid_join_config jc
      else \<exists>jc. JoinConfig cfg = Some jc \<and> valid_join_config jc))
   \<and> (MultiConfig cfg \<and> hd (JoinConfigs cfg) = None \<longrightarrow> run_checks cfg = Some Panicked)
   \<and> (run_checks cfg = Some out \<longrightarrow> processor_run n X lv fmt cfg w = (out, w))"
proof (intro conjI impI)
  let ?bad = "\<lambda>ojc. ValidateJoinConfig ojc \<noteq> None"
  have f: "List.find ?bad (JoinConfigs cfg) = None
      \<longleftrightarrow> (\<forall>ojc\<in>set (JoinConfigs cfg). \<exists>jc. ojc = Some jc \<and> valid_join_config jc)"
    by (auto simp: find_None_iff ValidateJoinConfig_None)
  have "?bad ojc" if "List.find ?bad (JoinConfigs cfg) = Some ojc" for ojc
    using that by (auto simp: find_Some_iff)
  then have "run_checks cfg = None \<longleftrightarrow> List.find ?bad (JoinConfigs cfg) = None" if "MultiConfig cfg"
    using that by (auto simp: run_checks_def MultiConfig_def split: option.splits)
  then show "run_checks cfg = None \<longleftrightarrow>
     (if MultiConfig cfg then \<forall>ojc\<in>set (JoinConfigs cfg). \<exists>jc. ojc = Some jc \<and> valid_join_config jc
      else \<exists>jc. JoinConfig cfg = Some jc \<and> valid_join_config jc)"
    using f by (auto simp: run_checks_def ValidateJoinConfig_None split: option.splits)
  show "run_checks cfg = Some Panicked" if "MultiConfig cfg \<and> hd (JoinConfigs cfg) = None"
    using that by (cases "JoinConfigs cfg") (auto simp: run_checks_def MultiConfig_def ValidateJoinConfig_def)
qed (simp add: processor_run_def)

lemma startup_checks_witness:
  "processor_run 1 ref_ext '''' '''' (demo_cfg\<lparr>JoinConfigs := [None]\<rparr>) ref_empty = (Panicked, ref_empty)"
  using startup_checks [of "demo_cfg\<lparr>JoinConfigs := [None]\<rparr>" Panicked 1 ref_ext "''''" "''''" ref_empty]
  by (simp add: MultiConfig_def)

text \<open>
  C30.  Composite keys.  The join key of an event depends on the set of key fields and their values only, not
  on the order in which the configuration lists them or the event's map iterates.
\<close>

theorem key_order_independent:
  assumes "set fs = set fs'" and "\<And>f. f \<in> set fs \<Longrightarrow> gm_get m f = gm_get m' f"
  shows "KeyFromFields fs m = KeyFromFields fs' m'"
  using assms by (rule KeyFromFields_cong)

lemma key_order_independent_witness:
  "KeyFromFields [''u'', ''v''] [(''u'', JStr ''1''), (''v'', JBool True)] =
    KeyFromFields [''v'', ''u''] [(''v'', JBool True), (''w'', JNull), (''u'', JStr ''1'')]"
  by (rule key_order_independent) auto

text \<open>
  C31.  Events without a key meet.  An event whose key field is missing, or is not a string, is accepted with
  the empty raw key, and so is one without any of the key fields: all of them have the same join key.
\<close>

theorem missing_key_is_empty_key:
  assumes "json_Unmarshal_map v = Inr m"
    and "if kdField (cfgKey jc) \<noteq> '''' then \<forall>s. gm_get m (kdField (cfgKey jc)) \<noteq> Some (JStr s)
      else \<forall>f\<in>set (kdFields (cfgKey jc)). gm_get m f = None"
  shows "extractKey jc (Some v) = Inr (HashRaw '''', '''')"
  using assms KeyFromFields_missing [of "kdFields (cfgKey jc)" m]
  by (auto simp: extractKey_def CompositeKey_def serializeComposite_def split: option.splits json.splits if_splits)

lemma missing_key_is_empty_key_witness:
  "extractKey demo_jc (Some ''{}'') = Inr (HashRaw '''', '''')"
proof -
  have "json_Unmarshal_map ''{}'' = Inr []" by code_simp
  then show ?thesis by (rule missing_key_is_empty_key) (simp add: demo_jc_def)
qed

section \<open>Faults and services\<close>

text \<open>
  C32.  A failed message can be handled again.  For a join that is published without delay and without
  corrections, and a key that the Bloom filter knows: when the event that completes a group fails to be
  handled, wherever it failed, and is then handled without an error, the document of the completed group
  has been sent, by the second run if not by the first.
\<close>

theorem redelivery_completes:
  assumes "deployment X rows db sent commits" and "keys_apart cfg mode jc"
    and "PostJoinDelay jc \<le> 0" and "CorrectionsTopic cfg = []" and "event_of jc rec = Some e"
    and "evHash e \<in> jSeen (view_of rows db sent cfg mode jc w)"
    and "group_complete jc (group_with e t (jGroups (view_of rows db sent cfg mode jc w) (evHash e)))"
    and "Handle X (handler_of X cfg lg mode jc) rec w = (Some err, w1)"
    and "Handle X (handler_of X cfg lg mode jc) rec w1 = (None, w2)"
  shows "\<exists>g d. gData g = gData (group_with e t (jGroups (view_of rows db sent cfg mode jc w) (evHash e)))
    \<and> group_doc jc g d \<and> (EgressTopic cfg, evKey e, d) \<in> set (jSent (view_of rows db sent cfg mode jc w2))"
proof -
  note v = deployment.Handle_view [OF assms(1,2)]
  show ?thesis
    by (rule handle_step_retry [OF _ _ assms(6,3,7)]) (use v [OF assms(8)] v [OF assms(9)] assms(4,5) in auto)
qed

lemma redelivery_completes_witness:
  "\<exists>w1 err w2 g d. Handle ref_ext demo_handler (demo_message ''b'' ''q'') demo_refusing = (Some err, w1)
    \<and> Handle ref_ext demo_handler (demo_message ''b'' ''q'') w1 = (None, w2)
    \<and> group_doc demo_jc g d \<and> (''out'', None, d) \<in> set (jSent (demo_view w2))"
proof -
  obtain w1 err w2 where r: "Handle ref_ext demo_handler (demo_message ''b'' ''q'') demo_refusing = (Some err, w1)"
    "Handle ref_ext demo_handler (demo_message ''b'' ''q'') w1 = (None, w2)"
    using demo_again by blast
  have e: "evHash (demo_event ''b'' ''q'') = HashRaw ''1''" "evKey (demo_event ''b'' ''q'') = None"
    by (simp_all add: demo_event_def)
  have "group_complete demo_jc (group_with (demo_event ''b'' ''q'') 0 (jGroups (demo_view demo_refusing) (HashRaw ''1'')))"
    by (simp add: demo_refusing_view demo_view_a group_with_def group_put_def group_complete_def demo_cfg_facts
        demo_event_def)
  with redelivery_completes [OF ref_deployment.deployment_axioms demo_keys_apart _ _ demo_event_of(2) _ _ r, of 0]
  show ?thesis using r by (fastforce simp: e demo_refusing_view demo_view_a demo_cfg_facts)
qed

text \<open>
  C33.  What is stored is read back.  After a participant has been written, in either kind of store, a read
  that succeeds finds the state of the key, with the participants that were there and the new one; no
  other key has changed.
\<close>

theorem store_reads_back:
  assumes "deployment X rows db sent commits"
    and "ssUpsertParticipantOnly (store_of X cfg mode jc) h raw cid s p w = (None, w1)"
    and "ssGetState (store_of X cfg mode jc) h w1 = (Inr ost, w2)"
  shows "(\<exists>st. ost = Some st \<and> JoinKeyRaw st = raw \<and> gm_wf (ParticipantData st)
      \<and> gm_get (ParticipantData st) =
        (case groups_of rows cfg mode jc (wCql w) h of None \<Rightarrow> Map.empty | Some g \<Rightarrow> gData g)(s \<mapsto> p))
    \<and> (\<forall>x. x \<noteq> h \<longrightarrow> groups_of rows cfg mode jc (wCql w2) x = groups_of rows cfg mode jc (wCql w) x)"
proof -
  note L = deployment.store_of_laws [OF assms(1)]
  obtain st where "ost = Some st" "gm_wf (ParticipantData st)" "JoinKeyRaw st = raw"
    "map_of (ParticipantData st) =
      (case groups_of rows cfg mode jc (wCql w) h of None \<Rightarrow> Map.empty | Some g \<Rightarrow> gData g)(s \<mapsto> p)"
    by (rule state_store_laws.write_then_get [OF L assms(2,3)])
  then show ?thesis
    using state_store_laws.only_ok [OF L assms(2)] state_store_laws.get_groups [OF L assms(3)]
    by auto
qed


lemma store_reads_back_witness:
  "gm_get (ParticipantData demo_state_a) = [''a'' \<mapsto> demo_payload ''p'']"
proof -
  define w where "w = demo_after_a\<lparr>wCql := \<lparr>rcRows = [], rcFaults = []\<rparr>, wTick := 1\<rparr>"
  have u: "ssUpsertParticipantOnly (store_of ref_ext demo_cfg Single demo_jc) (HashRaw ''1'') ''1'' uuid_Nil ''a''
      (demo_payload ''p'') w = (None, demo_after_a)"
    by (simp add: w_def demo_defs run_defs demo_after_a_def demo_row_def)
  from store_reads_back [OF ref_deployment.deployment_axioms u demo_get_a] show ?thesis
    by (auto simp: w_def demo_groups)
qed

text \<open>
  C34.  The Bloom filter denies no key that was added.  Once an addition of a key has succeeded, the key is
  found, whatever other keys are added afterwards, with or without an error.
\<close>

theorem bloom_never_denies:
  assumes "redis_server X db" and "Filter_Add X f h w = (None, w1)"
    and "Filter_Exists X f h (fold (\<lambda>x v. snd (Filter_Add X f x v)) hs w1) = (Inr b, w2)"
  shows b
proof -
  note L = redis_server.bloom_keeps_contract [OF assms(1), of f]
  have a: "bcAdd (bloom_iface X f) = Filter_Add X f" "bcExists (bloom_iface X f) = Filter_Exists X f"
    by (simp_all add: bloom_iface_def)
  have "h \<in> bloom_seen db f (wRedis w1)" using bloom_laws.add_ok [OF L] assms(2) by (auto simp: a)
  then have "h \<in> bloom_seen db f (wRedis (fold (\<lambda>x v. snd (Filter_Add X f x v)) hs w1))"
    by (rule bloom_laws.seen_stays [OF L, unfolded a])
  with bloom_laws.exists_ok [OF L, unfolded a, OF assms(3)] show b by simp
qed

lemma bloom_never_denies_witness:
  "fst (Filter_Exists ref_ext (bloom_New ''f'') ''h'' (fold (\<lambda>x v. snd (Filter_Add ref_ext (bloom_New ''f'') x v))
    [''i''] (snd (Filter_Add ref_ext (bloom_New ''f'') ''h'' ref_empty)))) = Inr True"
proof -
  let ?v = "fold (\<lambda>x v. snd (Filter_Add ref_ext (bloom_New ''f'') x v)) [''i'']
    (snd (Filter_Add ref_ext (bloom_New ''f'') ''h'' ref_empty))"
  have a: "Filter_Add ref_ext (bloom_New ''f'') ''h'' ref_empty = (None, snd (Filter_Add ref_ext (bloom_New ''f'') ''h'' ref_empty))"
    by (simp add: demo_defs run_defs)
  obtain b where b: "fst (Filter_Exists ref_ext (bloom_New ''f'') ''h'' ?v) = Inr b"
    by (simp add: demo_defs run_defs)
  then have "Filter_Exists ref_ext (bloom_New ''f'') ''h'' ?v = (Inr b, snd (Filter_Exists ref_ext (bloom_New ''f'') ''h'' ?v))"
    by (metis prod.collapse)
  from bloom_never_denies [OF ref_server.redis_server_axioms a this] b show ?thesis by simp
qed

text \<open>
  C35.  The tracker of partial results is an exact set: a key is found exactly when it has just been added or
  was there, and is not found once it has been removed.
\<close>

theorem tracker_is_exact:
  assumes "redis_server X db" and "Tracker_Add X p h w = (None, w1)"
    and "Tracker_Contains X p x w1 = (Inr b, w2)" and "Tracker_Remove X p h w2 = (None, w3)"
    and "Tracker_Contains X p x w3 = (Inr c, w4)"
  shows "(b \<longleftrightarrow> x = h \<or> x \<in> tracked_keys db p (wRedis w)) \<and> (c \<longleftrightarrow> x \<noteq> h \<and> x \<in> tracked_keys db p (wRedis w))"
proof -
  note L = redis_server.tracker_keeps_contract [OF assms(1), of p]
  note t = tracker_iface_def late_tracker.simps
  note laws = tracker_laws.add_then_contains [OF L, unfolded t, OF assms(2,3)]
    tracker_laws.remove_then_contains [OF L, unfolded t, OF assms(4,5)]
    tracker_laws.contains_frame [OF L, unfolded t, OF assms(3)] tracker_laws.add_ok [OF L, unfolded t, OF assms(2)]
  from laws show ?thesis by auto
qed

lemma tracker_is_exact_witness:
  "\<exists>w1 w2 w3 w4. Tracker_Add ref_ext (NewRedisPartialTracker '''') ''h'' ref_empty = (None, w1)
    \<and> Tracker_Contains ref_ext (NewRedisPartialTracker '''') ''h'' w1 = (Inr True, w2)
    \<and> Tracker_Remove ref_ext (NewRedisPartialTracker '''') ''h'' w2 = (None, w3)
    \<and> Tracker_Contains ref_ext (NewRedisPartialTracker '''') ''h'' w3 = (Inr False, w4)"
proof -
  let ?p = "NewRedisPartialTracker ''''"
  note d = Tracker_Add_def Tracker_Contains_def Tracker_Remove_def demo_defs run_defs
  obtain w1 b w2 w3 c w4 where r: "Tracker_Add ref_ext ?p ''h'' ref_empty = (None, w1)"
    "Tracker_Contains ref_ext ?p ''h'' w1 = (Inr b, w2)" "Tracker_Remove ref_ext ?p ''h'' w2 = (None, w3)"
    "Tracker_Contains ref_ext ?p ''h'' w3 = (Inr c, w4)"
    by (simp add: d)
  from tracker_is_exact [OF ref_server.redis_server_axioms r] r show ?thesis by auto
qed

text \<open>
  C36.  Keys in Redis.  Configurations with different ids have different Bloom filters, timeout sets and
  partial sets; but the key of the delay queue is made of the name, and configurations of one name share it.
\<close>

theorem redis_keys_of_configs:
  assumes "length (ConfigID jc) = 16" and "length (ConfigID jc') = 16" and "ConfigID jc \<noteq> ConfigID jc'"
  shows "bloom_key cfg (Multi i) jc \<noteq> bloom_key cfg (Multi j) jc'
    \<and> timeouts_key (Multi i) jc \<noteq> timeouts_key (Multi j) jc'
    \<and> partial_key (Multi i) jc \<noteq> partial_key (Multi j) jc'
    \<and> (delay_key jc = delay_key jc' \<longleftrightarrow> cfgName jc = cfgName jc')"
  using timer_keys_apart [OF assms] by (simp add: delay_key_def)

lemma redis_keys_of_configs_witness:
  "timeouts_key (Multi 0) demo_jc \<noteq> timeouts_key (Multi 1) (demo_jc\<lparr>ConfigID := replicate 16 CHR ''x''\<rparr>)
    \<and> delay_key demo_jc = delay_key (demo_jc\<lparr>ConfigID := replicate 16 CHR ''x''\<rparr>)"
proof -
  have "ConfigID demo_jc \<noteq> ConfigID (demo_jc\<lparr>ConfigID := replicate 16 CHR ''x''\<rparr>)"
    by (simp add: demo_jc_def uuid_Nil_def)
  from redis_keys_of_configs [OF _ _ this, of demo_cfg 0 1] show ?thesis by (simp add: demo_jc_def uuid_Nil_def)
qed

section \<open>Start-up and operation\<close>

text \<open>
  C37.  The start-up ends.  When the clock passes the thirty seconds, neither the retries of ScyllaDB nor
  those of Kafka go on for ever: as many turns as there are clock readings before that are enough.
\<close>

theorem startup_retries_end:
  assumes "\<And>t. late \<le> t \<Longrightarrow> wClock w (wTick w) + 30 * ns_second < wClock w t" and "late \<le> Suc (wTick w) + n"
  shows "(\<exists>r. retry (Suc n) global (30 * ns_second) ''Scylla'' (Some (impl_logger l))
      (connect_scylla X (scylla_config cfg)) w = Some r)
    \<and> (\<exists>r. retry (Suc n) global (30 * ns_second) ''Kafka'' (Some (impl_logger l))
      (kafka_NewClient X (KafkaBrokers cfg) ''omni-joiner-processor'' (InputTopic cfg)) w = Some r)"
proof (intro conjI)
  show "\<exists>r. retry (Suc n) global (30 * ns_second) ''Scylla'' (Some (impl_logger l))
      (connect_scylla X (scylla_config cfg)) w = Some r"
    by (rule retry_returns [OF connect_scylla_same assms])
  show "\<exists>r. retry (Suc n) global (30 * ns_second) ''Kafka'' (Some (impl_logger l))
      (kafka_NewClient X (KafkaBrokers cfg) ''omni-joiner-processor'' (InputTopic cfg)) w = Some r"
    by (rule retry_returns [OF kafka_NewClient_same assms])
qed

lemma startup_retries_end_witness:
  "\<exists>r. retry 31 nopLogger (30 * ns_second) ''Kafka'' (Some (impl_logger demo_log))
    (kafka_NewClient (ref_ext\<lparr>kgo_new_client := (\<lambda>opts k. (Some ref_error, k))\<rparr>) [] ''omni-joiner-processor'' ''in'')
    demo_clock = Some r"
  using startup_retries_end [of 31 demo_clock 30 nopLogger demo_log
      "ref_ext\<lparr>kgo_new_client := (\<lambda>opts k. (Some ref_error, k))\<rparr>" demo_cfg]
  by (simp add: demo_clock_def ref_empty_def ref_world_def ns_second_def demo_cfg_def)

text \<open>
  C38.  What the logger writes.  A call below the level writes nothing; any other writes one line with the
  time, the level and the message, and none of the key-value pairs that it was given.
\<close>

theorem log_drops_keyvals:
  "wLog (impl_log l lv ls msg kvs w) =
    (if lv < imLevel l then wLog w
     else (if imFormat l = ''json''
       then LogJSON [(KStr ''ts'', KInt (wClock w (wTick w))), (KStr ''level'', KStr ls), (KStr ''msg'', KStr msg)]
       else LogText (wClock w (wTick w)) ls msg []) # wLog w)"
  by (simp add: impl_log_filtered impl_log_line not_less)



text \<open>
  C40.  Readiness.  While each dependency answers its pings as \<open>up\<close> says, the probe answers 200 when all that
  are configured are up, and otherwise 503 with the failures of exactly those that are down, in the order
  store, Kafka, Redis.
\<close>

theorem readiness_reports_failures:
  assumes "answers (dependencies c) up"
  shows "\<exists>fs. map fst fs = filter (\<lambda>n. \<not> up n) (map fst (dependencies c))
    \<and> fst (ServeHTTP c ''GET'' ''/ready'' w) =
      (if fs = [] then \<lparr>rsCode = 200, rsBody = StatusBody ''ready''\<rparr>
       else \<lparr>rsCode = 503, rsBody = NotReadyBody fs\<rparr>)"
  using ask_failures [OF assms, of w]
  by (intro exI [of _ "fst (ask (dependencies c) w)"]) (simp add: ServeHTTP_def readiness_asks split: prod.splits)

lemma readiness_reports_failures_witness:
  "\<exists>fs. map fst fs = [''kafka: ''] \<and> fst (ServeHTTP (NewChecker (Some (Store_Ping ref_ext))
      (Some (kafka_Ping (ref_ext\<lparr>kgo_ping := (\<lambda>k. (Some ref_error, k))\<rparr>))) None) ''GET'' ''/ready'' ref_empty)
    = \<lparr>rsCode = 503, rsBody = NotReadyBody fs\<rparr>"
proof -
  let ?c = "NewChecker (Some (Store_Ping ref_ext)) (Some (kafka_Ping (ref_ext\<lparr>kgo_ping := (\<lambda>k. (Some ref_error, k))\<rparr>))) None"
  have d: "dependencies ?c = [(''store: '', Store_Ping ref_ext),
      (''kafka: '', kafka_Ping (ref_ext\<lparr>kgo_ping := (\<lambda>k. (Some ref_error, k))\<rparr>))]"
    by (simp add: dependencies_def NewChecker_def)
  have "answers (dependencies ?c) (\<lambda>n. n = ''store: '')"
    unfolding d by (simp add: answers_def Store_Ping_def kafka_Ping_def on_cql_def on_kafka_def ref_ext_def Let_def)
  from readiness_reports_failures [OF this, of ref_empty] show ?thesis by (auto simp: d)
qed

end
